(* ===== verification/Go_Prelude.thy ===== *)
theory Go_Prelude
  imports Main "HOL-Library.Word" "HOL-Library.Signed_Division"
begin

text \<open>
  The part of the Go language that every component of the development uses:
  \<^item> \<open>int64\<close> arithmetic (two's complement, wrapping, division truncating towards zero);
  \<^item> effects. A Go call that reads and writes the world, returns a value, panics, or brings the
    whole process down is a state transformer \<open>('w, 'a) io\<close>: \<open>Ok\<close> is a normal return,
    \<open>Panic\<close> a panic unwinding the calling goroutine (which \<open>recover\<close> can stop), \<open>Crash\<close> a
    panic of another goroutine, which no \<open>recover\<close> of this one can stop.
  The theory also declares the collections of simplification rules of the development.
\<close>

named_theorems io_simps \<open>equations of the effect combinators\<close>
named_theorems mw_defs \<open>definitions of middlewares, unfolded when a middleware is evaluated\<close>
named_theorems sint_arith \<open>signed values of int64 expressions that do not overflow\<close>

section \<open>64-bit signed integers\<close>

type_synonym int64 = "64 word"
type_synonym duration = int64

abbreviation sle64 :: "int64 \<Rightarrow> int64 \<Rightarrow> bool" where
  "sle64 a b \<equiv> sint a \<le> sint b"

abbreviation slt64 :: "int64 \<Rightarrow> int64 \<Rightarrow> bool" where
  "slt64 a b \<equiv> sint a < sint b"

text \<open>Go's \<open>/\<close> and \<open>%\<close> on \<open>int64\<close>, for a divisor known not to be zero.\<close>

definition go_quot :: "int64 \<Rightarrow> int64 \<Rightarrow> int64" where
  "go_quot a b = word_of_int (sint a sdiv sint b)"

definition go_rem :: "int64 \<Rightarrow> int64 \<Rightarrow> int64" where
  "go_rem a b = word_of_int (sint a smod sint b)"

definition in_int64 :: "int \<Rightarrow> bool" where
  "in_int64 x \<longleftrightarrow> - (2 ^ 63) \<le> x \<and> x < 2 ^ 63"

lemma sint_word_of_int64:
  assumes "in_int64 x"
  shows "sint (word_of_int x :: int64) = x"
  using assms by (simp add: in_int64_def sint_sbintrunc' signed_take_bit_int_eq_self)

lemma sint_bounds64: "- (2 ^ 63) \<le> sint (a :: int64)" "sint (a :: int64) < 2 ^ 63"
  using sint_ge [of a] sint_lt [of a] by simp_all

lemma sint_plus64 [sint_arith]:
  "in_int64 (sint a + sint b) \<Longrightarrow> sint (a + b :: int64) = sint a + sint b"
  by (simp add: in_int64_def sint_word_ariths signed_take_bit_int_eq_self)

lemma sint_minus64 [sint_arith]:
  "in_int64 (sint a - sint b) \<Longrightarrow> sint (a - b :: int64) = sint a - sint b"
  by (simp add: in_int64_def sint_word_ariths signed_take_bit_int_eq_self)

lemma sint_mult64 [sint_arith]:
  "in_int64 (sint a * sint b) \<Longrightarrow> sint (a * b :: int64) = sint a * sint b"
  by (simp add: in_int64_def sint_word_ariths signed_take_bit_int_eq_self)

lemma sdiv_nonneg: "0 \<le> a \<Longrightarrow> 0 < b \<Longrightarrow> (a :: int) sdiv b = a div b"
  by (cases "a = 0") (simp_all add: signed_divide_int_def)

lemma smod_nonneg: "0 \<le> a \<Longrightarrow> 0 < b \<Longrightarrow> (a :: int) smod b = a mod b"
  by (simp add: smod_mod_positive)

lemma go_quot_nonneg [sint_arith]:
  assumes "0 \<le> sint a" and "0 < sint b"
  shows "sint (go_quot a b) = sint a div sint b"
proof -
  have "sint a div sint b \<le> sint a"
    using assms zdiv_mono2 [of "sint a" 1 "sint b"] by simp
  moreover have "0 \<le> sint a div sint b"
    using assms by (simp add: pos_imp_zdiv_nonneg_iff)
  ultimately have "in_int64 (sint a div sint b)"
    using sint_bounds64(2) [of a] unfolding in_int64_def by linarith
  then show ?thesis
    using assms by (simp add: go_quot_def sdiv_nonneg sint_word_of_int64)
qed

lemma go_rem_nonneg [sint_arith]:
  assumes "0 \<le> sint a" and "0 < sint b"
  shows "sint (go_rem a b) = sint a mod sint b"
proof -
  have "in_int64 (sint a mod sint b)"
    using assms sint_bounds64(2) [of b] pos_mod_bound [of "sint b" "sint a"]
      pos_mod_sign [of "sint b" "sint a"]
    unfolding in_int64_def by linarith
  then show ?thesis
    using assms by (simp add: go_rem_def smod_nonneg sint_word_of_int64)
qed

lemma go_quot_neg:
  assumes "sint a < 0" and "0 < sint b"
  shows "sint (go_quot a b) = - ((- sint a) div sint b)"
proof -
  have "(- sint a) div sint b \<le> - sint a"
    using assms zdiv_mono2 [of "- sint a" 1 "sint b"] by simp
  moreover have "0 \<le> (- sint a) div sint b"
    using assms by (simp add: pos_imp_zdiv_nonneg_iff)
  ultimately have "in_int64 (- ((- sint a) div sint b))"
    using sint_bounds64(1) [of a] by (simp add: in_int64_def)
  moreover have "sint a sdiv sint b = - ((- sint a) div sint b)"
    using assms by (simp add: signed_divide_int_def)
  ultimately show ?thesis
    unfolding go_quot_def by (simp only: sint_word_of_int64)
qed

lemma sint_eq_iff64: "sint (a :: int64) = sint b \<longleftrightarrow> a = b"
  by (auto intro: signed_word_eqI)

section \<open>Effects\<close>

datatype 'a res = Ok 'a | Panic string | Crash string

type_synonym ('w, 'a) io = "'w \<Rightarrow> 'a res \<times> 'w"

definition io_ret :: "'a \<Rightarrow> ('w, 'a) io" where
  "io_ret x = (\<lambda>w. (Ok x, w))"

definition io_bind :: "('w, 'a) io \<Rightarrow> ('a \<Rightarrow> ('w, 'b) io) \<Rightarrow> ('w, 'b) io" where
  "io_bind m f = (\<lambda>w. case m w of
      (Ok x, w') \<Rightarrow> f x w'
    | (Panic v, w') \<Rightarrow> (Panic v, w')
    | (Crash v, w') \<Rightarrow> (Crash v, w'))"

definition io_then :: "('w, 'a) io \<Rightarrow> ('w, 'b) io \<Rightarrow> ('w, 'b) io" where
  "io_then m k = io_bind m (\<lambda>_. k)"

definition io_panic :: "string \<Rightarrow> ('w, 'a) io" where
  "io_panic v = (\<lambda>w. (Panic v, w))"

definition io_get :: "('w \<Rightarrow> 'a) \<Rightarrow> ('w, 'a) io" where
  "io_get f = (\<lambda>w. (Ok (f w), w))"

definition io_mod :: "('w \<Rightarrow> 'w) \<Rightarrow> ('w, unit) io" where
  "io_mod f = (\<lambda>w. (Ok (), f w))"

lemma io_ret_apply [io_simps]: "io_ret x w = (Ok x, w)"
  by (simp add: io_ret_def)

lemma io_panic_apply [io_simps]: "io_panic v w = (Panic v, w)"
  by (simp add: io_panic_def)

lemma io_get_apply [io_simps]: "io_get f w = (Ok (f w), w)"
  by (simp add: io_get_def)

lemma io_mod_apply [io_simps]: "io_mod f w = (Ok (), f w)"
  by (simp add: io_mod_def)

lemma io_bind_ret [io_simps]: "io_bind (io_ret x) f = f x"
  by (simp add: io_bind_def io_ret_def)

lemma io_bind_ret_right [io_simps]: "io_bind m io_ret = m"
  by (auto simp: io_bind_def io_ret_def fun_eq_iff split: prod.splits res.splits)

lemma io_bind_assoc [io_simps]: "io_bind (io_bind m f) g = io_bind m (\<lambda>x. io_bind (f x) g)"
  by (auto simp: io_bind_def fun_eq_iff split: prod.splits res.splits)

lemma io_bind_panic [io_simps]: "io_bind (io_panic v) f = io_panic v"
  by (simp add: io_bind_def io_panic_def)

lemma io_bind_get [io_simps]: "io_bind (io_get g) f = (\<lambda>w. f (g w) w)"
  by (simp add: io_bind_def io_get_def)

lemma io_bind_mod [io_simps]: "io_bind (io_mod g) f = (\<lambda>w. f () (g w))"
  by (simp add: io_bind_def io_mod_def)

lemma io_then_bind [io_simps]: "io_then m k = io_bind m (\<lambda>_. k)"
  by (simp add: io_then_def)

lemma io_bind_apply:
  "io_bind m f w = (case m w of
      (Ok x, w') \<Rightarrow> f x w' | (Panic v, w') \<Rightarrow> (Panic v, w') | (Crash v, w') \<Rightarrow> (Crash v, w'))"
  by (simp add: io_bind_def)

lemma io_bind_cases [io_simps]:
  "m w = (Ok x, w') \<Longrightarrow> io_bind m f w = f x w'"
  "m w = (Panic v, w') \<Longrightarrow> io_bind m f w = (Panic v, w')"
  "m w = (Crash v, w') \<Longrightarrow> io_bind m f w = (Crash v, w')"
  by (simp_all add: io_bind_def)

lemmas io_monad = io_bind_ret io_bind_ret_right io_bind_assoc io_bind_panic io_then_def

text \<open>A computation that always returns normally.\<close>

definition io_total :: "('w, 'a) io \<Rightarrow> bool" where
  "io_total m \<longleftrightarrow> (\<forall>w. \<exists>x w'. m w = (Ok x, w'))"

lemma io_totalE:
  assumes "io_total m"
  obtains x w' where "m w = (Ok x, w')"
  using assms unfolding io_total_def by blast

lemma io_total_ret [intro!, simp]: "io_total (io_ret x)"
  by (simp add: io_total_def io_ret_def)

lemma io_total_get [intro!, simp]: "io_total (io_get f)"
  by (simp add: io_total_def io_get_def)

lemma io_total_mod [intro!, simp]: "io_total (io_mod f)"
  by (simp add: io_total_def io_mod_def)

lemma io_total_bind [intro]: "io_total m \<Longrightarrow> (\<And>x. io_total (f x)) \<Longrightarrow> io_total (io_bind m f)"
  unfolding io_total_def io_bind_def by (metis (no_types, lifting) case_prod_conv res.simps(10))

lemma io_total_then [intro]: "io_total m \<Longrightarrow> io_total k \<Longrightarrow> io_total (io_then m k)"
  by (auto simp: io_then_def)

text \<open>A call that returns normally: a state function as a computation.\<close>

definition io_call :: "('w \<Rightarrow> 'a \<times> 'w) \<Rightarrow> ('w, 'a) io" where
  "io_call f = (\<lambda>w. case f w of (x, w') \<Rightarrow> (Ok x, w'))"

lemma io_total_call [intro!, simp]: "io_total (io_call f)"
  by (simp add: io_total_def io_call_def split: prod.splits)

lemma io_call_apply [io_simps]: "f w = (x, w') \<Longrightarrow> io_call f w = (Ok x, w')"
  by (simp add: io_call_def)

lemma io_bind_call [io_simps]: "io_bind (io_call f) g = (\<lambda>w. case f w of (x, w') \<Rightarrow> g x w')"
  by (auto simp: io_bind_def io_call_def fun_eq_iff split: prod.splits)

section \<open>Functional options\<close>

text \<open>
  \<open>for _, opt := range opts { opt(o) }\<close>: every constructor of the program takes a variadic list
  of setters and applies them in order to the defaults.
\<close>

definition apply_opts :: "'o \<Rightarrow> ('o \<Rightarrow> 'o) list \<Rightarrow> 'o" where
  "apply_opts o0 opts = fold (\<lambda>opt o'. opt o') opts o0"

lemma apply_opts_Nil [simp]: "apply_opts o0 [] = o0"
  by (simp add: apply_opts_def)

lemma apply_opts_Cons [simp]: "apply_opts o0 (f # fs) = apply_opts (f o0) fs"
  by (simp add: apply_opts_def)

lemma apply_opts_append: "apply_opts o0 (fs @ gs) = apply_opts (apply_opts o0 fs) gs"
  by (simp add: apply_opts_def)

section \<open>Interleavings\<close>

text \<open>
  Goroutines that share memory are a step relation; what holds at the start and is kept by every step
  holds whatever the interleaving.
\<close>

locale interleaving =
  fixes start :: "'s \<Rightarrow> bool"
    and step :: "'s \<Rightarrow> 's \<Rightarrow> bool"
    and inv :: "'s \<Rightarrow> bool"
  assumes inv_start: "start s \<Longrightarrow> inv s"
    and inv_step: "step s s' \<Longrightarrow> inv s \<Longrightarrow> inv s'"
begin

lemma inv_run: "step\<^sup>*\<^sup>* s s' \<Longrightarrow> inv s \<Longrightarrow> inv s'"
  by (induction rule: rtranclp_induct) (auto intro: inv_step)

lemma inv_reachable: "start s \<Longrightarrow> step\<^sup>*\<^sup>* s s' \<Longrightarrow> inv s'"
  using inv_run inv_start by blast

end

end
