(* ===== verification/Page.thy ===== *)
theory Page
  imports Go_Prelude
begin

text \<open>
  Package \<open>page\<close> (pkg/page/page.go): the request and response shapes of paginated endpoints.
  Integers are \<open>int64\<close>, so the offset of a far page wraps; \<open>total / pageSize\<close> truncates.
  A Go slice that may be nil is an optional list.
\<close>

section \<open>Model\<close>

definition DefaultPageSize :: int64 where
  "DefaultPageSize = 20"

definition MaxPageSize :: int64 where
  "MaxPageSize = 1000"

record page_param =
  PageNo :: int64
  PageSize :: int64

definition Normalize :: "page_param \<Rightarrow> page_param" where
  "Normalize p0 =
     (let p1 = (if slt64 (PageNo p0) 1 then p0\<lparr>PageNo := 1\<rparr> else p0);
          p2 = (if sle64 (PageSize p1) 0 then p1\<lparr>PageSize := DefaultPageSize\<rparr> else p1);
          p3 = (if slt64 MaxPageSize (PageSize p2) then p2\<lparr>PageSize := MaxPageSize\<rparr> else p2)
      in p3)"

definition page_Offset :: "page_param \<Rightarrow> int64" where
  "page_Offset p = (let n = Normalize p in (PageNo n - 1) * PageSize n)"

definition page_Limit :: "page_param \<Rightarrow> int64" where
  "page_Limit p = PageSize (Normalize p)"

record 'a page_result =
  Total :: int64
  Pages :: int64
  List :: "'a list"

text \<open>\<open>None\<close> is the run-time panic of an integer division by zero.\<close>

definition page_New :: "'a list option \<Rightarrow> int64 \<Rightarrow> int64 \<Rightarrow> 'a page_result option" where
  "page_New lst tot pageSize0 =
     (let pageSize = (if sle64 pageSize0 0 then 1 else pageSize0)
      in if pageSize = 0 then None
         else
           (let pages0 = go_quot tot pageSize;
                pages = (if go_rem tot pageSize \<noteq> 0 then pages0 + 1 else pages0);
                lst' = (case lst of None \<Rightarrow> [] | Some xs \<Rightarrow> xs)
            in Some \<lparr>Total = tot, Pages = pages, List = lst'\<rparr>))"

definition page_Empty :: "'a page_result" where
  "page_Empty = \<lparr>Total = 0, Pages = 0, List = []\<rparr>"

text \<open>\<open>out[i] = fn(s)\<close> over a slice made with the length of \<open>r.List\<close>.\<close>

fun page_map_loop :: "('a \<Rightarrow> 'b) \<Rightarrow> nat \<Rightarrow> 'a list \<Rightarrow> 'b list \<Rightarrow> 'b list" where
  "page_map_loop fn i [] out = out"
| "page_map_loop fn i (s # ss) out = page_map_loop fn (Suc i) ss (out[i := fn s])"

definition page_Map :: "'b \<Rightarrow> 'a page_result \<Rightarrow> ('a \<Rightarrow> 'b) \<Rightarrow> 'b page_result" where
  "page_Map zero r fn =
     \<lparr>Total = Total r, Pages = Pages r,
      List = page_map_loop fn 0 (List r) (replicate (length (List r)) zero)\<rparr>"

section \<open>Normal form\<close>

lemma sint_small_consts [simp]:
  "sint DefaultPageSize = 20" "sint MaxPageSize = 1000"
  by (simp_all add: DefaultPageSize_def MaxPageSize_def)

lemma Normalize_PageNo:
  "sint (PageNo (Normalize p)) = max 1 (sint (PageNo p))"
  by (simp add: Normalize_def Let_def max_def)

lemma Normalize_PageSize:
  "sint (PageSize (Normalize p)) =
     (if sint (PageSize p) \<le> 0 then 20 else min 1000 (sint (PageSize p)))"
  by (simp add: Normalize_def Let_def min_def)

lemma Normalize_PageSize_range:
  "1 \<le> sint (PageSize (Normalize p))" "sint (PageSize (Normalize p)) \<le> 1000"
  by (simp_all add: Normalize_PageSize min_def)

lemma Normalize_fixpoint:
  assumes "1 \<le> sint (PageNo p)" "1 \<le> sint (PageSize p)" "sint (PageSize p) \<le> 1000"
  shows "Normalize p = p"
  using assms by (simp add: Normalize_def Let_def)

section \<open>Offsets without overflow\<close>

lemma sint_page_Offset:
  assumes "sint (PageNo p) \<le> 2 ^ 53"
  shows "sint (page_Offset p) =
    (sint (PageNo (Normalize p)) - 1) * sint (PageSize (Normalize p))"
proof -
  let ?n = "sint (PageNo (Normalize p))" and ?s = "sint (PageSize (Normalize p))"
  have n: "1 \<le> ?n" "?n \<le> 2 ^ 53"
    using assms by (auto simp: Normalize_PageNo)
  have s: "1 \<le> ?s" "?s \<le> 1000"
    by (rule Normalize_PageSize_range)+
  have m: "sint (PageNo (Normalize p) - 1) = ?n - 1"
    using n by (subst sint_minus64) (auto simp: in_int64_def)
  have "(?n - 1) * ?s \<le> 2 ^ 53 * 1000"
    using n s by (intro mult_mono) auto
  moreover have "0 \<le> (?n - 1) * ?s"
    using n s by simp
  ultimately have "in_int64 ((?n - 1) * ?s)"
    by (simp add: in_int64_def)
  then show ?thesis
    unfolding page_Offset_def Let_def by (simp add: sint_mult64 m)
qed

section \<open>Number of pages\<close>

lemma page_New_Some:
  "page_New lst tot pageSize =
     (let s = (if sint pageSize \<le> 0 then 1 else pageSize) in
      Some \<lparr>Total = tot,
            Pages = (if go_rem tot s \<noteq> 0 then go_quot tot s + 1 else go_quot tot s),
            List = (case lst of None \<Rightarrow> [] | Some xs \<Rightarrow> xs)\<rparr>)"
  by (auto simp: page_New_def Let_def)

lemma ceil_div_eq: "0 < s \<Longrightarrow> (t + s - 1) div s = t div s + (if t mod s = 0 then 0 else (1 :: int))"
proof -
  assume s: "0 < s"
  have split: "t + s - 1 = t div s * s + (t mod s + s - 1)"
    by simp
  have "(t + s - 1) div s = t div s + (t mod s + s - 1) div s"
    using s by (subst split) simp
  moreover have "(t mod s + s - 1) div s = (if t mod s = 0 then 0 else 1)"
  proof (cases "t mod s = 0")
    case True
    with s show ?thesis by (simp add: div_pos_pos_trivial)
  next
    case False
    with s have r: "0 \<le> t mod s - 1" "t mod s - 1 < s"
      using pos_mod_sign [of s t] pos_mod_bound [of s t] by linarith+
    have "(t mod s + s - 1) div s = (t mod s - 1) div s + 1"
      using s div_add_self2 [of s "t mod s - 1"] by (simp add: algebra_simps)
    with r False show ?thesis by (simp add: div_pos_pos_trivial)
  qed
  ultimately show ?thesis by simp
qed

lemma page_New_Pages:
  assumes "0 \<le> sint tot" and "0 < sint pageSize" and "page_New lst tot pageSize = Some r"
  shows "sint (Pages r) = (sint tot + sint pageSize - 1) div sint pageSize"
proof -
  let ?t = "sint tot" and ?s = "sint pageSize"
  have q: "sint (go_quot tot pageSize) = ?t div ?s"
    and m: "sint (go_rem tot pageSize) = ?t mod ?s"
    using assms by (simp_all add: sint_arith)
  have zero: "go_rem tot pageSize = 0 \<longleftrightarrow> ?t mod ?s = 0"
    using m sint_eq_iff64 [of "go_rem tot pageSize" 0] by simp
  have bound: "?t div ?s + 1 < 2 ^ 63" if "?t mod ?s \<noteq> 0"
  proof -
    from that assms have "2 \<le> ?s" by (cases "?s = 1") auto
    then have "?t div ?s \<le> ?t div 2"
      using assms by (intro zdiv_mono2) auto
    moreover have "?t div 2 + 1 < 2 ^ 63"
      using sint_bounds64(2) [of tot] by simp
    ultimately show ?thesis by simp
  qed
  have inc: "sint (go_quot tot pageSize + 1) = ?t div ?s + 1" if "?t mod ?s \<noteq> 0"
    using bound [OF that] assms
    by (subst sint_plus64) (auto simp: q in_int64_def pos_imp_zdiv_nonneg_iff
        intro: order_trans [of _ 0])
  from assms show ?thesis
    by (auto simp: page_New_Some Let_def zero q inc ceil_div_eq)
qed

lemma page_map_loop_map:
  "length out = i + length ss \<Longrightarrow> page_map_loop fn i ss out = take i out @ map fn ss"
proof (induction fn i ss out rule: page_map_loop.induct)
  case (1 fn i out)
  then show ?case by simp
next
  case (2 fn i s ss out)
  then have "page_map_loop fn (Suc i) ss (out[i := fn s])
      = take (Suc i) (out[i := fn s]) @ map fn ss"
    by simp
  also have "take (Suc i) (out[i := fn s]) = take i out @ [fn s]"
    using "2.prems" by (simp add: take_Suc_conv_app_nth)
  finally show ?case by simp
qed


section \<open>Windows of a list\<close>

text \<open>The rows a query with \<open>OFFSET p.Offset() LIMIT p.Limit()\<close> returns.\<close>

definition page_window :: "'a list \<Rightarrow> page_param \<Rightarrow> 'a list" where
  "page_window xs p = take (nat (sint (page_Limit p))) (drop (nat (sint (page_Offset p))) xs)"

lemma page_window_in_range:
  assumes "0 < s" "s \<le> 1000" "k < 2 ^ 53"
    and no: "sint (PageNo p) = int (Suc k)" and sz: "sint (PageSize p) = int s"
  shows "page_window xs p = take s (drop (k * s) xs)"
proof -
  have nf: "Normalize p = p"
    using assms by (intro Normalize_fixpoint) auto
  have "sint (page_Offset p) = int (k * s)"
    using assms by (subst sint_page_Offset) (auto simp: nf)
  moreover have "sint (page_Limit p) = int s"
    using sz by (simp add: page_Limit_def nf)
  ultimately show ?thesis by (simp add: page_window_def nat_mult_distrib)
qed

lemma page_window_nth_page:
  assumes "0 < s" "s \<le> 1000" "k < 2 ^ 53"
  shows "page_window xs \<lparr>PageNo = word_of_nat (Suc k), PageSize = word_of_nat s\<rparr>
    = take s (drop (k * s) xs)"
  using assms sint_word_of_int64 [of "int (Suc k)"] sint_word_of_int64 [of "int s"]
  by (intro page_window_in_range) (auto simp: in_int64_def)

lemma ceil_div_cover:
  assumes "0 < (s :: nat)"
  shows "n \<le> (n + s - 1) div s * s" and "(n + s - 1) div s \<le> n"
proof -
  have "(n + s - 1) div s * s + (n + s - 1) mod s = n + s - 1"
    by simp
  moreover have "(n + s - 1) mod s \<le> s - 1"
    using assms mod_less_divisor [of s "n + s - 1"] by linarith
  ultimately show "n \<le> (n + s - 1) div s * s"
    using assms by linarith
  have "n * 1 \<le> n * s"
    using assms by (intro mult_le_mono2) simp
  then have "n + s - 1 < (n + 1) * s"
    using assms unfolding distrib_right by linarith
  then have "(n + s - 1) div s < n + 1"
    by (rule less_mult_imp_div_less)
  then show "(n + s - 1) div s \<le> n" by simp
qed

lemma concat_windows: "concat (map (\<lambda>k. take s (drop (k * s) xs)) [0..<m]) = take (m * s) xs"
proof (induction m)
  case 0
  then show ?case by simp
next
  case (Suc m)
  have "take (m * s) xs @ take s (drop (m * s) xs) = take (m * s + s) xs"
    by (simp add: take_add)
  with Suc show ?case by (simp add: add.commute)
qed

section \<open>Properties\<close>

text \<open>
  C37. \<open>Normalize\<close> gives for every input, whatever the client sends, exactly: page numbers below 1 become
  1, page sizes of zero or less become the default 20, page sizes above 1000 become 1000, and all other
  values are kept. So the result is in the accepted range, a parameter in range is returned as it
  is, and only such a parameter is; normalizing twice is normalizing once.
\<close>

theorem Normalize_in_range_idempotent:
  "sint (PageNo (Normalize p)) = max 1 (sint (PageNo p)) \<and>
   sint (PageSize (Normalize p)) =
     (if sint (PageSize p) \<le> 0 then 20 else if 1000 < sint (PageSize p) then 1000 else sint (PageSize p)) \<and>
   1 \<le> sint (PageNo (Normalize p)) \<and> 1 \<le> sint (PageSize (Normalize p)) \<and>
   sint (PageSize (Normalize p)) \<le> sint MaxPageSize \<and>
   (Normalize p = p \<longleftrightarrow> 1 \<le> sint (PageNo p) \<and> 1 \<le> sint (PageSize p) \<and> sint (PageSize p) \<le> 1000) \<and>
   Normalize (Normalize p) = Normalize p"
proof (intro conjI)
  show "sint (PageSize (Normalize p)) =
      (if sint (PageSize p) \<le> 0 then 20 else if 1000 < sint (PageSize p) then 1000 else sint (PageSize p))"
    by (simp add: Normalize_PageSize min_def)
  show "Normalize p = p \<longleftrightarrow> 1 \<le> sint (PageNo p) \<and> 1 \<le> sint (PageSize p) \<and> sint (PageSize p) \<le> 1000"
  proof
    assume "Normalize p = p"
    then show "1 \<le> sint (PageNo p) \<and> 1 \<le> sint (PageSize p) \<and> sint (PageSize p) \<le> 1000"
      using Normalize_PageSize_range [of p] Normalize_PageNo [of p] by simp
  qed (intro Normalize_fixpoint, simp_all)
  show "Normalize (Normalize p) = Normalize p"
    using Normalize_PageSize_range [of p] by (intro Normalize_fixpoint) (simp_all add: Normalize_PageNo)
qed (use Normalize_PageSize_range [of p] in \<open>simp_all add: Normalize_PageNo\<close>)

text \<open>
  C17. Paging is a partition: for a table of at most 2^53 rows and any page size the API accepts,
  the windows of pages 1 to \<open>Pages\<close> (the number \<open>New\<close> reports), in order, are exactly the rows,
  each once. No offset overflows on the way.
\<close>

theorem pages_partition_rows:
  assumes "0 < s" and "s \<le> 1000" and "length xs \<le> 2 ^ 53"
    and "page_New lst (word_of_nat (length xs)) (word_of_nat s) = Some r"
  shows "concat (map (\<lambda>k. page_window xs \<lparr>PageNo = word_of_nat (Suc k), PageSize = word_of_nat s\<rparr>)
           [0..<nat (sint (Pages r))]) = xs"
proof -
  let ?n = "length xs"
  let ?m = "nat (sint (Pages r))"
  have t: "sint (word_of_nat ?n :: int64) = int ?n" and sz: "sint (word_of_nat s :: int64) = int s"
    using assms sint_word_of_int64 [of "int ?n"] sint_word_of_int64 [of "int s"]
    by (auto simp: in_int64_def)
  have "sint (Pages r) = (int ?n + int s - 1) div int s"
    using assms page_New_Pages [OF _ _ assms(4)] by (simp add: t sz)
  then have m: "?m = (?n + s - 1) div s"
    using assms(1) by (simp add: nat_div_distrib nat_diff_distrib flip: of_nat_add)
  have small: "k < 2 ^ 53" if "k < ?m" for k
    using that ceil_div_cover(2) [OF assms(1), of ?n] assms(3) m by linarith
  have "map (\<lambda>k. page_window xs \<lparr>PageNo = word_of_nat (Suc k), PageSize = word_of_nat s\<rparr>) [0..<?m]
      = map (\<lambda>k. take s (drop (k * s) xs)) [0..<?m]"
    using assms small by (intro map_cong refl page_window_nth_page) auto
  then show ?thesis
    using ceil_div_cover(1) [OF assms(1), of ?n] by (simp only: concat_windows) (simp add: m)
qed

theorem pages_partition_rows_witness:
  "concat (map (\<lambda>k. page_window ''abcde'' \<lparr>PageNo = word_of_nat (Suc k), PageSize = word_of_nat 2\<rparr>)
     [0..<nat (sint (Pages \<lparr>Total = 5, Pages = 3, List = ''ab''\<rparr>))]) = ''abcde''"
proof -
  have "page_New (Some ''ab'') (word_of_nat (length ''abcde'')) (word_of_nat 2)
      = Some \<lparr>Total = 5, Pages = 3, List = ''ab''\<rparr>"
    by (simp add: page_New_def go_quot_def go_rem_def signed_divide_int_def signed_modulo_int_def)
  then show ?thesis
    by (rule pages_partition_rows [rotated 3]) simp_all
qed

text \<open>
  \<open>New\<close> never panics, whatever the page size (0 and negative sizes count as 1), reports
  \<open>total\<close> unchanged and the number of pages rounded up, and turns a nil list into an empty one.
\<close>

theorem page_New_total:
  assumes "0 \<le> sint tot"
  shows "\<exists>r. page_New lst tot pageSize = Some r \<and> Total r = tot \<and>
    List r = (case lst of None \<Rightarrow> [] | Some xs \<Rightarrow> xs) \<and>
    sint (Pages r) = (sint tot + max 1 (sint pageSize) - 1) div max 1 (sint pageSize)"
proof -
  define s where "s = (if sint pageSize \<le> 0 then 1 else pageSize)"
  have s: "0 < sint s" "sint s = max 1 (sint pageSize)"
    by (auto simp: s_def)
  have same: "page_New lst tot pageSize = page_New lst tot s"
    by (auto simp: page_New_Some s_def)
  obtain r where r: "page_New lst tot s = Some r"
    by (simp add: page_New_Some Let_def)
  then have "Total r = tot" "List r = (case lst of None \<Rightarrow> [] | Some xs \<Rightarrow> xs)"
    by (auto simp: page_New_Some Let_def)
  with page_New_Pages [OF assms s(1) r] s(2) r same show ?thesis by auto
qed

theorem page_New_total_witness:
  "\<exists>r. page_New (None :: nat list option) 11 (-3) = Some r \<and> Total r = 11 \<and> List r = [] \<and>
     sint (Pages r) = 11"
  using page_New_total [of 11 "None :: nat list option" "-3"] by simp

text \<open>
  C34. When \<open>Offset\<close> can be trusted: it is the number of rows before the page exactly when that number is
  below 2^63, and wraps around otherwise, although it is documented as safe to call on any
  parameters; page 2^62 + 1 of size 2 has the offset -2^63, a negative SQL OFFSET.
\<close>

theorem page_Offset_exact_iff:
  "(sint (page_Offset p) = (sint (PageNo (Normalize p)) - 1) * sint (PageSize (Normalize p)) \<longleftrightarrow>
      (sint (PageNo (Normalize p)) - 1) * sint (PageSize (Normalize p)) < 2 ^ 63) \<and>
   sint (page_Offset \<lparr>PageNo = 2 ^ 62 + 1, PageSize = 2\<rparr>) = - (2 ^ 63)"
proof
  let ?n = "PageNo (Normalize p)" and ?s = "PageSize (Normalize p)"
  have n: "1 \<le> sint ?n"
    by (simp add: Normalize_PageNo)
  have n1: "sint (?n - 1) = sint ?n - 1"
    using n sint_bounds64 [of ?n] sint_minus64 [of ?n 1] by (simp add: in_int64_def)
  have pos: "0 \<le> (sint ?n - 1) * sint ?s"
    using n Normalize_PageSize_range(1) [of p] by (intro mult_nonneg_nonneg) simp_all
  have "sint (page_Offset p) = (sint ?n - 1) * sint ?s" if "(sint ?n - 1) * sint ?s < 2 ^ 63"
    using that pos n1 sint_mult64 [of "?n - 1" ?s] by (simp add: page_Offset_def Let_def in_int64_def)
  then show "sint (page_Offset p) = (sint ?n - 1) * sint ?s \<longleftrightarrow> (sint ?n - 1) * sint ?s < 2 ^ 63"
    using sint_bounds64(2) [of "page_Offset p"] by metis
  show "sint (page_Offset \<lparr>PageNo = 2 ^ 62 + 1, PageSize = 2\<rparr>) = - (2 ^ 63)"
    by (simp add: page_Offset_def Normalize_def MaxPageSize_def)
qed

text \<open>
  \<open>Map\<close> keeps the metadata and the order: the result's list is the source list with the
  function applied to each element, whatever the zero value the slice is made with.
\<close>

theorem page_Map_map:
  "page_Map zero r fn = \<lparr>Total = Total r, Pages = Pages r, List = map fn (List r)\<rparr>"
  by (simp add: page_Map_def page_map_loop_map)

end
