(* ===== verification/Go_Strings.thy ===== *)
theory Go_Strings
  imports Go_Prelude "HOL-Library.Sublist"
begin

text \<open>
  The string functions of Go's standard library that the program calls. A Go string is a sequence
  of bytes, a HOL \<open>string\<close> a list of 8-bit characters, so lengths and slices agree.
  \<open>strings.TrimSpace\<close> is exact on all byte strings: Unicode white space is listed by its UTF-8
  encodings. \<open>strings.EqualFold\<close> is exact up to the first non-ASCII byte; from there on it is
  Unicode simple folding of the rest, a parameter (\<open>fold_rest\<close>).
\<close>

section \<open>Prefixes, indices, joins\<close>

definition HasPrefix :: "string \<Rightarrow> string \<Rightarrow> bool" where
  "HasPrefix s p \<longleftrightarrow> length p \<le> length s \<and> take (length p) s = p"

lemma HasPrefix_append [simp]: "HasPrefix (p @ s) p"
  by (simp add: HasPrefix_def)

lemma HasPrefix_iff: "HasPrefix s p \<longleftrightarrow> (\<exists>t. s = p @ t)"
  by (auto simp: HasPrefix_def) (metis append_take_drop_id)

text \<open>Index of the first occurrence of a byte; \<open>None\<close> is Go's \<open>-1\<close>.\<close>

fun IndexByte :: "string \<Rightarrow> char \<Rightarrow> nat option" where
  "IndexByte [] c = None"
| "IndexByte (x # xs) c = (if x = c then Some 0 else map_option Suc (IndexByte xs c))"

lemma IndexByte_None [simp]: "IndexByte s c = None \<longleftrightarrow> c \<notin> set s"
  by (induction s) auto

lemma IndexByte_Some:
  "IndexByte s c = Some i \<longleftrightarrow> i < length s \<and> s ! i = c \<and> c \<notin> set (take i s)"
proof (induction s arbitrary: i)
  case Nil
  then show ?case by simp
next
  case (Cons x xs)
  then show ?case by (cases i) auto
qed

lemma IndexByte_append [simp]: "c \<notin> set k \<Longrightarrow> IndexByte (k @ c # v) c = Some (length k)"
  by (simp add: IndexByte_Some)

fun strings_Join :: "string list \<Rightarrow> string \<Rightarrow> string" where
  "strings_Join [] sep = []"
| "strings_Join [x] sep = x"
| "strings_Join (x # y # ys) sep = x @ sep @ strings_Join (y # ys) sep"

text \<open>\<open>strings.Split(s, string(c))\<close> for a one-byte separator: always at least one piece.\<close>

fun strings_Split :: "string \<Rightarrow> char \<Rightarrow> string list" where
  "strings_Split [] c = [[]]"
| "strings_Split (x # xs) c =
     (if x = c then [] # strings_Split xs c
      else (case strings_Split xs c of [] \<Rightarrow> [[x]] | p # ps \<Rightarrow> (x # p) # ps))"

lemma strings_Split_nonempty [simp]: "strings_Split s c \<noteq> []"
  by (induction s) (auto split: list.splits)

lemma Split_Join: "strings_Join (strings_Split s c) [c] = s"
proof (induction s)
  case Nil
  then show ?case by simp
next
  case (Cons x xs)
  obtain p ps where ps: "strings_Split xs c = p # ps"
    by (cases "strings_Split xs c") auto
  with Cons show ?case by (cases ps) auto
qed

lemma strings_Split_pieces: "p \<in> set (strings_Split s c) \<Longrightarrow> c \<notin> set p"
  by (induction s arbitrary: p) (auto split: if_splits list.splits)

lemma strings_Split_atom [simp]: "c \<notin> set s \<Longrightarrow> strings_Split s c = [s]"
  by (induction s) auto

lemma strings_Split_append:
  "c \<notin> set p \<Longrightarrow> strings_Split (p @ c # s) c = p # strings_Split s c"
  by (induction p) auto

section \<open>Trimming\<close>

text \<open>\<open>strings.Trim(s, cutset)\<close> for an ASCII cut set.\<close>

definition strings_Trim :: "string \<Rightarrow> string \<Rightarrow> string" where
  "strings_Trim s cutset =
     rev (dropWhile (\<lambda>c. c \<in> set cutset) (rev (dropWhile (\<lambda>c. c \<in> set cutset) s)))"

text \<open>
  The UTF-8 encodings of the runes for which \<open>unicode.IsSpace\<close> holds: U+0009 to U+000D, U+0020,
  U+0085, U+00A0, U+1680, U+2000 to U+200A, U+2028, U+2029, U+202F, U+205F, U+3000.
\<close>

definition space_encodings :: "string list" where
  "space_encodings =
     map (\<lambda>b. [char_of b]) [0x09, 0x0A, 0x0B, 0x0C, 0x0D, 0x20 :: nat] @
     map (map char_of)
       ([[0xC2, 0x85], [0xC2, 0xA0], [0xE1, 0x9A, 0x80], [0xE2, 0x80, 0xA8], [0xE2, 0x80, 0xA9],
         [0xE2, 0x80, 0xAF], [0xE2, 0x81, 0x9F], [0xE3, 0x80, 0x80 :: nat]] @
        map (\<lambda>b. [0xE2, 0x80, b]) [0x80, 0x81, 0x82, 0x83, 0x84, 0x85, 0x86, 0x87, 0x88, 0x89, 0x8A])"

text \<open>Strip, again and again, a prefix that is one of the given non-empty pieces.\<close>

function strip_any :: "string list \<Rightarrow> string \<Rightarrow> string" where
  "strip_any es s =
     (case find (\<lambda>e. e \<noteq> [] \<and> HasPrefix s e) es of
        None \<Rightarrow> s
      | Some e \<Rightarrow> strip_any es (drop (length e) s))"
  by pat_completeness auto
termination
proof (relation "measure (\<lambda>(es, s). length s)", goal_cases)
  case 1
  show ?case by simp
next
  case (2 es s e)
  then show ?case
    by (cases s) (auto simp: find_Some_iff HasPrefix_def)
qed

declare strip_any.simps [simp del]

definition TrimSpace :: "string \<Rightarrow> string" where
  "TrimSpace s =
     (let s1 = strip_any space_encodings s
      in rev (strip_any (map rev space_encodings) (rev s1)))"

lemma strip_any_fixed:
  "find (\<lambda>e. e \<noteq> [] \<and> HasPrefix (strip_any es s) e) es = None"
proof (induction es s rule: strip_any.induct)
  case (1 es s)
  show ?case
  proof (cases "find (\<lambda>e. e \<noteq> [] \<and> HasPrefix s e) es")
    case None
    then show ?thesis by (simp add: strip_any.simps [of es s])
  next
    case (Some e)
    with "1.IH" show ?thesis by (simp add: strip_any.simps [of es s])
  qed
qed

lemma strip_any_id: "find (\<lambda>e. e \<noteq> [] \<and> HasPrefix s e) es = None \<Longrightarrow> strip_any es s = s"
  by (simp add: strip_any.simps)

lemma strip_any_suffix: "\<exists>p. s = p @ strip_any es s"
proof (induction es s rule: strip_any.induct)
  case (1 es s)
  show ?case
  proof (cases "find (\<lambda>e. e \<noteq> [] \<and> HasPrefix s e) es")
    case None
    then show ?thesis by (simp add: strip_any.simps [of es s])
  next
    case (Some e)
    then have s: "s = e @ drop (length e) s"
      by (auto simp: find_Some_iff HasPrefix_iff)
    from "1.IH" [OF Some] obtain p where "drop (length e) s = p @ strip_any es (drop (length e) s)"
      by blast
    with s Some have "s = (e @ p) @ strip_any es s"
      by (simp add: strip_any.simps [of es s])
    then show ?thesis by blast
  qed
qed

definition no_space_edges :: "string \<Rightarrow> bool" where
  "no_space_edges s \<longleftrightarrow>
     find (\<lambda>e. e \<noteq> [] \<and> HasPrefix s e) space_encodings = None \<and>
     find (\<lambda>e. e \<noteq> [] \<and> HasPrefix (rev s) e) (map rev space_encodings) = None"

text \<open>
  Trimming the end cannot uncover white space at the start: what is left is a prefix of a string
  that did not start with white space, or is empty.
\<close>

lemma HasPrefix_mono: "HasPrefix s e \<Longrightarrow> HasPrefix (s @ t) e"
  by (auto simp: HasPrefix_iff)

lemma TrimSpace_edges: "no_space_edges (TrimSpace s)"
proof -
  define s1 where "s1 = strip_any space_encodings s"
  define s2 where "s2 = strip_any (map rev space_encodings) (rev s1)"
  have t: "TrimSpace s = rev s2"
    by (simp add: TrimSpace_def s1_def s2_def)
  obtain p where "rev s1 = p @ s2"
    using strip_any_suffix [of "rev s1"] s2_def by blast
  then have s1: "s1 = rev s2 @ rev p"
    by (metis rev_append rev_rev_ident)
  have "find (\<lambda>e. e \<noteq> [] \<and> HasPrefix s1 e) space_encodings = None"
    unfolding s1_def by (rule strip_any_fixed)
  then have "find (\<lambda>e. e \<noteq> [] \<and> HasPrefix (rev s2) e) space_encodings = None"
    unfolding s1 by (auto simp: find_None_iff dest: HasPrefix_mono [where t = "rev p"])
  moreover have "find (\<lambda>e. e \<noteq> [] \<and> HasPrefix s2 e) (map rev space_encodings) = None"
    unfolding s2_def by (rule strip_any_fixed)
  ultimately show ?thesis
    by (simp add: no_space_edges_def t)
qed

lemma TrimSpace_id: "no_space_edges s \<Longrightarrow> TrimSpace s = s"
  by (simp add: no_space_edges_def TrimSpace_def strip_any_id)

lemma TrimSpace_idem [simp]: "TrimSpace (TrimSpace s) = TrimSpace s"
  by (rule TrimSpace_id [OF TrimSpace_edges])

lemma HasPrefix_Nil_iff [simp]: "HasPrefix [] e \<longleftrightarrow> e = []"
  by (auto simp: HasPrefix_def)

lemma TrimSpace_Nil [simp]: "TrimSpace [] = []"
  by (rule TrimSpace_id) (simp add: no_space_edges_def find_None_iff)

text \<open>A byte that occurs in no white space rune delimits trimming.\<close>

definition not_in_space :: "char \<Rightarrow> bool" where
  "not_in_space c \<longleftrightarrow> list_all (\<lambda>e. c \<notin> set e) space_encodings"

lemma HasPrefix_delimited: "HasPrefix (x @ c # y) e \<Longrightarrow> c \<notin> set e \<Longrightarrow> HasPrefix x e"
  by (auto simp: HasPrefix_iff append_eq_append_conv2 Cons_eq_append_conv)

lemma no_space_edges_append:
  assumes "not_in_space c" and "no_space_edges (x @ [c])" and "no_space_edges (c # y)"
  shows "no_space_edges (x @ c # y)"
proof -
  have free: "c \<notin> set e" if "e \<in> set space_encodings" for e
    using assms(1) that by (auto simp: not_in_space_def list_all_iff)
  have "\<not> (e \<noteq> [] \<and> HasPrefix (x @ c # y) e)" if e: "e \<in> set space_encodings" for e
  proof
    assume "e \<noteq> [] \<and> HasPrefix (x @ c # y) e"
    then have "HasPrefix (x @ [c]) e"
      using HasPrefix_delimited [OF _ free [OF e], of x y] HasPrefix_mono by blast
    with assms(2) e \<open>e \<noteq> [] \<and> _\<close> show False
      by (auto simp: no_space_edges_def find_None_iff)
  qed
  moreover have "\<not> (e \<noteq> [] \<and> HasPrefix (rev (x @ c # y)) e)" if e: "e \<in> set (map rev space_encodings)" for e
  proof
    assume pre: "e \<noteq> [] \<and> HasPrefix (rev (x @ c # y)) e"
    have "c \<notin> set e"
      using e free by auto
    then have "HasPrefix (rev (c # y)) e"
      using HasPrefix_delimited [of "rev y" c "rev x" e] HasPrefix_mono [of "rev y" e "[c]"] pre by auto
    with assms(3) e pre show False
      by (auto simp: no_space_edges_def find_None_iff)
  qed
  ultimately show ?thesis
    by (auto simp: no_space_edges_def find_None_iff)
qed

lemma no_space_edges_single:
  assumes "not_in_space c"
  shows "no_space_edges [c]"
  using assms
  by (auto simp: no_space_edges_def find_None_iff not_in_space_def list_all_iff HasPrefix_iff
      Cons_eq_append_conv)

lemma no_space_edges_snoc:
  assumes "not_in_space c" and "no_space_edges x"
  shows "no_space_edges (x @ [c])" "no_space_edges (c # x)"
proof -
  have free: "c \<notin> set e" if "e \<in> set space_encodings" for e
    using assms(1) that by (auto simp: not_in_space_def list_all_iff)
  have start: "HasPrefix x e" if "e \<in> set space_encodings" "HasPrefix (x @ [c]) e" for e
    using HasPrefix_delimited [of x c "[]" e] that free by simp
  have finish: "HasPrefix (rev x) (rev e)" if "e \<in> set space_encodings" "HasPrefix (rev x @ [c]) (rev e)" for e
    using HasPrefix_delimited [of "rev x" c "[]" "rev e"] that free by simp
  have no_head: "\<not> HasPrefix (c # y) e" if "e \<noteq> []" "c \<notin> set e" for y e
    using that by (cases e) (auto simp: HasPrefix_iff)
  have head: "e \<in> set space_encodings \<Longrightarrow> e \<noteq> [] \<Longrightarrow> \<not> HasPrefix (c # y) e"
    "e \<in> set space_encodings \<Longrightarrow> e \<noteq> [] \<Longrightarrow> \<not> HasPrefix (c # y) (rev e)" for e y
    using no_head free by simp_all
  show "no_space_edges (x @ [c])" "no_space_edges (c # x)"
    using assms(2) start finish head by (auto simp: no_space_edges_def find_None_iff)
qed

section \<open>Case folding\<close>

definition is_upper :: "char \<Rightarrow> bool" where
  "is_upper c \<longleftrightarrow> 65 \<le> (of_char c :: nat) \<and> (of_char c :: nat) \<le> 90"

definition is_lower :: "char \<Rightarrow> bool" where
  "is_lower c \<longleftrightarrow> 97 \<le> (of_char c :: nat) \<and> (of_char c :: nat) \<le> 122"

definition to_lower :: "char \<Rightarrow> char" where
  "to_lower c = (if is_upper c then char_of ((of_char c :: nat) + 32) else c)"

definition to_upper :: "char \<Rightarrow> char" where
  "to_upper c = (if is_lower c then char_of ((of_char c :: nat) - 32) else c)"

definition is_ascii :: "char \<Rightarrow> bool" where
  "is_ascii c \<longleftrightarrow> (of_char c :: nat) < 128"

lemma of_char_bound: "(of_char c :: nat) < 256"
  by (cases c) (simp add: of_char_def)

lemma of_char_char_of_small: "n < 256 \<Longrightarrow> (of_char (char_of n) :: nat) = n"
  by simp

lemma to_lower_cases:
  "(of_char (to_lower c) :: nat) = (if is_upper c then of_char c + 32 else of_char c)"
  by (auto simp: to_lower_def is_upper_def)

lemma to_upper_cases:
  "(of_char (to_upper c) :: nat) = (if is_lower c then of_char c - 32 else of_char c)"
  by (auto simp: to_upper_def is_lower_def)

lemma to_lower_idem [simp]: "to_lower (to_lower c) = to_lower c"
  by (auto simp: to_lower_def is_upper_def)

lemma to_upper_idem [simp]: "to_upper (to_upper c) = to_upper c"
  by (auto simp: to_upper_def is_lower_def)

lemma is_ascii_to_lower [simp]: "is_ascii (to_lower c) \<longleftrightarrow> is_ascii c"
  by (auto simp: to_lower_def is_ascii_def is_upper_def)

text \<open>\<open>strings.EqualFold\<close>: the ASCII loop, then the Unicode loop on what is left of both.\<close>

fun EqualFold :: "(string \<Rightarrow> string \<Rightarrow> bool) \<Rightarrow> string \<Rightarrow> string \<Rightarrow> bool" where
  "EqualFold fold_rest (x # xs) (y # ys) =
     (if \<not> is_ascii x \<or> \<not> is_ascii y then fold_rest (x # xs) (y # ys)
      else if to_lower x = to_lower y then EqualFold fold_rest xs ys
      else False)"
| "EqualFold fold_rest xs ys = (xs = [] \<and> ys = [])"

lemma EqualFold_ascii:
  assumes "list_all is_ascii s" and "list_all is_ascii t"
  shows "EqualFold fr s t \<longleftrightarrow> map to_lower s = map to_lower t"
  using assms by (induction fr s t rule: EqualFold.induct) auto

lemma EqualFold_ascii_left:
  assumes "list_all is_ascii s" and "map to_lower s = map to_lower t"
  shows "EqualFold fr s t"
proof -
  have "list_all is_ascii (map to_lower s) \<longleftrightarrow> list_all is_ascii (map to_lower t)"
    using assms(2) by simp
  then have "list_all is_ascii t"
    using assms(1) by (simp add: list_all_iff)
  with assms show ?thesis by (simp add: EqualFold_ascii)
qed

section \<open>Decimal numbers\<close>

fun digits_of :: "nat \<Rightarrow> string" where
  "digits_of n = (if n < 10 then [char_of (48 + n)] else digits_of (n div 10) @ [char_of (48 + n mod 10)])"

declare digits_of.simps [simp del]

text \<open>\<open>strconv.Itoa\<close>.\<close>

definition Itoa :: "int \<Rightarrow> string" where
  "Itoa i = (if i < 0 then CHR ''-'' # digits_of (nat (- i)) else digits_of (nat i))"

end
