(* ===== verification/Go_Errors.thy ===== *)
theory Go_Errors
  imports Go_Strings
begin

text \<open>
  Go errors. \<open>error\<close> is an open interface; the datatype has one constructor per dynamic type the
  program distinguishes or constructs, and the wrappers through which \<open>errors.Is\<close> and \<open>errors.As\<close>
  look:
  \<^item> \<open>Canceled\<close>, \<open>DeadlineExceeded\<close>: the two sentinels of package context;
  \<^item> \<open>NetTimeout\<close>, \<open>NetCanceled\<close>: \<open>net.errTimeout\<close> and \<open>net.errCanceled\<close>, what package net
    reports for them, whose \<open>Is\<close> methods answer for the context sentinels;
  \<^item> \<open>NetErr\<close>: any other \<open>net.Error\<close>, with the answer of its \<open>Timeout\<close> method;
  \<^item> \<open>OpError\<close>, \<open>URLError\<close>: \<open>*net.OpError\<close> and \<open>*url.Error\<close>, which wrap a cause;
  \<^item> \<open>KErr\<close>: \<open>*errors.Error\<close> of kratos with code, reason, message and optional cause;
  \<^item> \<open>ErrorString\<close>: \<open>errors.New\<close>; \<open>WrapError\<close>: \<open>fmt.Errorf("...%w", err)\<close>.
  A nil error is \<open>None\<close> of \<open>error option\<close>.
\<close>

section \<open>Errors and their chains\<close>

datatype error =
    Canceled
  | DeadlineExceeded
  | NetTimeout
  | NetCanceled
  | NetErr bool string
  | OpError string error
  | URLError string error
  | KErr int string string "error option"
  | ErrorString string
  | WrapError string error

fun errors_Unwrap :: "error \<Rightarrow> error option" where
  "errors_Unwrap (OpError _ e) = Some e"
| "errors_Unwrap (URLError _ e) = Some e"
| "errors_Unwrap (KErr _ _ _ c) = c"
| "errors_Unwrap (WrapError _ e) = Some e"
| "errors_Unwrap _ = None"

text \<open>The error itself followed by everything it unwraps to.\<close>

lemma size_Unwrap: "errors_Unwrap e = Some e' \<Longrightarrow> size e' < size e"
  by (cases e) auto

function error_chain :: "error \<Rightarrow> error list" where
  "error_chain e = e # (case errors_Unwrap e of None \<Rightarrow> [] | Some e' \<Rightarrow> error_chain e')"
  by pat_completeness auto
termination
  by (relation "measure size") (auto dest: size_Unwrap)

declare error_chain.simps [simp del]

lemma error_chain_self [simp]: "e \<in> set (error_chain e)"
  by (subst error_chain.simps) simp

lemma error_chain_simps [simp]:
  "error_chain Canceled = [Canceled]"
  "error_chain DeadlineExceeded = [DeadlineExceeded]"
  "error_chain NetTimeout = [NetTimeout]"
  "error_chain NetCanceled = [NetCanceled]"
  "error_chain (NetErr b m) = [NetErr b m]"
  "error_chain (OpError m e) = OpError m e # error_chain e"
  "error_chain (URLError m e) = URLError m e # error_chain e"
  "error_chain (KErr c r m None) = [KErr c r m None]"
  "error_chain (KErr c r m (Some e)) = KErr c r m (Some e) # error_chain e"
  "error_chain (ErrorString m) = [ErrorString m]"
  "error_chain (WrapError m e) = WrapError m e # error_chain e"
  by (subst error_chain.simps, simp)+

section \<open>errors.Is and errors.As\<close>

text \<open>The \<open>Is\<close> methods of the modelled types, for the targets the program asks about.\<close>

fun is_method :: "error \<Rightarrow> error \<Rightarrow> bool" where
  "is_method NetTimeout t \<longleftrightarrow> t = DeadlineExceeded"
| "is_method NetCanceled t \<longleftrightarrow> t = Canceled"
| "is_method _ t \<longleftrightarrow> False"

definition errors_Is :: "error \<Rightarrow> error \<Rightarrow> bool" where
  "errors_Is e t \<longleftrightarrow> list_ex (\<lambda>x. x = t \<or> is_method x t) (error_chain e)"

fun Timeout_method :: "error \<Rightarrow> bool" where
  "Timeout_method DeadlineExceeded \<longleftrightarrow> True"
| "Timeout_method NetTimeout \<longleftrightarrow> True"
| "Timeout_method (NetErr b _) \<longleftrightarrow> b"
| "Timeout_method (OpError _ e) \<longleftrightarrow> Timeout_method e"
| "Timeout_method (URLError _ e) \<longleftrightarrow> Timeout_method e"
| "Timeout_method _ \<longleftrightarrow> False"

fun is_net_error :: "error \<Rightarrow> bool" where
  "is_net_error DeadlineExceeded \<longleftrightarrow> True"
| "is_net_error NetTimeout \<longleftrightarrow> True"
| "is_net_error (NetErr _ _) \<longleftrightarrow> True"
| "is_net_error (OpError _ _) \<longleftrightarrow> True"
| "is_net_error (URLError _ _) \<longleftrightarrow> True"
| "is_net_error _ \<longleftrightarrow> False"

fun is_op_error :: "error \<Rightarrow> bool" where
  "is_op_error (OpError _ _) \<longleftrightarrow> True"
| "is_op_error _ \<longleftrightarrow> False"

fun is_kerr :: "error \<Rightarrow> bool" where
  "is_kerr (KErr _ _ _ _) \<longleftrightarrow> True"
| "is_kerr _ \<longleftrightarrow> False"

definition As_net_Error :: "error \<Rightarrow> error option" where
  "As_net_Error e = find is_net_error (error_chain e)"

definition As_OpError :: "error \<Rightarrow> error option" where
  "As_OpError e = find is_op_error (error_chain e)"

text \<open>\<open>errors.As(err, &k)\<close> for a kratos error: code and reason of the first one in the chain.\<close>

fun kerr_fields :: "error \<Rightarrow> (int \<times> string) option" where
  "kerr_fields (KErr c r _ _) = Some (c, r)"
| "kerr_fields _ = None"

definition As_KErr :: "error \<Rightarrow> (int \<times> string) option" where
  "As_KErr e = Option.bind (find is_kerr (error_chain e)) kerr_fields"

lemma As_KErr_KErr [simp]: "As_KErr (KErr c r m d) = Some (c, r)"
  by (cases d) (simp_all add: As_KErr_def)

lemma As_KErr_simps [simp]:
  "As_KErr Canceled = None"
  "As_KErr DeadlineExceeded = None"
  "As_KErr NetTimeout = None"
  "As_KErr NetCanceled = None"
  "As_KErr (NetErr b m) = None"
  "As_KErr (ErrorString m) = None"
  "As_KErr (WrapError m e) = As_KErr e"
  "As_KErr (OpError m e) = As_KErr e"
  "As_KErr (URLError m e) = As_KErr e"
  by (simp_all add: As_KErr_def)

end
