(* ===== verification/Go_Http.thy ===== *)
theory Go_Http
  imports Go_Strings
begin

text \<open>
  What the program uses of net/http: header maps with canonical keys (\<open>Header.Get\<close>, \<open>Set\<close>,
  \<open>Add\<close>, \<open>http.CanonicalHeaderKey\<close>) and the response writer, whose first \<open>WriteHeader\<close> freezes
  the status and the headers sent. The locale \<open>carrier\<close> is the contract of a header carrier: what
  \<open>Get\<close> returns after \<open>Set\<close>, with the keys compared the way the carrier compares them.
\<close>

section \<open>Header carriers\<close>

locale carrier =
  fixes get :: "'h \<Rightarrow> string \<Rightarrow> string"
    and set_key :: "'h \<Rightarrow> string \<Rightarrow> string \<Rightarrow> 'h"
    and norm :: "string \<Rightarrow> string"
  assumes get_set: "get (set_key h k v) k' = (if norm k = norm k' then v else get h k')"
begin

lemma get_set_same: "get (set_key h k v) k = v"
  by (simp add: get_set)

lemma get_set_other: "norm k \<noteq> norm k' \<Longrightarrow> get (set_key h k v) k' = get h k'"
  by (simp add: get_set)

text \<open>Last write wins: a run of \<open>Set\<close> calls, read back at any key.\<close>

lemma get_fold_set:
  "get (fold (\<lambda>(k, v) h. set_key h k v) kvs h) k' =
     (case find (\<lambda>(k, v). norm k = norm k') (rev kvs) of None \<Rightarrow> get h k' | Some (k, v) \<Rightarrow> v)"
proof (induction kvs rule: rev_induct)
  case Nil
  then show ?case by simp
next
  case (snoc kv kvs)
  obtain k v where kv: "kv = (k, v)"
    by (cases kv)
  from snoc show ?case by (simp add: kv get_set)
qed

end

section \<open>Canonical header keys\<close>

definition validHeaderFieldByte :: "char \<Rightarrow> bool" where
  "validHeaderFieldByte c \<longleftrightarrow>
     is_upper c \<or> is_lower c \<or> (48 \<le> (of_char c :: nat) \<and> (of_char c :: nat) \<le> 57) \<or>
     (of_char c :: nat) \<in> set [33, 35, 36, 37, 38, 39, 42, 43, 45, 46, 94, 95, 96, 124, 126]"

fun canon_from :: "bool \<Rightarrow> string \<Rightarrow> string" where
  "canon_from up [] = []"
| "canon_from up (c # cs) =
     (let c' = (if up then to_upper c else to_lower c) in c' # canon_from (c' = CHR ''-'') cs)"

definition CanonicalHeaderKey :: "string \<Rightarrow> string" where
  "CanonicalHeaderKey s = (if list_all validHeaderFieldByte s then canon_from True s else s)"

lemma to_lower_to_upper [simp]: "to_lower (to_upper c) = to_lower c"
proof (cases "is_lower c")
  case True
  then have c: "97 \<le> (of_char c :: nat)" "(of_char c :: nat) \<le> 122"
    by (simp_all add: is_lower_def)
  have "(of_char (to_lower (to_upper c)) :: nat) = of_char c"
    using c True unfolding to_lower_cases to_upper_cases is_upper_def by auto
  moreover have "(of_char (to_lower c) :: nat) = of_char c"
    using c by (simp add: to_lower_cases is_upper_def)
  ultimately show ?thesis by (metis of_char_eq_iff)
next
  case False
  then show ?thesis by (simp add: to_upper_def)
qed

lemma to_upper_to_lower [simp]: "to_upper (to_lower c) = to_upper c"
proof (cases "is_upper c")
  case True
  then have c: "65 \<le> (of_char c :: nat)" "(of_char c :: nat) \<le> 90"
    by (simp_all add: is_upper_def)
  have "(of_char (to_upper (to_lower c)) :: nat) = of_char c"
    using c True unfolding to_lower_cases to_upper_cases is_lower_def by auto
  moreover have "(of_char (to_upper c) :: nat) = of_char c"
    using c by (simp add: to_upper_cases is_lower_def)
  ultimately show ?thesis by (metis of_char_eq_iff)
next
  case False
  then show ?thesis by (simp add: to_lower_def)
qed

lemma to_lower_eq_iff_to_upper_eq: "to_lower c = to_lower d \<longleftrightarrow> to_upper c = to_upper d"
  by (metis to_lower_to_upper to_upper_to_lower)

lemma valid_to_lower [simp]: "validHeaderFieldByte (to_lower c) \<longleftrightarrow> validHeaderFieldByte c"
  by (cases "is_upper c")
     (auto simp: validHeaderFieldByte_def to_lower_cases is_upper_def is_lower_def to_lower_def)

lemma valid_to_upper [simp]: "validHeaderFieldByte (to_upper c) \<longleftrightarrow> validHeaderFieldByte c"
  by (metis to_lower_to_upper valid_to_lower)

lemma dash_case [simp]:
  "to_lower c = CHR ''-'' \<longleftrightarrow> c = CHR ''-''" "to_upper c = CHR ''-'' \<longleftrightarrow> c = CHR ''-''"
proof -
  have dash: "to_lower CHR ''-'' = CHR ''-''" "to_upper CHR ''-'' = CHR ''-''"
    by (simp_all add: to_lower_def is_upper_def to_upper_def is_lower_def)
  have up: "(of_char (to_lower c) :: nat) = 45 \<Longrightarrow> (of_char c :: nat) = 45"
    "(of_char (to_upper c) :: nat) = 45 \<Longrightarrow> (of_char c :: nat) = 45"
    by (auto simp: to_lower_cases to_upper_cases is_upper_def is_lower_def split: if_splits)
  have d: "(of_char CHR ''-'' :: nat) = 45" by simp
  show "to_lower c = CHR ''-'' \<longleftrightarrow> c = CHR ''-''"
    using up(1) d dash(1) by (metis of_char_eq_iff)
  show "to_upper c = CHR ''-'' \<longleftrightarrow> c = CHR ''-''"
    using up(2) d dash(2) by (metis of_char_eq_iff)
qed

lemma map_lower_canon_from: "map to_lower (canon_from up s) = map to_lower s"
  by (induction up s rule: canon_from.induct) (simp_all add: Let_def)

lemma canon_from_cong:
  "map to_lower s = map to_lower t \<Longrightarrow> canon_from up s = canon_from up t"
proof (induction up s arbitrary: t rule: canon_from.induct)
  case (1 up)
  then show ?case by simp
next
  case (2 up c cs)
  then obtain d ds where t: "t = d # ds" and hd: "to_lower c = to_lower d"
    and tl: "map to_lower cs = map to_lower ds"
    by (cases t) auto
  then have "to_upper c = to_upper d"
    by (simp add: to_lower_eq_iff_to_upper_eq)
  with 2 t hd tl show ?case by (simp add: Let_def)
qed

lemma list_all_valid_lower:
  "list_all validHeaderFieldByte (map to_lower s) \<longleftrightarrow> list_all validHeaderFieldByte s"
  by (simp add: list_all_iff)

lemma valid_canon_from:
  "list_all validHeaderFieldByte (canon_from up s) \<longleftrightarrow> list_all validHeaderFieldByte s"
  by (metis list_all_valid_lower map_lower_canon_from)

lemma CanonicalHeaderKey_idem [simp]:
  "CanonicalHeaderKey (CanonicalHeaderKey s) = CanonicalHeaderKey s"
  by (auto simp: CanonicalHeaderKey_def valid_canon_from
      intro: canon_from_cong [OF map_lower_canon_from])

text \<open>On header names, canonical equality is ASCII case-insensitive equality.\<close>

lemma CanonicalHeaderKey_eq_iff:
  assumes "list_all validHeaderFieldByte t"
  shows "CanonicalHeaderKey s = CanonicalHeaderKey t \<longleftrightarrow> map to_lower s = map to_lower t"
proof
  assume eq: "CanonicalHeaderKey s = CanonicalHeaderKey t"
  have low: "map to_lower (CanonicalHeaderKey x) = map to_lower x" for x
    by (simp add: CanonicalHeaderKey_def map_lower_canon_from)
  show "map to_lower s = map to_lower t"
    using arg_cong [OF eq, of "map to_lower"] unfolding low .
next
  assume eq: "map to_lower s = map to_lower t"
  have "list_all validHeaderFieldByte s"
    using assms list_all_valid_lower [of s] list_all_valid_lower [of t] unfolding eq by blast
  with assms show "CanonicalHeaderKey s = CanonicalHeaderKey t"
    using canon_from_cong [OF eq] by (simp add: CanonicalHeaderKey_def)
qed

section \<open>http.Header\<close>

type_synonym http_header = "string \<Rightarrow> string list option"

definition header_Get :: "http_header \<Rightarrow> string \<Rightarrow> string" where
  "header_Get h k = (case h (CanonicalHeaderKey k) of Some (v # _) \<Rightarrow> v | _ \<Rightarrow> [])"

definition header_Set :: "http_header \<Rightarrow> string \<Rightarrow> string \<Rightarrow> http_header" where
  "header_Set h k v = h(CanonicalHeaderKey k \<mapsto> [v])"

definition header_Add :: "http_header \<Rightarrow> string \<Rightarrow> string \<Rightarrow> http_header" where
  "header_Add h k v =
     h(CanonicalHeaderKey k \<mapsto> (case h (CanonicalHeaderKey k) of None \<Rightarrow> [] | Some vs \<Rightarrow> vs) @ [v])"

interpretation http: carrier header_Get header_Set CanonicalHeaderKey
  by unfold_locales (simp add: header_Get_def header_Set_def)

section \<open>Response writers\<close>

text \<open>
  \<open>rw_sent\<close> holds status and headers once \<open>WriteHeader\<close> has run; later header changes and later
  \<open>WriteHeader\<close> calls have no effect on it. \<open>Write\<close> sends status 200 first when none was sent.
\<close>

record response =
  rw_header :: http_header
  rw_sent :: "(nat \<times> http_header) option"
  rw_body :: string

definition new_response :: response where
  "new_response = \<lparr>rw_header = Map.empty, rw_sent = None, rw_body = []\<rparr>"

definition rw_WriteHeader :: "nat \<Rightarrow> response \<Rightarrow> response" where
  "rw_WriteHeader code r =
     (case rw_sent r of None \<Rightarrow> r\<lparr>rw_sent := Some (code, rw_header r)\<rparr> | Some _ \<Rightarrow> r)"

definition rw_Write :: "string \<Rightarrow> response \<Rightarrow> response" where
  "rw_Write b r = (let r' = rw_WriteHeader 200 r in r'\<lparr>rw_body := rw_body r' @ b\<rparr>)"

definition rw_set_header :: "string \<Rightarrow> string \<Rightarrow> response \<Rightarrow> response" where
  "rw_set_header k v r = r\<lparr>rw_header := header_Set (rw_header r) k v\<rparr>"

definition rw_add_header :: "string \<Rightarrow> string \<Rightarrow> response \<Rightarrow> response" where
  "rw_add_header k v r = r\<lparr>rw_header := header_Add (rw_header r) k v\<rparr>"

end
