(* ===== verification/Kratos.thy ===== *)
theory Kratos
  imports Go_Errors Go_Http
begin

text \<open>
  The run-time the middlewares live in: contexts, transports, the world, handlers, middlewares.
  kratos, Prometheus, OpenTelemetry and x/time/rate are not part of the repository. What the
  program reads from them is a field of a context or transport, or a parameter; what it tells them
  (set a header, bump a counter, write a log line) is an \<open>event\<close> appended to the world's trace, so
  a theorem speaks about the calls the program makes and never about their implementation.

  Two locales are the contracts middlewares are used by. An \<open>observer_mw\<close> calls the wrapped
  handler exactly once and returns its result unchanged; a \<open>gate_mw\<close> either rejects a request
  without calling the handler or passes it on. Both contracts are closed under composition.
\<close>

section \<open>Events\<close>

datatype log_level = LevelDebug | LevelInfo | LevelWarn | LevelError | LevelFatal

fun level_rank :: "log_level \<Rightarrow> nat" where
  "level_rank LevelDebug = 0"
| "level_rank LevelInfo = 1"
| "level_rank LevelWarn = 2"
| "level_rank LevelError = 3"
| "level_rank LevelFatal = 4"

lemma level_rank_inject: "level_rank a = level_rank b \<longleftrightarrow> a = b"
  by (cases a; cases b) simp_all

text \<open>Levels are ordered by severity.\<close>

instantiation log_level :: linorder
begin

definition less_eq_log_level :: "log_level \<Rightarrow> log_level \<Rightarrow> bool" where
  "less_eq_log_level a b \<longleftrightarrow> level_rank a \<le> level_rank b"

definition less_log_level :: "log_level \<Rightarrow> log_level \<Rightarrow> bool" where
  "less_log_level a b \<longleftrightarrow> level_rank a < level_rank b"

instance
  by standard (auto simp: less_eq_log_level_def less_log_level_def level_rank_inject)

end

text \<open>A Go value of type \<open>any\<close>; \<open>VOther n\<close> is a value of any other type, known by a name.\<close>

datatype gval = VNil | VStr string | VInt int | VBool bool | VOther nat

datatype event =
    ReplyHeaderSet nat string string      \<comment> \<open>\<open>tr.ReplyHeader().Set(k, v)\<close> on transport \<open>nat\<close>\<close>
  | RequestHeaderSet nat string string    \<comment> \<open>\<open>tr.RequestHeader().Set(k, v)\<close>\<close>
  | CounterInc string "string list"       \<comment> \<open>\<open>counter.WithLabelValues(ls...).Inc()\<close>\<close>
  | HistObserve string "string list" int  \<comment> \<open>\<open>histogram.WithLabelValues(ls...).Observe(ns)\<close>\<close>
  | Logw log_level "(string \<times> gval) list" \<comment> \<open>\<open>helper.Infow(kvs...)\<close> and its kin\<close>
  | ErrorEncoded nat error                \<comment> \<open>\<open>khttp.DefaultErrorEncoder(w, r, err)\<close>\<close>

section \<open>Contexts and transports\<close>

text \<open>
  \<open>tr_request\<close> answers \<open>tr.RequestHeader().Get\<close>. A context carries the values the program stores
  in it or reads from it; \<open>cid\<close> names its cancellation state, which changes over time and so lives
  in the world.
\<close>

record transporter =
  tr_id :: nat
  tr_kind :: string
  tr_operation :: string
  tr_request :: "string \<Rightarrow> string"

record claims =
  Subject :: string
  Scopes :: "string list"
  Raw :: "(string \<times> gval) list"

record ctx =
  cid :: nat
  server_tr :: "transporter option"
  client_tr :: "transporter option"
  otel_trace_id :: "string option"
  logid_key :: "string option"
  auth_key :: "claims option"
  peer_addr :: "string option option"

definition Background :: ctx where
  "Background = \<lparr>cid = 0, server_tr = None, client_tr = None, otel_trace_id = None,
     logid_key = None, auth_key = None, peer_addr = None\<rparr>"

definition server_kind :: "ctx \<Rightarrow> string" where
  "server_kind c = (case server_tr c of None \<Rightarrow> [] | Some tr \<Rightarrow> tr_kind tr)"

definition server_op :: "ctx \<Rightarrow> string" where
  "server_op c = (case server_tr c of None \<Rightarrow> [] | Some tr \<Rightarrow> tr_operation tr)"

section \<open>The world\<close>

record 'l bucket =
  limiters :: "string \<Rightarrow> 'l option"
  rps :: int
  burst :: int

record 'l world =
  clock :: int
  ctx_errs :: "nat \<Rightarrow> error option"
  deadlines :: "nat \<Rightarrow> int option"
  trace :: "event list"
  rands :: "nat \<Rightarrow> nat"
  rand_pos :: nat
  buckets :: "nat \<Rightarrow> 'l bucket"
  writers :: "nat \<Rightarrow> response"
  flags :: "nat \<Rightarrow> bool"

definition ctx_Err :: "ctx \<Rightarrow> 'l world \<Rightarrow> error option" where
  "ctx_Err c w = ctx_errs w (cid c)"

definition emit :: "event \<Rightarrow> ('l world, unit) io" where
  "emit e = io_mod (\<lambda>w. w\<lparr>trace := trace w @ [e]\<rparr>)"

lemma emit_apply [io_simps]: "emit e w = (Ok (), w\<lparr>trace := trace w @ [e]\<rparr>)"
  by (simp add: emit_def io_simps)

lemma io_bind_emit [io_simps]: "io_bind (emit e) f = (\<lambda>w. f () (w\<lparr>trace := trace w @ [e]\<rparr>))"
  by (simp add: emit_def io_simps)

lemma io_total_emit [intro!, simp]: "io_total (emit e)"
  by (simp add: emit_def)

text \<open>
  \<open>context.WithTimeout\<close>: a context with the same values and a cancellation state of its own, at the
  unused name \<open>fresh\<close>; it starts in the state of its parent and has the earlier of the two deadlines.
  That it ends at its deadline, or with its parent, is what the environment does. \<open>cancel()\<close> has no
  effect on a context that is done.
\<close>

definition cancel_ctx :: "error option \<Rightarrow> error option" where
  "cancel_ctx e = (case e of None \<Rightarrow> Some Canceled | Some e' \<Rightarrow> Some e')"

lemma cancel_ctx_done [simp]: "cancel_ctx e \<noteq> None"
  by (simp add: cancel_ctx_def split: option.splits)

definition earlier :: "int option \<Rightarrow> int \<Rightarrow> int" where
  "earlier d t = (case d of None \<Rightarrow> t | Some t' \<Rightarrow> min t' t)"

definition ctx_start :: "nat \<Rightarrow> duration \<Rightarrow> ctx \<Rightarrow> 'l world \<Rightarrow> 'l world" where
  "ctx_start fresh d c w =
     w\<lparr>ctx_errs := (ctx_errs w)(fresh := ctx_Err c w),
       deadlines := (deadlines w)(fresh \<mapsto> earlier (deadlines w (cid c)) (clock w + sint d))\<rparr>"

definition ctx_stop :: "ctx \<Rightarrow> 'l world \<Rightarrow> 'l world" where
  "ctx_stop c w = w\<lparr>ctx_errs := (ctx_errs w)(cid c := cancel_ctx (ctx_Err c w))\<rparr>"

definition ctx_WithTimeout :: "nat \<Rightarrow> duration \<Rightarrow> ctx \<Rightarrow> ('l world, ctx) io" where
  "ctx_WithTimeout fresh d c = io_then (io_mod (ctx_start fresh d c)) (io_ret (c\<lparr>cid := fresh\<rparr>))"

definition ctx_cancel :: "ctx \<Rightarrow> ('l world, unit) io" where
  "ctx_cancel c = io_mod (ctx_stop c)"

lemma ctx_start_fields [simp]:
  "clock (ctx_start n d c w) = clock w" "trace (ctx_start n d c w) = trace w"
  "buckets (ctx_start n d c w) = buckets w" "writers (ctx_start n d c w) = writers w"
  "flags (ctx_start n d c w) = flags w"
  by (simp_all add: ctx_start_def)

lemma ctx_stop_fields [simp]:
  "clock (ctx_stop c w) = clock w" "trace (ctx_stop c w) = trace w"
  "buckets (ctx_stop c w) = buckets w" "writers (ctx_stop c w) = writers w"
  "flags (ctx_stop c w) = flags w"
  by (simp_all add: ctx_stop_def)

lemma ctx_stop_done [simp]: "\<exists>e. ctx_Err c (ctx_stop c w) = Some e"
  by (simp add: ctx_Err_def ctx_stop_def cancel_ctx_def split: option.split)

lemma ctx_WithTimeout_bind [io_simps]:
  "io_bind (ctx_WithTimeout n d c) f = (\<lambda>w. f (c\<lparr>cid := n\<rparr>) (ctx_start n d c w))"
  by (simp add: ctx_WithTimeout_def io_then_def io_bind_def io_mod_def io_ret_def)

lemma ctx_cancel_bind [io_simps]: "io_bind (ctx_cancel c) f = (\<lambda>w. f () (ctx_stop c w))"
  by (simp add: ctx_cancel_def io_simps)

text \<open>
  How a \<open>select\<close> between a timer of the given duration and \<open>ctx.Done()\<close> ends is decided by the
  environment: \<open>sel cid d w\<close> is the branch taken (\<open>True\<close>: the timer) and the world at that moment.
  Package time documents that a timer fires after at least its duration; the other branch is taken
  only when the context has ended.
\<close>

type_synonym 'l timer_select = "nat \<Rightarrow> int \<Rightarrow> 'l world \<Rightarrow> bool \<times> 'l world"

definition timer_law :: "'l timer_select \<Rightarrow> bool" where
  "timer_law sel \<longleftrightarrow> (\<forall>n d w fired w'. sel n d w = (fired, w') \<longrightarrow>
     (if fired then clock w + d \<le> clock w' else ctx_errs w' n \<noteq> None))"

text \<open>A world in which nothing has happened yet.\<close>

definition demo_world :: "'l world" where
  "demo_world = \<lparr>clock = 0, ctx_errs = (\<lambda>_. None), deadlines = (\<lambda>_. None), trace = [], rands = (\<lambda>n. n), rand_pos = 0,
     buckets = (\<lambda>_. \<lparr>limiters = Map.empty, rps = 0, burst = 0\<rparr>), writers = (\<lambda>_. new_response),
     flags = (\<lambda>_. False)\<rparr>"

section \<open>Handlers and middlewares\<close>

type_synonym 'r gores = "'r option \<times> error option"
type_synonym ('l, 'q, 'r) handler = "ctx \<Rightarrow> 'q \<Rightarrow> ('l world, 'r gores) io"
type_synonym ('l, 'q, 'r) middleware = "('l, 'q, 'r) handler \<Rightarrow> ('l, 'q, 'r) handler"

text \<open>
  \<open>middleware.Chain\<close> of kratos is a parameter; docs/middleware.md documents it: composition is
  outer-first.
\<close>

definition outer_first ::
  "(('l, 'q, 'r) middleware list \<Rightarrow> ('l, 'q, 'r) middleware) \<Rightarrow> bool" where
  "outer_first chain \<longleftrightarrow> (\<forall>ms h. chain ms h = foldr (\<lambda>m h'. m h') ms h)"

text \<open>
  Plain \<open>net/http\<close>: a request with its headers and context, a handler that writes to the response
  writer at an address, and \<open>khttp.FilterFunc\<close>, a function on handlers.
\<close>

record http_request =
  r_method :: string
  r_path :: string
  r_header :: http_header
  r_ctx :: ctx

type_synonym 'l http_handler = "nat \<Rightarrow> http_request \<Rightarrow> ('l world, unit) io"
type_synonym 'l http_filter = "'l http_handler \<Rightarrow> 'l http_handler"

definition with_writer :: "nat \<Rightarrow> (response \<Rightarrow> response) \<Rightarrow> ('l world, unit) io" where
  "with_writer n f = io_mod (\<lambda>w. w\<lparr>writers := (writers w)(n := f (writers w n))\<rparr>)"

lemma io_total_with_writer [intro!, simp]: "io_total (with_writer n f)"
  by (simp add: with_writer_def)

lemma with_writer_apply [io_simps]:
  "with_writer n f w = (Ok (), w\<lparr>writers := (writers w)(n := f (writers w n))\<rparr>)"
  by (simp add: with_writer_def io_simps)

lemma with_writer_bind:
  "io_bind (with_writer n f) k w = k () (w\<lparr>writers := (writers w)(n := f (writers w n))\<rparr>)"
  by (simp add: with_writer_def io_simps)

section \<open>Observers\<close>

locale observer_mw =
  fixes mw :: "('l, 'q, 'r) middleware"
    and enter :: "ctx \<Rightarrow> ('l world, ctx \<times> 's) io"
    and leave :: "'s \<Rightarrow> ctx \<Rightarrow> 'r gores \<Rightarrow> ('l world, unit) io"
  assumes observer: "mw h c q =
      io_bind (enter c) (\<lambda>(c', s). io_bind (h c' q) (\<lambda>r. io_bind (leave s c' r) (\<lambda>_. io_ret r)))"
    and enter_total: "io_total (enter c)"
    and leave_total: "io_total (leave s c r)"
begin

lemma leave_ok: "\<exists>w'. leave s c r w = (Ok (), w')"
  using leave_total [of s c r] by (auto simp: io_total_def)

text \<open>Whatever the handler does (return, panic, crash), the caller sees exactly that.\<close>

lemma outcome_kept:
  assumes "enter c w = (Ok (c', s), w1)"
  shows "fst (mw h c q w) = fst (h c' q w1)"
proof -
  obtain out w2 where h: "h c' q w1 = (out, w2)"
    by (cases "h c' q w1")
  show ?thesis
  proof (cases out)
    case (Ok r)
    obtain w3 where "leave s c' r w2 = (Ok (), w3)"
      using leave_ok by blast
    with h Ok assms show ?thesis
      by (simp add: observer io_bind_def io_ret_def)
  qed (use h assms in \<open>simp_all add: observer io_bind_def\<close>)
qed

text \<open>A panic skips everything after the handler: nothing is recorded for it.\<close>

lemma panic_unobserved:
  assumes "enter c w = (Ok (c', s), w1)" and "h c' q w1 = (Panic v, w2)"
  shows "mw h c q w = (Panic v, w2)"
  using assms by (simp add: observer io_bind_def)

lemma crash_unobserved:
  assumes "enter c w = (Ok (c', s), w1)" and "h c' q w1 = (Crash v, w2)"
  shows "mw h c q w = (Crash v, w2)"
  using assms by (simp add: observer io_bind_def)

lemma return_observed:
  assumes "enter c w = (Ok (c', s), w1)" and "h c' q w1 = (Ok r, w2)"
    and "leave s c' r w2 = (Ok (), w3)"
  shows "mw h c q w = (Ok r, w3)"
  using assms by (simp add: observer io_bind_def io_ret_def)

end

text \<open>An observer around an observer: the inner one reports first.\<close>

locale observer_pair = outer: observer_mw mw1 enter1 leave1 + inner: observer_mw mw2 enter2 leave2
  for mw1 :: "('l, 'q, 'r) middleware" and enter1 :: "ctx \<Rightarrow> ('l world, ctx \<times> 's) io" and leave1
    and mw2 :: "('l, 'q, 'r) middleware" and enter2 :: "ctx \<Rightarrow> ('l world, ctx \<times> 't) io" and leave2

sublocale observer_pair \<subseteq> both: observer_mw
  "\<lambda>h. mw1 (mw2 h)"
  "\<lambda>c. io_bind (enter1 c) (\<lambda>(c1, s1). io_bind (enter2 c1) (\<lambda>(c2, s2). io_ret (c2, (c1, s1, s2))))"
  "\<lambda>(c1, s1, s2) c r. io_bind (leave2 s2 c r) (\<lambda>_. leave1 s1 c1 r)"
proof unfold_locales
  fix h c q
  show "mw1 (mw2 h) c q =
     io_bind (io_bind (enter1 c) (\<lambda>(c1, s1). io_bind (enter2 c1) (\<lambda>(c2, s2).
         io_ret (c2, (c1, s1, s2)))))
       (\<lambda>(c', s). io_bind (h c' q) (\<lambda>r. io_bind ((\<lambda>(c1, s1, s2) c r.
         io_bind (leave2 s2 c r) (\<lambda>_. leave1 s1 c1 r)) s c' r) (\<lambda>_. io_ret r)))"
    unfolding outer.observer inner.observer
    by (simp add: io_simps case_prod_unfold)
qed (auto intro!: io_total_bind simp: outer.enter_total inner.enter_total outer.leave_total
      inner.leave_total split: prod.splits)

section \<open>Gates\<close>

locale gate_mw =
  fixes mw :: "('l, 'q, 'r) middleware"
    and decide :: "ctx \<Rightarrow> ('l world, error + ctx) io"
  assumes gate: "mw h c q =
      io_bind (decide c) (\<lambda>d. case d of Inl e \<Rightarrow> io_ret (None, Some e) | Inr c' \<Rightarrow> h c' q)"
begin

text \<open>A rejected request never reaches the handler: the outcome is the same for every handler.\<close>

lemma rejected:
  assumes "decide c w = (Ok (Inl e), w')"
  shows "mw h c q w = (Ok (None, Some e), w')"
  using assms by (simp add: gate io_bind_def io_ret_def)

lemma admitted:
  assumes "decide c w = (Ok (Inr c'), w')"
  shows "mw h c q w = h c' q w'"
  using assms by (simp add: gate io_bind_def)

lemma reaches_handler:
  assumes "mw h1 c q w \<noteq> mw h2 c q w"
  shows "\<exists>c' w'. decide c w = (Ok (Inr c'), w')"
proof (cases "decide c w")
  case (Pair out w')
  with assms show ?thesis
    by (cases out) (auto simp: gate io_bind_def split: sum.splits)
qed

end

locale gate_pair = outer: gate_mw mw1 decide1 + inner: gate_mw mw2 decide2
  for mw1 :: "('l, 'q, 'r) middleware" and decide1
    and mw2 :: "('l, 'q, 'r) middleware" and decide2

sublocale gate_pair \<subseteq> both: gate_mw
  "\<lambda>h. mw1 (mw2 h)"
  "\<lambda>c. io_bind (decide1 c) (\<lambda>d. case d of Inl e \<Rightarrow> io_ret (Inl e) | Inr c' \<Rightarrow> decide2 c')"
proof unfold_locales
  fix h c q
  have "(case d of Inl e \<Rightarrow> io_ret (None, Some e) | Inr c' \<Rightarrow> mw2 h c' q)
    = io_bind (case d of Inl e \<Rightarrow> io_ret (Inl e) | Inr c' \<Rightarrow> decide2 c')
        (\<lambda>d. case d of Inl e \<Rightarrow> io_ret (None, Some e) | Inr c' \<Rightarrow> h c' q)" for d
    by (cases d) (simp_all add: io_bind_ret inner.gate)
  then show "mw1 (mw2 h) c q =
     io_bind (io_bind (decide1 c) (\<lambda>d. case d of Inl e \<Rightarrow> io_ret (Inl e) | Inr c' \<Rightarrow> decide2 c'))
        (\<lambda>d. case d of Inl e \<Rightarrow> io_ret (None, Some e) | Inr c' \<Rightarrow> h c' q)"
    by (simp add: outer.gate io_bind_assoc)
qed

end
