(* ===== verification/Retry.thy ===== *)
theory Retry
  imports Kratos
begin

text \<open>
  Package \<open>retry\<close> (pkg/middleware/retry/retry.go): the client middleware that retries failed calls
  with exponential backoff and jitter. Durations are \<open>int64\<close> nanoseconds, so the shift in
  \<open>backoffFor\<close> wraps. \<open>math/rand\<close> draws from the stream \<open>rands\<close> of the world and panics on a
  non-positive bound, as \<open>rand.Int63n\<close> does. The \<open>select\<close> between a timer and \<open>ctx.Done()\<close> is
  decided by a \<open>timer_select\<close>.
\<close>

section \<open>Model\<close>

definition DefaultMaxAttempts :: int where
  "DefaultMaxAttempts = 3"

definition DefaultInitialBackoff :: duration where
  "DefaultInitialBackoff = 100 * 1000000"

definition DefaultMaxBackoff :: duration where
  "DefaultMaxBackoff = 2 * 1000000000"

record retry_options =
  maxAttempts :: int
  initialBackoff :: duration
  maxBackoff :: duration
  retryOn :: "error option \<Rightarrow> bool"

type_synonym retry_Option = "retry_options \<Rightarrow> retry_options"

definition WithMaxAttempts :: "int \<Rightarrow> retry_Option" where
  "WithMaxAttempts n o' = o'\<lparr>maxAttempts := n\<rparr>"

definition WithInitialBackoff :: "duration \<Rightarrow> retry_Option" where
  "WithInitialBackoff d o' = o'\<lparr>initialBackoff := d\<rparr>"

definition WithMaxBackoff :: "duration \<Rightarrow> retry_Option" where
  "WithMaxBackoff d o' = o'\<lparr>maxBackoff := d\<rparr>"

definition WithRetryOn :: "(error option \<Rightarrow> bool) \<Rightarrow> retry_Option" where
  "WithRetryOn p o' = o'\<lparr>retryOn := p\<rparr>"

definition DefaultRetryOn :: "error option \<Rightarrow> bool" where
  "DefaultRetryOn err = (case err of None \<Rightarrow> False | Some e \<Rightarrow>
     if errors_Is e Canceled \<or> errors_Is e DeadlineExceeded then False
     else if (case As_net_Error e of Some ne \<Rightarrow> Timeout_method ne | None \<Rightarrow> False) then True
     else if As_OpError e \<noteq> None then True
     else (case As_KErr e of Some (code, _) \<Rightarrow> code = 503 \<or> code = 504 \<or> code = 429 | None \<Rightarrow> False))"

definition rand_Int63n :: "int64 \<Rightarrow> ('l world, int64) io" where
  "rand_Int63n n =
     (if sle64 n 0 then io_panic ''invalid argument to Int63n''
      else (\<lambda>w. (Ok (word_of_nat (rands w (rand_pos w) mod nat (sint n))),
                 w\<lparr>rand_pos := Suc (rand_pos w)\<rparr>)))"

text \<open>The delay before jitter: the wrapping shift with the guard that follows it.\<close>

definition backoff_base :: "int \<Rightarrow> duration \<Rightarrow> duration \<Rightarrow> duration" where
  "backoff_base attempt initial maxB =
     (let d = push_bit (nat (attempt - 1)) initial
      in if sle64 d 0 \<or> slt64 maxB d then maxB else d)"

definition backoffFor :: "int \<Rightarrow> duration \<Rightarrow> duration \<Rightarrow> ('l world, duration) io" where
  "backoffFor attempt initial maxB =
     (if attempt - 1 < 0 then io_panic ''negative shift amount''
      else
       (let d1 = backoff_base attempt initial maxB
        in io_bind (rand_Int63n (go_quot d1 2)) (\<lambda>jitter.
             let d2 = d1 - go_quot d1 4 + jitter;
                 d3 = (if slt64 maxB d2 then maxB else d2)
             in io_ret d3)))"

definition sleepWithCtx ::
  "'l timer_select \<Rightarrow> ctx \<Rightarrow> duration \<Rightarrow> ('l world, error option) io" where
  "sleepWithCtx sel c d w =
     (if sle64 d 0 then (Ok None, w)
      else (case sel (cid c) (sint d) w of
              (True, w') \<Rightarrow> (Ok None, w')
            | (False, w') \<Rightarrow> (Ok (ctx_Err c w'), w')))"

text \<open>The \<open>for\<close> loop of \<open>Client\<close>, from the given attempt on.\<close>

function retry_loop ::
  "'l timer_select \<Rightarrow> retry_options \<Rightarrow> ('l, 'q, 'r) handler \<Rightarrow> ctx \<Rightarrow> 'q \<Rightarrow>
   int \<Rightarrow> error option \<Rightarrow> ('l world, 'r gores) io" where
  "retry_loop sel o' h c q attempt lastErr w =
     (if attempt \<le> maxAttempts o' then
        (case ctx_Err c w of
           Some err \<Rightarrow> (Ok (None, Some err), w)
         | None \<Rightarrow>
             (case h c q w of
                (Ok (reply, None), w1) \<Rightarrow> (Ok (reply, None), w1)
              | (Ok (reply, Some err), w1) \<Rightarrow>
                  (if \<not> retryOn o' (Some err) then (Ok (None, Some err), w1)
                   else if attempt = maxAttempts o' then (Ok (None, Some err), w1)
                   else
                     (case backoffFor attempt (initialBackoff o') (maxBackoff o') w1 of
                        (Ok d, w2) \<Rightarrow>
                          (case sleepWithCtx sel c d w2 of
                             (Ok None, w3) \<Rightarrow> retry_loop sel o' h c q (attempt + 1) (Some err) w3
                           | (Ok (Some serr), w3) \<Rightarrow> (Ok (None, Some serr), w3)
                           | (Panic v, w3) \<Rightarrow> (Panic v, w3)
                           | (Crash v, w3) \<Rightarrow> (Crash v, w3))
                      | (Panic v, w2) \<Rightarrow> (Panic v, w2)
                      | (Crash v, w2) \<Rightarrow> (Crash v, w2)))
              | (Panic v, w1) \<Rightarrow> (Panic v, w1)
              | (Crash v, w1) \<Rightarrow> (Crash v, w1)))
      else (Ok (None, lastErr), w))"
  by pat_completeness auto
termination
  by (relation "measure (\<lambda>(sel, o', h, c, q, attempt, l, w). nat (maxAttempts o' - attempt))") auto

declare retry_loop.simps [simp del]

definition retry_default_options :: retry_options where
  "retry_default_options =
     \<lparr>maxAttempts = DefaultMaxAttempts, initialBackoff = DefaultInitialBackoff,
      maxBackoff = DefaultMaxBackoff, retryOn = DefaultRetryOn\<rparr>"

definition retry_Client ::
  "'l timer_select \<Rightarrow> retry_Option list \<Rightarrow> ('l, 'q, 'r) middleware" where
  "retry_Client sel opts h c q =
     (let o' = apply_opts retry_default_options opts
      in if maxAttempts o' \<le> 1 then h c q
         else retry_loop sel o' h c q 1 None)"


section \<open>Backoff\<close>

lemma backoffFor_base:
  assumes "1 \<le> attempt"
  shows "backoffFor attempt initial maxB =
    (let d = backoff_base attempt initial maxB
     in io_bind (rand_Int63n (go_quot d 2)) (\<lambda>jitter.
          io_ret (if sint maxB < sint (d - go_quot d 4 + jitter) then maxB
                  else d - go_quot d 4 + jitter)))"
  using assms by (simp add: backoffFor_def Let_def)

lemma push_bit_word_of_int: "push_bit n (w :: int64) = word_of_int (sint w * 2 ^ n)"
  by (simp add: push_bit_eq_mult)

lemma dvd_sint_word_of_int:
  assumes "2 ^ 32 dvd x"
  shows "2 ^ 32 dvd sint (word_of_int x :: int64)"
proof -
  have "(2 :: int) ^ 32 dvd (x + 2 ^ 63) mod 2 ^ 64 - 2 ^ 63"
    using assms by (intro dvd_diff dvd_mod dvd_add) (auto simp: le_imp_power_dvd)
  then show ?thesis by (simp add: int_word_sint)
qed

lemma backoff_base_min:
  assumes "1 \<le> attempt" and i: "0 < sint initial" "sint initial < 2 ^ 32"
    and m: "0 < sint maxB" "sint maxB < 2 ^ 32"
  shows "sint (backoff_base attempt initial maxB) = min (sint initial * 2 ^ nat (attempt - 1)) (sint maxB)"
proof -
  define n where "n = nat (attempt - 1)"
  define x where "x = sint initial * 2 ^ n"
  have pb: "push_bit n initial = word_of_int x"
    by (simp add: push_bit_word_of_int x_def)
  show ?thesis
  proof (cases "n < 32")
    case True
    then have "(2 :: int) ^ n \<le> 2 ^ 31"
      by (intro power_increasing) auto
    then have "x \<le> (2 ^ 32 - 1) * 2 ^ 31"
      unfolding x_def using i by (intro mult_mono) auto
    moreover have "0 < x"
      using i by (simp add: x_def)
    ultimately have "sint (word_of_int x :: int64) = x"
      by (intro sint_word_of_int64) (simp add: in_int64_def)
    with \<open>0 < x\<close> show ?thesis
      by (auto simp: backoff_base_def n_def [symmetric] pb x_def Let_def)
  next
    case False
    then have pow: "(2 :: int) ^ 32 \<le> 2 ^ n"
      by (intro power_increasing) auto
    have big: "2 ^ 32 \<le> x"
      using i pow mult_mono [of 1 "sint initial" "2 ^ 32" "2 ^ n"] by (simp add: x_def)
    have "(2 :: int) ^ 32 dvd 2 ^ n"
      using False by (intro le_imp_power_dvd) simp
    then have "(2 :: int) ^ 32 dvd x"
      unfolding x_def by (rule dvd_mult)
    then have dvd: "2 ^ 32 dvd sint (word_of_int x :: int64)"
      by (rule dvd_sint_word_of_int)
    have "sint (word_of_int x :: int64) \<le> 0 \<or> sint maxB < sint (word_of_int x :: int64)"
      using zdvd_imp_le [OF dvd] m by fastforce
    with big m show ?thesis
      by (auto simp: backoff_base_def n_def [symmetric] pb x_def [symmetric] Let_def)
  qed
qed

lemma rand_Int63n_range:
  assumes "0 < sint n"
  obtains j w' where "rand_Int63n n w = (Ok j, w')" and "w' = w\<lparr>rand_pos := Suc (rand_pos w)\<rparr>"
    and "0 \<le> sint j" and "sint j < sint n"
proof -
  let ?v = "rands w (rand_pos w) mod nat (sint n)"
  have "?v < nat (sint n)"
    using assms by simp
  then have v: "int ?v < sint n"
    by linarith
  moreover have "sint n < 2 ^ 63"
    by (rule sint_bounds64)
  ultimately have "sint (word_of_nat ?v :: int64) = int ?v"
    using sint_word_of_int64 [of "int ?v"] by (simp add: in_int64_def)
  with v that assms show thesis
    by (simp add: rand_Int63n_def)
qed

lemma backoffFor_range:
  assumes "1 \<le> attempt" and "2 \<le> sint (backoff_base attempt initial maxB)"
    and "sint maxB \<le> 2 ^ 62" and "sint (backoff_base attempt initial maxB) \<le> sint maxB"
  obtains d w' where "backoffFor attempt initial maxB w = (Ok d, w')"
    and "w' = w\<lparr>rand_pos := Suc (rand_pos w)\<rparr>" and "sint d \<le> sint maxB"
    and "3 * sint (backoff_base attempt initial maxB) \<le> 4 * sint d"
    and "4 * sint d \<le> 5 * sint (backoff_base attempt initial maxB) + 4"
proof -
  define b where "b = backoff_base attempt initial maxB"
  have b: "2 \<le> sint b" "sint b \<le> 2 ^ 62" "sint b \<le> sint maxB"
    using assms by (simp_all add: b_def)
  have q2: "sint (go_quot b 2) = sint b div 2" and q4: "sint (go_quot b 4) = sint b div 4"
    using b by (simp_all add: go_quot_nonneg)
  have "0 < sint (go_quot b 2)"
    using b q2 by simp
  then obtain j w' where j: "rand_Int63n (go_quot b 2) w = (Ok j, w')"
    and w': "w' = w\<lparr>rand_pos := Suc (rand_pos w)\<rparr>" and jr: "0 \<le> sint j" "sint j < sint b div 2"
    using rand_Int63n_range q2 by metis
  have m: "sint (b - go_quot b 4) = sint b - sint b div 4"
    using b by (subst sint_minus64) (auto simp: q4 in_int64_def)
  have s: "sint (b - go_quot b 4 + j) = sint b - sint b div 4 + sint j"
    using b jr by (subst sint_plus64) (auto simp: m in_int64_def)
  define d where "d = (if sint maxB < sint (b - go_quot b 4 + j) then maxB else b - go_quot b 4 + j)"
  have "backoffFor attempt initial maxB w = (Ok d, w')"
    using assms(1) j by (simp add: backoffFor_base b_def [symmetric] Let_def io_bind_def io_ret_def d_def)
  moreover have "sint d \<le> sint maxB" "3 * sint b \<le> 4 * sint d" "4 * sint d \<le> 5 * sint b + 4"
    using b jr s by (auto simp: d_def)
  ultimately show thesis
    using that w' by (simp add: b_def)
qed

lemma backoff_base_le_max: "0 < sint maxB \<Longrightarrow> sint (backoff_base attempt initial maxB) \<le> sint maxB"
  by (simp add: backoff_base_def Let_def)

lemma backoffFor_panic:
  assumes "1 \<le> attempt" and "sint (backoff_base attempt initial maxB) < 2"
  shows "backoffFor attempt initial maxB w = (Panic ''invalid argument to Int63n'', w)"
proof -
  define b where "b = backoff_base attempt initial maxB"
  have "sint b < 2"
    using assms(2) by (simp add: b_def)
  then have "sint (go_quot b 2) \<le> 0"
    by (cases "sint b < 0") (simp_all add: go_quot_neg go_quot_nonneg pos_imp_zdiv_nonneg_iff)
  then show ?thesis
    using assms(1)
    by (simp add: backoffFor_base b_def [symmetric] rand_Int63n_def io_bind_panic io_panic_apply)
qed


section \<open>Where a result comes from\<close>

definition from_handler ::
  "('l, 'q, 'r) handler \<Rightarrow> ctx \<Rightarrow> 'q \<Rightarrow> 'r gores res \<Rightarrow> 'l world \<Rightarrow> bool" where
  "from_handler h c q out w' \<longleftrightarrow> (\<exists>w0. h c q w0 = (out, w'))"

definition retry_outcome_ok ::
  "('l, 'q, 'r) handler \<Rightarrow> ctx \<Rightarrow> 'q \<Rightarrow> 'r gores res \<Rightarrow> 'l world \<Rightarrow> bool" where
  "retry_outcome_ok h c q out w' \<longleftrightarrow> (case out of
      Ok (reply, None) \<Rightarrow> from_handler h c q out w'
    | Ok (reply, Some e) \<Rightarrow> reply = None \<and>
        ((\<exists>reply0. from_handler h c q (Ok (reply0, Some e)) w') \<or> ctx_Err c w' = Some e)
    | Panic v \<Rightarrow> from_handler h c q out w' \<or> v = ''invalid argument to Int63n''
    | Crash v \<Rightarrow> from_handler h c q out w')"

lemma from_handlerI [intro]: "h c q w0 = (out, w') \<Longrightarrow> from_handler h c q out w'"
  by (auto simp: from_handler_def)

lemma from_handler_exI [intro]:
  "h c q w0 = (Ok (reply0, e), w') \<Longrightarrow> \<exists>reply0. from_handler h c q (Ok (reply0, e)) w'"
  by (auto simp: from_handler_def)

lemma backoffFor_outcomes:
  assumes "1 \<le> attempt" and "backoffFor attempt i m w = (out, w')"
  shows "(\<exists>d. out = Ok d) \<or> out = Panic ''invalid argument to Int63n''"
  using assms
  by (auto simp: backoffFor_base rand_Int63n_def Let_def io_bind_def io_ret_def io_panic_def
      split: if_splits)

lemma sleepWithCtx_outcomes:
  assumes "sleepWithCtx sel c d w = (out, w')"
  shows "out = Ok None \<or> (\<exists>e. out = Ok (Some e) \<and> ctx_Err c w' = Some e)"
  using assms by (auto simp: sleepWithCtx_def split: if_splits prod.splits bool.splits)

lemma retry_loop_outcome:
  assumes "1 \<le> attempt" and "attempt \<le> maxAttempts o'"
    and "retry_loop sel o' h c q attempt lastErr w = (out, w')"
  shows "retry_outcome_ok h c q out w'"
  using assms
proof (induction sel o' h c q attempt lastErr w rule: retry_loop.induct)
  case (1 sel o' h c q attempt lastErr w)
  show ?case
  proof (cases "ctx_Err c w")
    case (Some e)
    with "1.prems" show ?thesis
      by (auto simp: retry_loop.simps [of _ _ _ _ _ attempt] retry_outcome_ok_def)
  next
    case live: None
    obtain r1 w1 where h: "h c q w = (r1, w1)"
      by (cases "h c q w")
    show ?thesis
    proof (cases "\<exists>reply e. r1 = Ok (reply, Some e) \<and> retryOn o' (Some e) \<and> attempt \<noteq> maxAttempts o'")
      case False
      with "1.prems" live h show ?thesis
        by (auto simp: retry_loop.simps [of _ _ _ _ _ attempt] retry_outcome_ok_def
            split: res.splits option.splits if_splits)
    next
      case True
      then obtain reply e where r1: "r1 = Ok (reply, Some e)" and on: "retryOn o' (Some e)"
        and more: "attempt \<noteq> maxAttempts o'"
        by blast
      obtain bo w2 where b: "backoffFor attempt (initialBackoff o') (maxBackoff o') w1 = (bo, w2)"
        by (cases "backoffFor attempt (initialBackoff o') (maxBackoff o') w1")
      from backoffFor_outcomes [OF "1.prems"(1) b] show ?thesis
      proof
        assume "bo = Panic ''invalid argument to Int63n''"
        with "1.prems" live h r1 on more b show ?thesis
          by (auto simp: retry_loop.simps [of _ _ _ _ _ attempt] retry_outcome_ok_def)
      next
        assume "\<exists>d. bo = Ok d"
        then obtain d where bo: "bo = Ok d" ..
        obtain so w3 where sl: "sleepWithCtx sel c d w2 = (so, w3)"
          by (cases "sleepWithCtx sel c d w2")
        note unfolded = "1.prems" live h r1 on more b bo sl
        from sleepWithCtx_outcomes [OF sl] show ?thesis
        proof
          assume so: "so = Ok None"
          then have "retry_loop sel o' h c q (attempt + 1) (Some e) w3 = (out, w')"
            using unfolded by (simp add: retry_loop.simps [of _ _ _ _ _ attempt])
          then show ?thesis
            using "1.IH" [OF "1.prems"(2) live h [symmetric] r1 refl refl _ more b [symmetric] bo
                sl [symmetric] so refl] on more "1.prems" by simp
        next
          assume "\<exists>e. so = Ok (Some e) \<and> ctx_Err c w3 = Some e"
          then show ?thesis
            using unfolded
            by (auto simp: retry_loop.simps [of _ _ _ _ _ attempt] retry_outcome_ok_def)
        qed
      qed
    qed
  qed
qed


section \<open>Running against a script\<close>

text \<open>
  A handler whose n-th call answers \<open>outs n\<close> while the context stays live, counted by \<open>calls\<close>;
  timers that always fire. \<open>calls\<close> is any observation of the world that drawing random numbers
  and sleeping do not change.
\<close>

definition scripted ::
  "('l world \<Rightarrow> nat) \<Rightarrow> (nat \<Rightarrow> 'r gores) \<Rightarrow> ('l, 'q, 'r) handler \<Rightarrow> ctx \<Rightarrow> 'q \<Rightarrow> bool" where
  "scripted calls outs h c q \<longleftrightarrow> (\<forall>w. ctx_Err c w = None \<longrightarrow>
     (\<exists>w'. h c q w = (Ok (outs (calls w)), w') \<and> calls w' = Suc (calls w) \<and> ctx_Err c w' = None))"

definition quiet_timers :: "('l world \<Rightarrow> nat) \<Rightarrow> 'l timer_select \<Rightarrow> ctx \<Rightarrow> bool" where
  "quiet_timers calls sel c \<longleftrightarrow>
     (\<forall>w d. ctx_Err c w = None \<longrightarrow>
        (\<exists>w'. sel (cid c) d w = (True, w') \<and> calls w' = calls w \<and> ctx_Err c w' = None)) \<and>
     (\<forall>w n. calls (w\<lparr>rand_pos := n\<rparr>) = calls w)"

definition sane_backoff :: "retry_options \<Rightarrow> bool" where
  "sane_backoff o' \<longleftrightarrow> 2 \<le> sint (initialBackoff o') \<and> 2 \<le> sint (maxBackoff o')"

definition retryable :: "retry_options \<Rightarrow> 'r gores \<Rightarrow> bool" where
  "retryable o' r \<longleftrightarrow> snd r \<noteq> None \<and> retryOn o' (snd r)"

definition without_reply :: "'r gores \<Rightarrow> 'r gores" where
  "without_reply r = (case snd r of None \<Rightarrow> r | Some e \<Rightarrow> (None, Some e))"

text \<open>
  With both settings at least 2 ns the bound passed to \<open>rand.Int63n\<close> is positive whatever the shift
  does: a wrapped shift by at least one bit is even, so it is at least 2 when it passes the guard.
\<close>

lemma even_push_bit_pos:
  assumes "0 < n" and "0 < sint (push_bit n (w :: int64))"
  shows "2 \<le> sint (push_bit n w)"
proof -
  have "(2 :: int) dvd sint w * 2 ^ n"
    using assms(1) by simp
  then have "(2 :: int) dvd (sint w * 2 ^ n + 2 ^ 63) mod 2 ^ 64 - 2 ^ 63"
    by (intro dvd_diff dvd_mod dvd_add) simp_all
  then have "2 dvd sint (push_bit n w)"
    unfolding push_bit_word_of_int int_word_sint by simp
  with assms(2) show ?thesis
    by (auto dest: zdvd_imp_le)
qed

lemma sane_backoff_base:
  assumes "sane_backoff o'" and "1 \<le> attempt"
  shows "2 \<le> sint (backoff_base attempt (initialBackoff o') (maxBackoff o'))"
proof (cases "nat (attempt - 1) = 0")
  case True
  with assms show ?thesis by (simp add: backoff_base_def sane_backoff_def Let_def)
next
  case False
  with assms even_push_bit_pos [of "nat (attempt - 1)" "initialBackoff o'"] show ?thesis
    by (simp add: backoff_base_def sane_backoff_def Let_def)
qed

lemma sane_backoff_ok:
  assumes "sane_backoff o'" and "1 \<le> attempt"
  obtains d where "backoffFor attempt (initialBackoff o') (maxBackoff o') w =
    (Ok d, w\<lparr>rand_pos := Suc (rand_pos w)\<rparr>)"
proof -
  let ?b = "backoff_base attempt (initialBackoff o') (maxBackoff o')"
  have "0 < sint (go_quot ?b 2)"
    using sane_backoff_base [OF assms] by (simp add: go_quot_nonneg)
  then obtain j where "rand_Int63n (go_quot ?b 2) w = (Ok j, w\<lparr>rand_pos := Suc (rand_pos w)\<rparr>)"
    using rand_Int63n_range by metis
  with that assms(2) show thesis
    by (simp add: backoffFor_base Let_def io_bind_def io_ret_def)
qed

lemma quiet_sleep:
  assumes "quiet_timers calls sel c" and "ctx_Err c w = None"
  obtains w' where "sleepWithCtx sel c d w = (Ok None, w')" "calls w' = calls w" "ctx_Err c w' = None"
proof (cases "sint d \<le> 0")
  case True
  with assms that show ?thesis by (simp add: sleepWithCtx_def)
next
  case False
  obtain w' where "sel (cid c) (sint d) w = (True, w')" "calls w' = calls w" "ctx_Err c w' = None"
    using assms unfolding quiet_timers_def by blast
  with False that show ?thesis by (simp add: sleepWithCtx_def)
qed

lemma retry_loop_scripted:
  assumes "scripted calls outs h c q" "quiet_timers calls sel c" "sane_backoff o'"
    and "ctx_Err c w = None" "1 \<le> attempt" "attempt \<le> maxAttempts o'"
  shows "\<exists>n w'. n \<le> nat (maxAttempts o' - attempt) \<and>
    (\<forall>i<n. retryable o' (outs (calls w + i))) \<and>
    (n = nat (maxAttempts o' - attempt) \<or> \<not> retryable o' (outs (calls w + n))) \<and>
    retry_loop sel o' h c q attempt lastErr w = (Ok (without_reply (outs (calls w + n))), w') \<and>
    calls w' = calls w + n + 1"
  using assms(4-6)
proof (induction "nat (maxAttempts o' - attempt)" arbitrary: attempt lastErr w)
  case (0 attempt lastErr w)
  obtain w1 where "h c q w = (Ok (outs (calls w)), w1)" "calls w1 = Suc (calls w)"
    using assms(1) "0.prems" unfolding scripted_def by blast
  moreover have "attempt = maxAttempts o'"
    using 0 by linarith
  moreover obtain rep er where "outs (calls w) = (rep, er)"
    by (cases "outs (calls w)")
  ultimately show ?case
    using "0.prems"
    by (intro exI [of _ 0] exI [of _ w1])
       (auto simp: retry_loop.simps [of _ _ _ _ _ "maxAttempts o'"] without_reply_def
         split: option.splits)
next
  case (Suc n attempt lastErr w)
  obtain w1 where h: "h c q w = (Ok (outs (calls w)), w1)" "calls w1 = Suc (calls w)"
    and live1: "ctx_Err c w1 = None"
    using assms(1) Suc.prems unfolding scripted_def by blast
  obtain rep er where o1: "outs (calls w) = (rep, er)"
    by (cases "outs (calls w)")
  have lt: "attempt < maxAttempts o'"
    using Suc.hyps(2) by linarith
  show ?case
  proof (cases "retryable o' (rep, er)")
    case False
    with Suc.prems h o1 lt show ?thesis
      by (intro exI [of _ 0] exI [of _ w1])
         (auto simp: retry_loop.simps [of _ _ _ _ _ attempt] without_reply_def retryable_def
           split: option.splits)
  next
    case True
    then obtain e where er: "er = Some e" and on: "retryOn o' (Some e)"
      by (auto simp: retryable_def)
    obtain d where b: "backoffFor attempt (initialBackoff o') (maxBackoff o') w1
        = (Ok d, w1\<lparr>rand_pos := Suc (rand_pos w1)\<rparr>)"
      using sane_backoff_ok [OF assms(3) Suc.prems(2)] by blast
    let ?w2 = "w1\<lparr>rand_pos := Suc (rand_pos w1)\<rparr>"
    have "ctx_Err c ?w2 = None" "calls ?w2 = calls w1"
      using live1 assms(2) by (simp_all add: ctx_Err_def quiet_timers_def)
    then obtain w3 where sl: "sleepWithCtx sel c d ?w2 = (Ok None, w3)"
      and c3: "calls w3 = Suc (calls w)" and live3: "ctx_Err c w3 = None"
      using quiet_sleep [OF assms(2)] h(2) by metis
    have step: "retry_loop sel o' h c q attempt lastErr w
        = retry_loop sel o' h c q (attempt + 1) (Some e) w3"
      using Suc.prems h o1 er on lt b sl by (simp add: retry_loop.simps [of _ _ _ _ _ attempt])
    have "n = nat (maxAttempts o' - (attempt + 1))"
      using Suc.hyps(2) by linarith
    from Suc.hyps(1) [OF this live3] obtain m w' where
      m: "m \<le> nat (maxAttempts o' - (attempt + 1))"
        "\<forall>i<m. retryable o' (outs (calls w3 + i))"
        "m = nat (maxAttempts o' - (attempt + 1)) \<or> \<not> retryable o' (outs (calls w3 + m))"
        "retry_loop sel o' h c q (attempt + 1) (Some e) w3
           = (Ok (without_reply (outs (calls w3 + m))), w')"
        "calls w' = calls w3 + m + 1"
      using Suc.prems lt by fastforce
    have "\<forall>i<Suc m. retryable o' (outs (calls w + i))"
      using m(2) True o1 c3 by (auto simp: less_Suc_eq_0_disj)
    with m step c3 lt show ?thesis
      by (intro exI [of _ "Suc m"] exI [of _ w']) auto
  qed
qed


section \<open>Properties\<close>

text \<open>
  C4. What the middleware computes when more than one attempt is allowed, both backoff settings are
  at least 2 ns, and while the call runs the caller's context stays live and the backoff timers
  fire: it calls the handler until an attempt succeeds, fails with an error that is not retryable,
  or the attempts are used up, and returns that attempt's result (a failing attempt's reply is
  dropped). It makes exactly one call per attempt, at most \<open>maxAttempts\<close>, and every call before
  the last one failed with a retryable error. There is no upper bound on the settings: a delay that
  overflows only makes the sleep return at once.
\<close>

theorem retry_Client_scripted:
  assumes "scripted calls outs h c q" and "quiet_timers calls sel c"
    and "o' = apply_opts retry_default_options opts" and "1 < maxAttempts o'" and "sane_backoff o'"
    and "ctx_Err c w = None"
  shows "\<exists>n w'. n < nat (maxAttempts o') \<and>
    (\<forall>i<n. retryable o' (outs (calls w + i))) \<and>
    (Suc n = nat (maxAttempts o') \<or> \<not> retryable o' (outs (calls w + n))) \<and>
    retry_Client sel opts h c q w = (Ok (without_reply (outs (calls w + n))), w') \<and>
    calls w' = calls w + n + 1"
proof -
  obtain n w' where n: "n \<le> nat (maxAttempts o' - 1)"
    "\<forall>i<n. retryable o' (outs (calls w + i))"
    "n = nat (maxAttempts o' - 1) \<or> \<not> retryable o' (outs (calls w + n))"
    "retry_loop sel o' h c q 1 None w = (Ok (without_reply (outs (calls w + n))), w')"
    "calls w' = calls w + n + 1"
    using retry_loop_scripted [OF assms(1,2,5,6), of 1 None] assms(4) by auto
  then show ?thesis
    using assms(3,4)
    by (intro exI [of _ n] exI [of _ w']) (auto simp: retry_Client_def Let_def)
qed

definition flaky :: "nat \<Rightarrow> string gores" where
  "flaky n = (if n < 2 then (None, Some (KErr 503 ''UNAVAILABLE'' ''try again'' None))
              else (Some ''ok'', None))"

definition flaky_handler :: "(unit, unit, string) handler" where
  "flaky_handler c q w =
     (Ok (flaky (length (trace w))), w\<lparr>trace := trace w @ [Logw LevelDebug []]\<rparr>)"

lemma default_options_sane: "sane_backoff retry_default_options"
  by (simp add: sane_backoff_def retry_default_options_def DefaultInitialBackoff_def DefaultMaxBackoff_def)

theorem retry_Client_scripted_witness:
  "\<exists>n w'. n < nat 3 \<and>
    (\<forall>i<n. retryable retry_default_options (flaky (length (trace (demo_world :: unit world)) + i))) \<and>
    (Suc n = nat 3 \<or> \<not> retryable retry_default_options (flaky (length (trace (demo_world :: unit world)) + n))) \<and>
    retry_Client (\<lambda>_ _ w. (True, w)) [] flaky_handler Background () demo_world =
      (Ok (without_reply (flaky (length (trace (demo_world :: unit world)) + n))), w') \<and>
    length (trace w') = length (trace (demo_world :: unit world)) + n + 1"
proof -
  have "scripted (\<lambda>w. length (trace w)) flaky flaky_handler Background ()"
    by (simp add: scripted_def flaky_handler_def ctx_Err_def)
  moreover have "quiet_timers (\<lambda>w. length (trace w)) (\<lambda>_ _ w :: unit world. (True, w)) Background"
    by (simp add: quiet_timers_def)
  moreover have "retry_default_options = apply_opts retry_default_options []"
    by simp
  moreover have "maxAttempts retry_default_options = 3"
    by (simp add: retry_default_options_def DefaultMaxAttempts_def)
  moreover have "ctx_Err Background (demo_world :: unit world) = None"
    by (simp add: ctx_Err_def demo_world_def)
  ultimately show ?thesis
    using retry_Client_scripted [of "\<lambda>w. length (trace w)" flaky flaky_handler Background "()"
        "\<lambda>_ _ w. (True, w)" retry_default_options "[]" demo_world] default_options_sane
    by simp
qed

text \<open>
  C16. Nothing is made up, for any handler, clock, cancellation behaviour and options. When more than
  one attempt is allowed, a success is a success the handler returned, a returned error is one the
  handler returned or the context's own error at that moment (and comes without a reply), and a
  panic or crash is the handler's, except the panic of \<open>rand.Int63n\<close> in the backoff. With
  \<open>MaxAttempts <= 1\<close> the call is one call of the handler, whose result is passed on as it is.
\<close>

theorem retry_Client_outcome:
  assumes "retry_Client sel opts h c q w = (out, w')"
  shows "if 1 < maxAttempts (apply_opts retry_default_options opts)
    then retry_outcome_ok h c q out w' else h c q w = (out, w')"
  using assms retry_loop_outcome [of 1 "apply_opts retry_default_options opts" sel h c q None w out w']
  by (auto simp: retry_Client_def Let_def split: if_splits)

theorem retry_Client_outcome_witness:
  "retry_outcome_ok (\<lambda>c q (w :: unit world). (Ok (Some (7 :: nat), None), w)) Background ()
     (Ok (Some 7, None)) demo_world"
proof -
  have "retry_Client (\<lambda>_ _ w. (True, w)) [] (\<lambda>c q (w :: unit world). (Ok (Some (7 :: nat), None), w))
      Background () demo_world = (Ok (Some 7, None), demo_world)"
    by (simp add: retry_Client_def retry_default_options_def DefaultMaxAttempts_def
        retry_loop.simps ctx_Err_def demo_world_def)
  from retry_Client_outcome [OF this] show ?thesis
    by (simp add: retry_default_options_def DefaultMaxAttempts_def)
qed

text \<open>
  \<open>MaxAttempts <= 1\<close> makes the middleware a pass-through; otherwise a context that is already
  done is reported at once and the handler is not called.
\<close>

theorem retry_Client_bypass_or_bail:
  "(maxAttempts (apply_opts retry_default_options opts) \<le> 1 \<longrightarrow> retry_Client sel opts h = h) \<and>
   (1 < maxAttempts (apply_opts retry_default_options opts) \<and> ctx_Err c w = Some e \<longrightarrow>
      retry_Client sel opts h c q w = (Ok (None, Some e), w))"
  by (auto simp: retry_Client_def Let_def fun_eq_iff retry_loop.simps)

theorem retry_Client_bypass_or_bail_witness:
  "retry_Client (\<lambda>_ _ w. (True, w)) [WithMaxAttempts 1] flaky_handler = flaky_handler"
  using retry_Client_bypass_or_bail [of "[WithMaxAttempts 1]" "\<lambda>_ _ w. (True, w)" flaky_handler
      Background "demo_world" Canceled "()"]
  by (simp add: WithMaxAttempts_def)

text \<open>
  C26. The documented schedule \<open>min(initial * 2^(N-1), MaxBackoff)\<close>: although \<open>initial << (N-1)\<close>
  wraps at 64 bits, the guard after it makes the delay before jitter exactly that minimum, for
  every attempt number, as long as both settings are positive and below 2^32 ns (the defaults are).
\<close>

theorem backoff_schedule:
  assumes "1 \<le> attempt" and "0 < sint initial" and "sint initial < 2 ^ 32"
    and "0 < sint maxB" and "sint maxB < 2 ^ 32"
  shows "sint (backoff_base attempt initial maxB)
      = min (sint initial * 2 ^ nat (attempt - 1)) (sint maxB)"
  using assms by (rule backoff_base_min)

theorem backoff_schedule_witness:
  "sint (backoff_base 60 DefaultInitialBackoff DefaultMaxBackoff)
     = min (sint DefaultInitialBackoff * 2 ^ nat (60 - 1)) (sint DefaultMaxBackoff)"
  by (rule backoff_schedule) (simp_all add: DefaultInitialBackoff_def DefaultMaxBackoff_def)

text \<open>
  C27. Jitter is bounded: for every attempt number from 1 on and every positive \<open>MaxBackoff\<close> up to
  2^62 ns (146 years; near 2^63 ns \<open>d - d/4 + jitter\<close> can overflow to a negative delay), when the
  delay before jitter is at least 2 ns, \<open>backoffFor\<close> does not panic and returns a delay within 25
  percent of it (up to rounding) that never exceeds \<open>MaxBackoff\<close>; it draws exactly one random
  number and changes nothing else. When the delay before jitter is 1 ns it panics, because
  \<open>rand.Int63n\<close> is called with half of it.
\<close>

theorem backoffFor_jitter:
  assumes "1 \<le> attempt" and "0 < sint maxB" and "sint maxB \<le> 2 ^ 62"
  shows "if 2 \<le> sint (backoff_base attempt initial maxB)
    then (\<exists>d. backoffFor attempt initial maxB w = (Ok d, w\<lparr>rand_pos := Suc (rand_pos w)\<rparr>) \<and>
      3 * sint (backoff_base attempt initial maxB) \<le> 4 * sint d \<and>
      4 * sint d \<le> 5 * sint (backoff_base attempt initial maxB) + 4 \<and> sint d \<le> sint maxB)
    else backoffFor attempt initial maxB w = (Panic ''invalid argument to Int63n'', w)"
  using backoffFor_range [OF assms(1) _ assms(3) backoff_base_le_max [OF assms(2)], of initial w]
    backoffFor_panic [OF assms(1), of initial maxB w]
  by auto

theorem backoffFor_jitter_witness:
  "(\<exists>d. backoffFor 2 1000 5000 (demo_world :: unit world) =
      (Ok d, demo_world\<lparr>rand_pos := Suc (rand_pos (demo_world :: unit world))\<rparr>) \<and> sint d \<le> sint (5000 :: int64)) \<and>
   backoffFor 1 1 5000 (demo_world :: unit world) = (Panic ''invalid argument to Int63n'', demo_world)"
  using backoffFor_jitter [of 2 5000 1000 "demo_world :: unit world"] backoffFor_jitter [of 1 5000 1 "demo_world :: unit world"]
  by (auto simp: backoff_base_def)

text \<open>
  The backoff panics when the delay before jitter is below 2 ns, because \<open>rand.Int63n\<close> is
  called with half of it: a client configured with \<open>InitialBackoff\<close> = 1 ns panics on the first
  retryable failure instead of retrying.
\<close>

theorem retry_tiny_backoff_panics:
  "retry_Client (\<lambda>_ _ w. (True, w)) [WithInitialBackoff 1] flaky_handler Background () demo_world =
     (Panic ''invalid argument to Int63n'', demo_world\<lparr>trace := [Logw LevelDebug []]\<rparr>)"
proof -
  have "backoffFor 1 1 DefaultMaxBackoff w = (Panic ''invalid argument to Int63n'', w)"
    for w :: "unit world"
    by (rule backoffFor_panic) (simp_all add: backoff_base_def DefaultMaxBackoff_def)
  moreover have "DefaultRetryOn (Some (KErr 503 ''UNAVAILABLE'' ''try again'' None))"
    by (simp add: DefaultRetryOn_def errors_Is_def As_net_Error_def As_OpError_def)
  ultimately show ?thesis
    by (simp add: retry_Client_def WithInitialBackoff_def retry_default_options_def
        DefaultMaxAttempts_def retry_loop.simps ctx_Err_def demo_world_def flaky_handler_def flaky_def)
qed

text \<open>
  C39. The default predicate: nil and the caller's own cancellation or deadline are never retried,
  anywhere in the error chain; a kratos error without cause is retried exactly for the codes 503,
  504 and 429; and wrapping an error with \<open>fmt.Errorf("...%w")\<close> never changes the decision.
  A refused connection is retried; but a dial timeout is not, although the package promises to retry
  net-layer timeouts: package net reports it as a \<open>*net.OpError\<close> around \<open>errTimeout\<close>, for which
  \<open>errors.Is(err, context.DeadlineExceeded)\<close> holds.
\<close>

theorem DefaultRetryOn_spec:
  "\<not> DefaultRetryOn None \<and>
   (errors_Is e Canceled \<or> errors_Is e DeadlineExceeded \<longrightarrow> \<not> DefaultRetryOn (Some e)) \<and>
   (DefaultRetryOn (Some (KErr code reason msg None)) \<longleftrightarrow> code \<in> {503, 504, 429}) \<and>
   DefaultRetryOn (Some (WrapError m e)) = DefaultRetryOn (Some e) \<and>
   DefaultRetryOn (Some (OpError op (ErrorString ''connection refused''))) \<and>
   \<not> DefaultRetryOn (Some (OpError op NetTimeout))"
  by (auto simp: DefaultRetryOn_def errors_Is_def As_net_Error_def As_OpError_def)

theorem DefaultRetryOn_spec_witness:
  "\<not> DefaultRetryOn (Some (WrapError ''rpc'' Canceled)) \<and>
   DefaultRetryOn (Some (KErr 429 ''RATE_LIMITED'' ''too many requests'' None))"
  using DefaultRetryOn_spec [of "WrapError ''rpc'' Canceled" 429 "''RATE_LIMITED''"
      "''too many requests''" "''x''" "''dial''"]
  by (simp add: errors_Is_def)

end
