(* ===== verification/Auth.thy ===== *)
theory Auth
  imports Kratos
begin

text \<open>
  Package \<open>auth\<close> (pkg/middleware/auth/auth.go): inbound authentication. The validator is supplied
  by the caller and may do anything, panic included. Parameters: \<open>fold_rest\<close>, Unicode folding of
  non-ASCII text in \<open>strings.EqualFold\<close>, and \<open>err_text\<close>, the \<open>Error\<close> method of the dynamic types.
\<close>

section \<open>Model\<close>

type_synonym auth_SkipFn = "string \<Rightarrow> bool"
type_synonym 'l validator = "ctx \<Rightarrow> string \<Rightarrow> ('l world, claims option \<times> error option) io"

record 'l auth_options =
  validator :: "'l validator option"
  auth_skipFn :: "(string \<Rightarrow> bool) option"
  auth_header :: string
  auth_scheme :: string

type_synonym 'l auth_Option = "'l auth_options \<Rightarrow> 'l auth_options"

definition WithValidator :: "'l validator \<Rightarrow> 'l auth_Option" where
  "WithValidator v o' = o'\<lparr>validator := Some v\<rparr>"

definition auth_WithSkip :: "auth_SkipFn \<Rightarrow> 'l auth_Option" where
  "auth_WithSkip f o' = o'\<lparr>auth_skipFn := Some f\<rparr>"

definition WithHeader :: "string \<Rightarrow> string \<Rightarrow> 'l auth_Option" where
  "WithHeader header scheme o' = o'\<lparr>auth_header := header, auth_scheme := scheme\<rparr>"

definition ErrUnauthorized :: error where
  "ErrUnauthorized = KErr 401 ''UNAUTHORIZED'' ''missing or invalid credentials'' None"

definition auth_FromContext :: "ctx \<Rightarrow> claims option" where
  "auth_FromContext c = auth_key c"

definition extractToken :: "(string \<Rightarrow> string \<Rightarrow> bool) \<Rightarrow> string \<Rightarrow> string \<Rightarrow> string" where
  "extractToken fold_rest header scheme =
     (if header = [] then []
      else if scheme = [] then TrimSpace header
      else if length header \<le> length scheme \<or>
           \<not> EqualFold fold_rest (take (length scheme) header) scheme then []
      else TrimSpace (drop (length scheme) header))"

definition mapErr :: "(error \<Rightarrow> string) \<Rightarrow> error \<Rightarrow> error" where
  "mapErr err_text err =
     (case As_KErr err of
        Some _ \<Rightarrow> err
      | None \<Rightarrow> KErr 401 ''UNAUTHORIZED'' (err_text err) None)"

definition auth_skipped :: "'l auth_options \<Rightarrow> ctx \<Rightarrow> bool" where
  "auth_skipped o' c = (case auth_skipFn o' of None \<Rightarrow> False | Some f \<Rightarrow> f (server_op c))"

definition auth_token ::
  "(string \<Rightarrow> string \<Rightarrow> bool) \<Rightarrow> 'l auth_options \<Rightarrow> ctx \<Rightarrow> string" where
  "auth_token fold_rest o' c =
     extractToken fold_rest
       (case server_tr c of None \<Rightarrow> [] | Some tr \<Rightarrow> tr_request tr (auth_header o')) (auth_scheme o')"

text \<open>The handler that \<open>Server\<close> builds around \<open>h\<close>.\<close>

definition auth_handle ::
  "(string \<Rightarrow> string \<Rightarrow> bool) \<Rightarrow> (error \<Rightarrow> string) \<Rightarrow> 'l auth_options \<Rightarrow> 'l validator \<Rightarrow>
   ('l, 'q, 'r) middleware" where
  "auth_handle fold_rest err_text o' v h c q =
     (if auth_skipped o' c then h c q
      else
       (let token = auth_token fold_rest o' c in
        if token = [] then io_ret (None, Some ErrUnauthorized)
        else io_bind (v c token) (\<lambda>(cl, err).
          case err of
            Some e \<Rightarrow> io_ret (None, Some (mapErr err_text e))
          | None \<Rightarrow> (case cl of
                None \<Rightarrow> io_ret (None, Some ErrUnauthorized)
              | Some k \<Rightarrow> h (c\<lparr>auth_key := Some k\<rparr>) q))))"

definition auth_default_options :: "'l auth_options" where
  "auth_default_options =
     \<lparr>validator = None, auth_skipFn = None, auth_header = ''authorization'', auth_scheme = ''Bearer ''\<rparr>"

text \<open>\<open>Server\<close> itself panics at construction when no validator was given.\<close>

definition auth_Server ::
  "(string \<Rightarrow> string \<Rightarrow> bool) \<Rightarrow> (error \<Rightarrow> string) \<Rightarrow> 'l auth_Option list \<Rightarrow>
   ('l, 'q, 'r) middleware res" where
  "auth_Server fold_rest err_text opts =
     (let o' = apply_opts auth_default_options opts
      in case validator o' of
           None \<Rightarrow> Panic ''auth.Server: WithValidator is required''
         | Some v \<Rightarrow> Ok (auth_handle fold_rest err_text o' v))"

section \<open>Authentication is a gate\<close>

definition auth_decide ::
  "(string \<Rightarrow> string \<Rightarrow> bool) \<Rightarrow> (error \<Rightarrow> string) \<Rightarrow> 'l auth_options \<Rightarrow> 'l validator \<Rightarrow>
   ctx \<Rightarrow> ('l world, error + ctx) io" where
  "auth_decide fold_rest err_text o' v c =
     (if auth_skipped o' c then io_ret (Inr c)
      else if auth_token fold_rest o' c = [] then io_ret (Inl ErrUnauthorized)
      else io_bind (v c (auth_token fold_rest o' c)) (\<lambda>(cl, err).
        io_ret (case (err, cl) of
           (Some e, _) \<Rightarrow> Inl (mapErr err_text e)
         | (None, None) \<Rightarrow> Inl ErrUnauthorized
         | (None, Some k) \<Rightarrow> Inr (c\<lparr>auth_key := Some k\<rparr>))))"

interpretation auth: gate_mw "auth_handle fold_rest err_text o' v" "auth_decide fold_rest err_text o' v"
  for fold_rest err_text and o' :: "'l auth_options" and v
proof unfold_locales
  fix h :: "('l, 'q, 'r) handler" and c q
  have "(\<lambda>(cl, err). case err of
          Some e \<Rightarrow> io_ret (None, Some (mapErr err_text e))
        | None \<Rightarrow> (case cl of None \<Rightarrow> io_ret (None, Some ErrUnauthorized)
            | Some k \<Rightarrow> h (c\<lparr>auth_key := Some k\<rparr>) q)) =
    (\<lambda>p. case (case (snd p, fst p) of (Some e, _) \<Rightarrow> Inl (mapErr err_text e)
           | (None, None) \<Rightarrow> Inl ErrUnauthorized
           | (None, Some k) \<Rightarrow> Inr (c\<lparr>auth_key := Some k\<rparr>)) of
        Inl e \<Rightarrow> io_ret (None, Some e) | Inr c' \<Rightarrow> h c' q)"
    by (auto simp: fun_eq_iff split: option.splits)
  then show "auth_handle fold_rest err_text o' v h c q =
      io_bind (auth_decide fold_rest err_text o' v c)
        (\<lambda>d. case d of Inl e \<Rightarrow> io_ret (None, Some e) | Inr c' \<Rightarrow> h c' q)"
    by (simp add: auth_handle_def auth_decide_def Let_def io_monad case_prod_unfold)
qed

lemma mapErr_kratos: "As_KErr (mapErr err_text e) \<noteq> None"
  by (cases "As_KErr e") (simp_all add: mapErr_def)

lemma ErrUnauthorized_kratos [simp]: "As_KErr ErrUnauthorized = Some (401, ''UNAUTHORIZED'')"
  by (simp add: ErrUnauthorized_def)

lemma auth_decide_cases:
  assumes "\<not> auth_skipped o' c" and "auth_token fold_rest o' c = t" and "t \<noteq> []"
    and "v c t w = (Ok (cl, err), w')"
  shows "auth_decide fold_rest err_text o' v c w =
    (Ok (case (err, cl) of (Some e, _) \<Rightarrow> Inl (mapErr err_text e)
       | (None, None) \<Rightarrow> Inl ErrUnauthorized
       | (None, Some k) \<Rightarrow> Inr (c\<lparr>auth_key := Some k\<rparr>)), w')"
  using assms by (simp add: auth_decide_def io_bind_def io_ret_def)

section \<open>Tokens\<close>

lemma extractToken_trimmed:
  "extractToken fold_rest header scheme = [] \<or> no_space_edges (extractToken fold_rest header scheme)"
  by (auto simp: extractToken_def TrimSpace_edges)

lemma extractToken_accepts:
  assumes "list_all is_ascii scheme'" and "map to_lower scheme' = map to_lower scheme"
    and "scheme \<noteq> []" and "token \<noteq> []" and "no_space_edges token"
  shows "extractToken fold_rest (scheme' @ token) scheme = token"
proof -
  have len: "length scheme' = length scheme"
    using assms(2) by (metis length_map)
  have "EqualFold fold_rest scheme' scheme"
    using assms(1,2) by (rule EqualFold_ascii_left)
  with assms len show ?thesis
    by (auto simp: extractToken_def TrimSpace_id simp flip: len)
qed


section \<open>Properties\<close>

text \<open>
  What a rejected call looks like to the caller: no reply and a kratos error, or the validator's
  own panic or crash.
\<close>

definition auth_refusal :: "'l validator \<Rightarrow> ctx \<Rightarrow> string \<Rightarrow> 'l world \<Rightarrow> 'r gores res \<Rightarrow> bool" where
  "auth_refusal v c t w out = (case out of
      Ok (reply, err) \<Rightarrow> reply = None \<and> (case err of None \<Rightarrow> False | Some e \<Rightarrow> As_KErr e \<noteq> None)
    | Panic s \<Rightarrow> fst (v c t w) = Panic s
    | Crash s \<Rightarrow> fst (v c t w) = Crash s)"

lemma auth_handle_mediates:
  assumes "\<not> auth_skipped o' c" and t: "t = auth_token fold_rest o' c"
  shows "(\<exists>k w'. t \<noteq> [] \<and> v c t w = (Ok (Some k, None), w') \<and>
       (\<forall>h :: ('l, 'q, 'r) handler.
          auth_handle fold_rest err_text o' v h c q w = h (c\<lparr>auth_key := Some k\<rparr>) q w')) \<or>
    (\<exists>out w'. (\<forall>h :: ('l, 'q, 'r) handler. auth_handle fold_rest err_text o' v h c q w = (out, w')) \<and>
       auth_refusal v c t w out)"
proof (cases "t = []")
  case True
  then have "auth_decide fold_rest err_text o' v c w = (Ok (Inl ErrUnauthorized), w)"
    using assms by (simp add: auth_decide_def io_ret_def)
  then show ?thesis
    by (auto simp: auth.rejected auth_refusal_def)
next
  case False
  obtain r w' where v: "v c t w = (r, w')"
    by (cases "v c t w")
  show ?thesis
  proof (cases r)
    case (Ok p)
    obtain cl err where p: "p = (cl, err)"
      by (cases p)
    note decide = auth_decide_cases [OF assms(1) t [symmetric] False, of v w cl err w' err_text]
    show ?thesis
    proof (cases "err = None \<and> cl \<noteq> None")
      case True
      then obtain k where "cl = Some k" "err = None"
        by auto
      with decide v Ok p False show ?thesis
        by (auto simp: auth.admitted)
    next
      case reject: False
      with decide v Ok p obtain e where
        "auth_decide fold_rest err_text o' v c w = (Ok (Inl e), w')" "As_KErr e \<noteq> None"
        using mapErr_kratos [of err_text] by (auto split: option.splits)
      then show ?thesis
        by (auto simp: auth.rejected auth_refusal_def)
    qed
  qed (use assms(1) t False v in
      \<open>auto simp: auth_handle_def Let_def io_bind_def auth_refusal_def\<close>)
qed

text \<open>
  C3. Complete mediation. For an operation that is not exempt, the wrapped handler runs only when
  the request carries a non-empty token and the validator accepted exactly that token; it then sees
  exactly the claims the validator returned. In every other case the outcome does not depend on the
  handler at all, and the caller gets no reply and a kratos error (never a nil error), or the validator's own panic.
\<close>

theorem auth_complete_mediation:
  fixes mw :: "('l, 'q, 'r) middleware"
  assumes "auth_Server fold_rest err_text opts = Ok mw"
    and "o' = apply_opts auth_default_options opts" and "\<not> auth_skipped o' c"
  shows "\<exists>v t. validator o' = Some v \<and> t = auth_token fold_rest o' c \<and>
    ((\<exists>k w'. t \<noteq> [] \<and> v c t w = (Ok (Some k, None), w') \<and>
        (\<forall>h. mw h c q w = h (c\<lparr>auth_key := Some k\<rparr>) q w') \<and>
        auth_FromContext (c\<lparr>auth_key := Some k\<rparr>) = Some k) \<or>
     (\<exists>out w'. (\<forall>h. mw h c q w = (out, w')) \<and> auth_refusal v c t w out))"
proof -
  obtain v where "validator o' = Some v" and mw: "mw = auth_handle fold_rest err_text o' v"
    using assms(1,2) by (auto simp: auth_Server_def Let_def split: option.splits)
  then show ?thesis
    using auth_handle_mediates [OF assms(3) refl, of fold_rest v w err_text q]
    by (auto simp: auth_FromContext_def)
qed

definition demo_validator :: "unit validator" where
  "demo_validator c t = io_ret (if HasPrefix t ''demo-''
     then (Some \<lparr>Subject = drop 5 t, Scopes = [], Raw = []\<rparr>, None) else (None, Some ErrUnauthorized))"

definition demo_auth :: "(unit, unit, bool) middleware" where
  "demo_auth = auth_handle (\<lambda>_ _. False) (\<lambda>_. [])
     (apply_opts auth_default_options [WithValidator demo_validator]) demo_validator"

theorem auth_complete_mediation_witness:
  "\<exists>out w'. \<forall>h. demo_auth h Background () demo_world = (out, w')"
proof -
  let ?o = "apply_opts auth_default_options [WithValidator demo_validator]"
  have srv: "auth_Server (\<lambda>_ _. False) (\<lambda>_. []) [WithValidator demo_validator] = Ok demo_auth"
    by (simp add: auth_Server_def WithValidator_def auth_default_options_def Let_def demo_auth_def)
  have skip: "\<not> auth_skipped ?o Background"
    by (simp add: auth_skipped_def WithValidator_def auth_default_options_def)
  have "auth_token (\<lambda>_ _. False) ?o Background = []"
    by (simp add: auth_token_def extractToken_def Background_def)
  then show ?thesis
    using auth_complete_mediation [OF srv refl skip, of demo_world "()"] by auto
qed

text \<open>
  Exempt operations bypass authentication: the handler runs with the context and the world
  untouched and the validator is not consulted. Building the middleware without a validator panics.
\<close>

theorem auth_exempt_and_unconfigured:
  "(auth_Server fold_rest err_text opts = Ok mw \<and>
      auth_skipped (apply_opts auth_default_options opts) c \<longrightarrow> mw h c q w = h c q w) \<and>
   (validator (apply_opts auth_default_options opts) = None \<longrightarrow>
      auth_Server fold_rest err_text opts = Panic ''auth.Server: WithValidator is required'')"
  by (auto simp: auth_Server_def auth_handle_def Let_def split: option.splits)

theorem auth_exempt_and_unconfigured_witness:
  "auth_Server (\<lambda>_ _. False) (\<lambda>_. []) ([] :: (unit auth_options \<Rightarrow> unit auth_options) list)
    = (Panic ''auth.Server: WithValidator is required'' :: (unit, unit, unit) middleware res)"
  using auth_exempt_and_unconfigured [of "\<lambda>_ _. False" "\<lambda>_. []" "[]" "\<lambda>h. h" Background
      "\<lambda>c (q :: unit) w. (Ok (None :: unit option, None), w)" "()" "demo_world :: unit world"]
  by (simp add: auth_default_options_def)

text \<open>
  Token extraction on ASCII headers: the token is what follows the scheme, trimmed, when the
  header starts with the scheme in any letter case, and empty otherwise (too short, other scheme,
  blank token). In particular \<open>bearer x\<close> and \<open>BEARER x\<close> are accepted.
\<close>

theorem extractToken_spec:
  assumes "list_all is_ascii header" and "list_all is_ascii scheme" and "scheme \<noteq> []"
  shows "extractToken fold_rest header scheme =
    (if map to_lower (take (length scheme) header) = map to_lower scheme
     then TrimSpace (drop (length scheme) header) else [])"
proof -
  have "list_all is_ascii (take (length scheme) header)"
    using assms(1) by (auto simp: list_all_iff dest: in_set_takeD)
  then have fold: "EqualFold fold_rest (take (length scheme) header) scheme \<longleftrightarrow>
      map to_lower (take (length scheme) header) = map to_lower scheme"
    using assms(2) by (rule EqualFold_ascii)
  have "length header < length scheme \<Longrightarrow>
      map to_lower (take (length scheme) header) \<noteq> map to_lower scheme"
    by (metis length_map length_take min_less_iff_conj nat_neq_iff)
  then show ?thesis
    using assms(3) fold by (auto simp: extractToken_def)
qed

theorem extractToken_spec_witness:
  "extractToken (\<lambda>_ _. False) ''bEARER abc'' ''Bearer '' =
    (if map to_lower (take (length ''Bearer '') ''bEARER abc'') = map to_lower ''Bearer ''
     then TrimSpace (drop (length ''Bearer '') ''bEARER abc'') else [])"
  by (rule extractToken_spec) (simp_all add: is_ascii_def)

end
