(* ===== verification/Ratelimit.thy ===== *)
theory Ratelimit
  imports Kratos
begin

text \<open>
  Package \<open>ratelimit\<close> (pkg/middleware/ratelimit/ratelimit.go and peer.go): a token bucket per key.
  \<open>rate.NewLimiter\<close> and \<open>Limiter.Allow\<close> of x/time/rate are the parameter \<open>'l rate_ops\<close>: how a
  limiter is made, and what it answers at a given time. A limiter is mutable; the map holds its
  current state. \<open>net.SplitHostPort\<close> is translated from its documented algorithm.
\<close>

section \<open>Model\<close>

record 'l rate_ops =
  NewLimiter :: "int \<Rightarrow> int \<Rightarrow> 'l"
  Allow :: "int \<Rightarrow> 'l \<Rightarrow> bool \<times> 'l"

type_synonym KeyFn = "ctx \<Rightarrow> string \<Rightarrow> string"
type_synonym rl_SkipFn = "string \<Rightarrow> bool"

record ratelimit_options =
  rl_rps :: int
  rl_burst :: int
  keyFn :: "(ctx \<Rightarrow> string \<Rightarrow> string) option"
  rl_skipFn :: "(string \<Rightarrow> bool) option"

type_synonym rl_Option = "ratelimit_options \<Rightarrow> ratelimit_options"

definition WithRate :: "int \<Rightarrow> int \<Rightarrow> rl_Option" where
  "WithRate r b o' = o'\<lparr>rl_rps := r, rl_burst := b\<rparr>"

definition WithKey :: "KeyFn \<Rightarrow> rl_Option" where
  "WithKey f o' = o'\<lparr>keyFn := Some f\<rparr>"

definition ratelimit_WithSkip :: "rl_SkipFn \<Rightarrow> rl_Option" where
  "ratelimit_WithSkip f o' = o'\<lparr>rl_skipFn := Some f\<rparr>"

definition ErrTooManyRequests :: error where
  "ErrTooManyRequests = KErr 429 ''RATE_LIMITED'' ''too many requests'' None"

definition newBucket :: "int \<Rightarrow> int \<Rightarrow> 'l bucket" where
  "newBucket r b = \<lparr>limiters = Map.empty, rps = r, burst = b\<rparr>"

definition bucket_allow :: "'l rate_ops \<Rightarrow> 'l bucket \<Rightarrow> string \<Rightarrow> int \<Rightarrow> bool \<times> 'l bucket" where
  "bucket_allow ops bk key now =
     (let (l, bk1) = (case limiters bk key of
             Some l \<Rightarrow> (l, bk)
           | None \<Rightarrow> (let l = NewLimiter ops (rps bk) (burst bk)
                      in (l, bk\<lparr>limiters := (limiters bk)(key \<mapsto> l)\<rparr>)));
          (ok, l') = Allow ops now l
      in (ok, bk1\<lparr>limiters := (limiters bk1)(key \<mapsto> l')\<rparr>))"

definition indexComma :: "string \<Rightarrow> nat option" where
  "indexComma s = IndexByte s (CHR '','')"

definition is_blank :: "char \<Rightarrow> bool" where
  "is_blank ch \<longleftrightarrow> ch = CHR '' '' \<or> ch = CHR 0x09"

definition ratelimit_trim :: "string \<Rightarrow> string" where
  "ratelimit_trim s = (let s1 = dropWhile is_blank s in rev (dropWhile is_blank (rev s1)))"

text \<open>\<open>peer.FromContext\<close>: no peer, a peer without address, a peer with an address.\<close>

definition remotePeer :: "ctx \<Rightarrow> string option" where
  "remotePeer c = (case peer_addr c of Some (Some a) \<Rightarrow> Some a | _ \<Rightarrow> None)"

definition LastIndexByte :: "string \<Rightarrow> char \<Rightarrow> nat option" where
  "LastIndexByte s ch = map_option (\<lambda>i. length s - 1 - i) (IndexByte (rev s) ch)"

text \<open>The host returned by \<open>net.SplitHostPort\<close>, \<open>None\<close> when it returns an error.\<close>

definition SplitHostPort :: "string \<Rightarrow> string option" where
  "SplitHostPort hp =
     (case LastIndexByte hp (CHR '':'') of
        None \<Rightarrow> None
      | Some i \<Rightarrow>
          if HasPrefix hp ''['' then
            (case IndexByte hp (CHR '']'') of
               None \<Rightarrow> None
             | Some e \<Rightarrow>
                 if e + 1 \<noteq> i then None
                 else if IndexByte (drop 1 hp) (CHR ''['') \<noteq> None then None
                 else if IndexByte (drop (e + 1) hp) (CHR '']'') \<noteq> None then None
                 else Some (drop 1 (take e hp)))
          else
            (let host = take i hp in
             if IndexByte host (CHR '':'') \<noteq> None then None
             else if IndexByte hp (CHR ''['') \<noteq> None then None
             else if IndexByte hp (CHR '']'') \<noteq> None then None
             else Some host))"

definition defaultKey_peer :: "ctx \<Rightarrow> string" where
  "defaultKey_peer c =
     (case remotePeer c of
        Some p \<Rightarrow> (case SplitHostPort p of Some host \<Rightarrow> host | None \<Rightarrow> p)
      | None \<Rightarrow> ''global'')"

definition defaultKey :: "ctx \<Rightarrow> string \<Rightarrow> string" where
  "defaultKey c op =
     (case server_tr c of
        None \<Rightarrow> defaultKey_peer c
      | Some tr \<Rightarrow>
          (let xff = tr_request tr ''x-forwarded-for'' in
           if xff \<noteq> [] then
             (case indexComma xff of
                Some i \<Rightarrow> (if i > 0 then ratelimit_trim (take i xff) else ratelimit_trim xff)
              | None \<Rightarrow> ratelimit_trim xff)
           else
             (let r = tr_request tr ''x-real-ip'' in
              if r \<noteq> [] then r else defaultKey_peer c)))"

definition rl_skipped :: "ratelimit_options \<Rightarrow> ctx \<Rightarrow> bool" where
  "rl_skipped o' c = (case rl_skipFn o' of None \<Rightarrow> False | Some f \<Rightarrow> f (server_op c))"

definition rl_key :: "ratelimit_options \<Rightarrow> ctx \<Rightarrow> string" where
  "rl_key o' c = (case keyFn o' of None \<Rightarrow> defaultKey | Some f \<Rightarrow> f) c (server_op c)"

text \<open>The handler that \<open>Server\<close> builds around \<open>h\<close>, with its bucket at address \<open>b\<close>.\<close>

definition ratelimit_handle ::
  "'l rate_ops \<Rightarrow> ratelimit_options \<Rightarrow> nat \<Rightarrow> ('l, 'q, 'r) middleware" where
  "ratelimit_handle ops o' b h c q =
     (if rl_skipped o' c then h c q
      else io_bind (io_call (\<lambda>w.
              let (ok, bk) = bucket_allow ops (buckets w b) (rl_key o' c) (clock w)
              in (ok, w\<lparr>buckets := (buckets w)(b := bk)\<rparr>)))
            (\<lambda>ok. if \<not> ok then io_ret (None, Some ErrTooManyRequests) else h c q))"

definition ratelimit_default_options :: ratelimit_options where
  "ratelimit_default_options = \<lparr>rl_rps = 100, rl_burst = 200, keyFn = None, rl_skipFn = None\<rparr>"

text \<open>\<open>Server\<close> allocates a fresh bucket (at \<open>b\<close>) and returns the middleware.\<close>

definition ratelimit_Server ::
  "'l rate_ops \<Rightarrow> rl_Option list \<Rightarrow> nat \<Rightarrow>
   ('l world, ('l, 'q, 'r) middleware) io" where
  "ratelimit_Server ops opts b =
     (let o' = apply_opts ratelimit_default_options opts
      in io_then (io_mod (\<lambda>w. w\<lparr>buckets := (buckets w)(b := newBucket (rl_rps o') (rl_burst o'))\<rparr>))
           (io_ret (ratelimit_handle ops o' b)))"

section \<open>What is relied on of a limiter\<close>

text \<open>
  A \<open>rate.Limiter\<close> is documented as a token bucket of size \<open>b\<close>, initially full and refilled at \<open>r\<close>
  tokens per second. \<open>tokens t l\<close> is its content at time \<open>t\<close> (nanoseconds) in billionths of a token,
  so that one nanosecond refills \<open>r\<close> of them; \<open>lims\<close> are the states a limiter of this rate can be in.
\<close>

definition token :: int where
  "token = 1000000000"

definition token_bucket_law ::
  "'l rate_ops \<Rightarrow> 'l set \<Rightarrow> (int \<Rightarrow> 'l \<Rightarrow> int) \<Rightarrow> int \<Rightarrow> int \<Rightarrow> bool" where
  "token_bucket_law ops lims tokens r b \<longleftrightarrow>
     NewLimiter ops r b \<in> lims \<and>
     (\<forall>t. tokens t (NewLimiter ops r b) \<le> b * token) \<and>
     (\<forall>t l. l \<in> lims \<longrightarrow> snd (Allow ops t l) \<in> lims) \<and>
     (\<forall>t l. l \<in> lims \<longrightarrow> fst (Allow ops t l) \<longrightarrow>
        token \<le> tokens t l \<and> tokens t (snd (Allow ops t l)) \<le> tokens t l - token) \<and>
     (\<forall>t l. l \<in> lims \<longrightarrow> \<not> fst (Allow ops t l) \<longrightarrow> tokens t (snd (Allow ops t l)) \<le> tokens t l) \<and>
     (\<forall>t t' l. l \<in> lims \<longrightarrow> t \<le> t' \<longrightarrow> tokens t' l \<le> tokens t l + r * (t' - t))"

text \<open>
  A concrete limiter that satisfies it: rate, size, content when last asked, and that time
  (\<open>None\<close> before the first request, when the bucket is full).
\<close>

record simple_limiter =
  sl_rate :: int
  sl_size :: int
  sl_level :: int
  sl_last :: "int option"

definition sl_tokens :: "int \<Rightarrow> simple_limiter \<Rightarrow> int" where
  "sl_tokens t l = (case sl_last l of
      None \<Rightarrow> sl_size l * token
    | Some t0 \<Rightarrow> min (sl_size l * token) (sl_level l + sl_rate l * max 0 (t - t0)))"

definition simple_ops :: "simple_limiter rate_ops" where
  "simple_ops = \<lparr>
     NewLimiter = (\<lambda>r b. \<lparr>sl_rate = r, sl_size = b, sl_level = 0, sl_last = None\<rparr>),
     Allow = (\<lambda>t l. if token \<le> sl_tokens t l
        then (True, l\<lparr>sl_level := sl_tokens t l - token, sl_last := Some t\<rparr>)
        else (False, l))\<rparr>"

section \<open>Keyed state machines\<close>

text \<open>
  The contract of a store that keeps one state per key and advances only the state of the key an
  operation names, with \<open>solo\<close> what one such state machine does alone.
\<close>

fun keyed_run :: "('s \<Rightarrow> 'k \<Rightarrow> 't \<Rightarrow> 'b \<times> 's) \<Rightarrow> 's \<Rightarrow> ('t \<times> 'k) list \<Rightarrow> ('k \<times> 'b) list" where
  "keyed_run step s [] = []"
| "keyed_run step s ((t, k) # rs) = (k, fst (step s k t)) # keyed_run step (snd (step s k t)) rs"

fun solo_run :: "('t \<Rightarrow> 'v \<Rightarrow> 'b \<times> 'v) \<Rightarrow> 'v \<Rightarrow> 't list \<Rightarrow> 'b list" where
  "solo_run solo v [] = []"
| "solo_run solo v (t # ts) = fst (solo t v) # solo_run solo (snd (solo t v)) ts"

locale keyed_machine =
  fixes state_of :: "'s \<Rightarrow> 'k \<Rightarrow> 'v"
    and step :: "'s \<Rightarrow> 'k \<Rightarrow> 't \<Rightarrow> 'b \<times> 's"
    and solo :: "'t \<Rightarrow> 'v \<Rightarrow> 'b \<times> 'v"
  assumes answer: "fst (step s k t) = fst (solo t (state_of s k))"
    and advance: "state_of (snd (step s k t)) k' =
      (if k = k' then snd (solo t (state_of s k)) else state_of s k')"
begin

text \<open>An interleaved run, seen from one key, is the run of that key's machine alone.\<close>

lemma run_projects:
  "map snd (filter (\<lambda>a. fst a = k) (keyed_run step s rs)) =
     solo_run solo (state_of s k) (map fst (filter (\<lambda>r. snd r = k) rs))"
proof (induction rs arbitrary: s)
  case Nil
  then show ?case by simp
next
  case (Cons r rs)
  obtain t k' where "r = (t, k')"
    by (cases r)
  with Cons [of "snd (step s k' t)"] show ?case
    by (auto simp: answer advance)
qed

end

text \<open>The limiter a key has, or would get.\<close>

definition limiter_of :: "'l rate_ops \<Rightarrow> 'l bucket \<Rightarrow> string \<Rightarrow> 'l" where
  "limiter_of ops bk k =
     (case limiters bk k of Some l \<Rightarrow> l | None \<Rightarrow> NewLimiter ops (rps bk) (burst bk))"

interpretation bucket: keyed_machine "limiter_of ops" "bucket_allow ops" "Allow ops"
  for ops :: "'l rate_ops"
  by unfold_locales
     (auto simp: limiter_of_def bucket_allow_def Let_def split: prod.splits option.splits if_splits)

section \<open>Rate limiting is a gate\<close>

definition ratelimit_decide ::
  "'l rate_ops \<Rightarrow> ratelimit_options \<Rightarrow> nat \<Rightarrow> ctx \<Rightarrow> ('l world, error + ctx) io" where
  "ratelimit_decide ops o' b c =
     (if rl_skipped o' c then io_ret (Inr c)
      else io_bind (io_call (\<lambda>w.
              let (ok, bk) = bucket_allow ops (buckets w b) (rl_key o' c) (clock w)
              in (ok, w\<lparr>buckets := (buckets w)(b := bk)\<rparr>)))
            (\<lambda>ok. io_ret (if ok then Inr c else Inl ErrTooManyRequests)))"

interpretation ratelimit: gate_mw "ratelimit_handle ops o' b" "ratelimit_decide ops o' b"
  for ops :: "'l rate_ops" and o' b
proof unfold_locales
  fix h :: "('l, 'q, 'r) handler" and c q
  have "(if \<not> ok then io_ret (None, Some ErrTooManyRequests) else h c q) =
      (case if ok then Inr c else Inl ErrTooManyRequests of
         Inl e \<Rightarrow> io_ret (None, Some e) | Inr c' \<Rightarrow> h c' q)" for ok
    by simp
  then show "ratelimit_handle ops o' b h c q = io_bind (ratelimit_decide ops o' b c)
      (\<lambda>d. case d of Inl e \<Rightarrow> io_ret (None, Some e) | Inr c' \<Rightarrow> h c' q)"
    by (simp add: ratelimit_handle_def ratelimit_decide_def io_monad)
qed

lemma ratelimit_decide_apply:
  assumes "\<not> rl_skipped o' c"
    and "bucket_allow ops (buckets w b) (rl_key o' c) (clock w) = (ok, bk)"
  shows "ratelimit_decide ops o' b c w =
    (Ok (if ok then Inr c else Inl ErrTooManyRequests), w\<lparr>buckets := (buckets w)(b := bk)\<rparr>)"
  using assms by (simp add: ratelimit_decide_def io_bind_call io_ret_apply)

section \<open>Properties\<close>

text \<open>
  C11. Keys do not disturb each other. For any interleaving of requests, the decisions for one key
  are exactly those of a single limiter that sees only that key's requests, starting from a fresh
  limiter with the configured rate and burst: the shared, lazily filled map refines a family of
  independent limiters.
\<close>

theorem bucket_refines_independent_limiters:
  "map snd (filter (\<lambda>a. fst a = k) (keyed_run (bucket_allow ops) (newBucket r b) reqs)) =
     solo_run (Allow ops) (NewLimiter ops r b) (map fst (filter (\<lambda>q. snd q = k) reqs))"
  using bucket.run_projects [of k ops "newBucket r b" reqs]
  by (simp add: limiter_of_def newBucket_def)

text \<open>
  What a request experiences: an exempt operation reaches the handler with no token spent;
  otherwise one decision of the key's limiter is spent and the request either reaches the handler
  with its context unchanged or is answered 429 RATE_LIMITED without the handler running; the
  limiters of all other keys and all other buckets are as before.
\<close>

theorem ratelimit_handle_spec:
  "(rl_skipped o' c \<longrightarrow> ratelimit_handle ops o' b h c q w = h c q w) \<and>
   (\<not> rl_skipped o' c \<longrightarrow>
     (\<exists>w'. (if fst (Allow ops (clock w) (limiter_of ops (buckets w b) (rl_key o' c)))
            then ratelimit_handle ops o' b h c q w = h c q w'
            else ratelimit_handle ops o' b h c q w = (Ok (None, Some ErrTooManyRequests), w')) \<and>
       trace w' = trace w \<and> clock w' = clock w \<and>
       (\<forall>k. k \<noteq> rl_key o' c \<longrightarrow> limiter_of ops (buckets w' b) k = limiter_of ops (buckets w b) k) \<and>
       (\<forall>b'. b' \<noteq> b \<longrightarrow> buckets w' b' = buckets w b')))"
proof (intro conjI impI)
  assume "rl_skipped o' c"
  then show "ratelimit_handle ops o' b h c q w = h c q w"
    by (simp add: ratelimit_handle_def)
next
  assume run: "\<not> rl_skipped o' c"
  obtain ok bk where bk: "bucket_allow ops (buckets w b) (rl_key o' c) (clock w) = (ok, bk)"
    by (cases "bucket_allow ops (buckets w b) (rl_key o' c) (clock w)")
  define w' where "w' = w\<lparr>buckets := (buckets w)(b := bk)\<rparr>"
  have ok: "ok = fst (Allow ops (clock w) (limiter_of ops (buckets w b) (rl_key o' c)))"
    using bucket.answer [of ops "buckets w b" "rl_key o' c" "clock w"] bk by simp
  have others: "limiter_of ops bk k = limiter_of ops (buckets w b) k" if "k \<noteq> rl_key o' c" for k
    using bucket.advance [of ops "buckets w b" "rl_key o' c" "clock w" k] bk that by simp
  have "ratelimit_decide ops o' b c w = (Ok (if ok then Inr c else Inl ErrTooManyRequests), w')"
    using ratelimit_decide_apply [OF run bk] by (simp add: w'_def)
  then have "ratelimit_handle ops o' b h c q w =
      (if ok then h c q w' else (Ok (None, Some ErrTooManyRequests), w'))"
    by (cases ok) (simp_all add: ratelimit.admitted ratelimit.rejected)
  then show "\<exists>w'. (if fst (Allow ops (clock w) (limiter_of ops (buckets w b) (rl_key o' c)))
            then ratelimit_handle ops o' b h c q w = h c q w'
            else ratelimit_handle ops o' b h c q w = (Ok (None, Some ErrTooManyRequests), w')) \<and>
       trace w' = trace w \<and> clock w' = clock w \<and>
       (\<forall>k. k \<noteq> rl_key o' c \<longrightarrow> limiter_of ops (buckets w' b) k = limiter_of ops (buckets w b) k) \<and>
       (\<forall>b'. b' \<noteq> b \<longrightarrow> buckets w' b' = buckets w b')"
    using ok others by (intro exI [of _ w']) (simp add: w'_def)
qed

theorem ratelimit_handle_spec_witness:
  "\<not> rl_skipped ratelimit_default_options Background \<and>
   (\<exists>w'. ratelimit_handle simple_ops ratelimit_default_options 0 (\<lambda>c q. io_ret (Some q, None)) Background (5::nat)
       demo_world = (Ok (None, Some ErrTooManyRequests), w'))"
proof
  show run: "\<not> rl_skipped ratelimit_default_options Background"
    by (simp add: rl_skipped_def ratelimit_default_options_def)
  have deny: "\<not> fst (Allow simple_ops (clock demo_world) (limiter_of simple_ops (buckets demo_world 0)
      (rl_key ratelimit_default_options Background)))"
    by (simp add: demo_world_def limiter_of_def simple_ops_def sl_tokens_def token_def)
  show "\<exists>w'. ratelimit_handle simple_ops ratelimit_default_options 0 (\<lambda>c q. io_ret (Some q, None))
      Background (5::nat) demo_world = (Ok (None, Some ErrTooManyRequests), w')"
    using ratelimit_handle_spec [of ratelimit_default_options Background simple_ops 0
        "\<lambda>c q. io_ret (Some q, None)" "5::nat" demo_world, THEN conjunct2, THEN mp, OF run]
    unfolding if_not_P [OF deny] by blast
qed

section \<open>The rate a key gets\<close>

lemma law_new:
  assumes "token_bucket_law ops lims tokens r b"
  shows "NewLimiter ops r b \<in> lims" "tokens t (NewLimiter ops r b) \<le> b * token"
  using assms by (auto simp: token_bucket_law_def)

lemma law_refill:
  assumes "token_bucket_law ops lims tokens r b" "l \<in> lims" "t \<le> t'"
  shows "tokens t' l \<le> tokens t l + r * (t' - t)"
  using assms by (auto simp: token_bucket_law_def)

lemma law_allow:
  assumes "token_bucket_law ops lims tokens r b" "l \<in> lims"
  shows "snd (Allow ops t l) \<in> lims"
    and "fst (Allow ops t l) \<Longrightarrow> token \<le> tokens t l"
    and "fst (Allow ops t l) \<Longrightarrow> tokens t (snd (Allow ops t l)) \<le> tokens t l - token"
    and "\<not> fst (Allow ops t l) \<Longrightarrow> tokens t (snd (Allow ops t l)) \<le> tokens t l"
  using assms by (auto simp: token_bucket_law_def)

lemma solo_rate_bound:
  assumes law: "token_bucket_law ops lims tokens r b" and "0 \<le> r" and "l \<in> lims"
    and "sorted ts" and "\<forall>t \<in> set ts. t0 \<le> t \<and> t \<le> t1" and "t0 \<le> t1"
  shows "token * int (length (filter (\<lambda>a. a) (solo_run (Allow ops) l ts)))
    \<le> max 0 (tokens t0 l + r * (t1 - t0))"
  using assms(3-)
proof (induction ts arbitrary: l t0)
  case Nil
  then show ?case by simp
next
  case (Cons t ts)
  define l' where "l' = snd (Allow ops t l)"
  have l': "l' \<in> lims"
    using law_allow(1) [OF law Cons.prems(1)] by (simp add: l'_def)
  have bounds: "t0 \<le> t" "t \<le> t1"
    using Cons.prems by simp_all
  have IH: "token * int (length (filter (\<lambda>a. a) (solo_run (Allow ops) l' ts)))
      \<le> max 0 (tokens t l' + r * (t1 - t))"
    using Cons.IH [OF l', of t] Cons.prems bounds by simp
  have refill: "tokens t l + r * (t1 - t) \<le> tokens t0 l + r * (t1 - t0)"
    using law_refill [OF law Cons.prems(1) bounds(1)] by (simp add: algebra_simps)
  have later: "0 \<le> r * (t1 - t)"
    using \<open>0 \<le> r\<close> bounds by simp
  show ?case
  proof (cases "fst (Allow ops t l)")
    case True
    then show ?thesis
      using IH refill later law_allow(2,3) [OF law Cons.prems(1) True]
      by (simp add: l'_def algebra_simps)
  next
    case False
    then show ?thesis
      using IH refill law_allow(4) [OF law Cons.prems(1) False]
      by (simp add: l'_def)
  qed
qed

lemma length_filter_key:
  "length (filter (\<lambda>a. a = (k, True)) xs) = length (filter (\<lambda>a. a) (map snd (filter (\<lambda>a. fst a = k) xs)))"
  by (induction xs) auto

lemma simple_ops_law:
  assumes "0 \<le> r"
  shows "token_bucket_law simple_ops {l. sl_rate l = r \<and> sl_size l = b} sl_tokens r b"
proof -
  have refill: "sl_tokens t' l \<le> sl_tokens t l + r * (t' - t)"
    if "sl_rate l = r" and "t \<le> t'" for t t' l
  proof (cases "sl_last l")
    case None
    then show ?thesis
      using that assms by (simp add: sl_tokens_def)
  next
    case (Some t0)
    have "max 0 (t' - t0) \<le> max 0 (t - t0) + (t' - t)"
      using that by simp
    then have "r * max 0 (t' - t0) \<le> r * (max 0 (t - t0) + (t' - t))"
      using assms by (rule mult_left_mono)
    moreover have "0 \<le> r * (t' - t)"
      using that assms by simp
    ultimately show ?thesis
      using that Some by (simp add: sl_tokens_def distrib_left)
  qed
  have spent: "sl_tokens t (l\<lparr>sl_level := sl_tokens t l - token, sl_last := Some t\<rparr>)
      \<le> sl_tokens t l - token" for t l
    by (simp add: sl_tokens_def [of t "l\<lparr>sl_level := sl_tokens t l - token, sl_last := Some t\<rparr>"])
  show ?thesis
    using refill spent
    by (auto simp: token_bucket_law_def simple_ops_def) (simp add: sl_tokens_def)
qed

section \<open>Keys\<close>

lemma indexComma_hop:
  assumes "CHR '','' \<notin> set hop" and "rest = [] \<or> hd rest = CHR '',''"
  shows "indexComma (hop @ rest) = (if rest = [] then None else Some (length hop))"
  using assms by (cases rest) (auto simp: indexComma_def)

lemma SplitHostPort_host:
  assumes "set host \<inter> {CHR '':'', CHR ''['', CHR '']''} = {}"
    and "set port \<inter> {CHR '':'', CHR ''['', CHR '']''} = {}"
  shows "SplitHostPort (host @ CHR '':'' # port) = Some host"
proof -
  have "LastIndexByte (host @ CHR '':'' # port) (CHR '':'') = Some (length host)"
    using assms by (simp add: LastIndexByte_def)
  moreover have "\<not> HasPrefix (host @ CHR '':'' # port) ''[''"
    using assms by (cases host) (auto simp: HasPrefix_def)
  ultimately show ?thesis
    using assms by (simp add: SplitHostPort_def)
qed

lemma bucket_rate_bound:
  assumes "token_bucket_law ops lims tokens r b" and "0 \<le> r" and "0 \<le> b"
    and "sorted (map fst reqs)" and "\<forall>q \<in> set reqs. t0 \<le> fst q \<and> fst q \<le> t1" and "t0 \<le> t1"
  shows "token * int (length (filter (\<lambda>a. a = (k, True))
      (keyed_run (bucket_allow ops) (newBucket r b) reqs))) \<le> b * token + r * (t1 - t0)"
proof -
  let ?ts = "map fst (filter (\<lambda>q. snd q = k) reqs)"
  have "sorted ?ts"
    using assms(4) by (rule sorted_filter)
  moreover have "\<forall>t \<in> set ?ts. t0 \<le> t \<and> t \<le> t1"
    using assms(5) by auto
  ultimately have "token * int (length (filter (\<lambda>a. a) (solo_run (Allow ops) (NewLimiter ops r b) ?ts)))
      \<le> max 0 (tokens t0 (NewLimiter ops r b) + r * (t1 - t0))"
    using solo_rate_bound [OF assms(1,2) law_new(1) [OF assms(1)]] assms(6) by blast
  moreover have "0 \<le> b * token + r * (t1 - t0)"
    using assms(2,3,6) by (simp add: token_def)
  moreover have "map snd (filter (\<lambda>a. fst a = k) (keyed_run (bucket_allow ops) (newBucket r b) reqs))
      = solo_run (Allow ops) (NewLimiter ops r b) ?ts"
    using bucket.run_projects [of k ops "newBucket r b" reqs]
    by (simp add: limiter_of_def newBucket_def)
  ultimately show ?thesis
    using law_new(2) [OF assms(1), of t0] by (simp add: length_filter_key)
qed

section \<open>Properties of the limiter and its keys\<close>

text \<open>
  The rate is enforced per key whatever the other keys do: over any window from \<open>t0\<close> to \<open>t1\<close>, and for
  any interleaving of requests of any keys, the number of requests of one key that are let through
  is at most the burst plus the rate times the length of the window (in billionths of a token),
  given that a limiter is the token bucket it is documented to be.
\<close>

theorem per_key_rate_bound:
  assumes "token_bucket_law ops lims tokens r b" and "0 \<le> r" and "0 \<le> b"
    and "sorted (map fst reqs)" and "\<forall>q \<in> set reqs. t0 \<le> fst q \<and> fst q \<le> t1" and "t0 \<le> t1"
  shows "token * int (length (filter (\<lambda>a. a = (k, True))
      (keyed_run (bucket_allow ops) (newBucket r b) reqs))) \<le> b * token + r * (t1 - t0)"
  using assms by (rule bucket_rate_bound)

text \<open>Seven requests of two keys within a second, one token per second, bucket of two.\<close>

definition demo_reqs :: "(int \<times> string) list" where
  "demo_reqs = [(0, ''a''), (0, ''a''), (0, ''b''), (1, ''a''), (500000000, ''b''),
     (900000000, ''a''), (1000000000, ''a'')]"

theorem per_key_rate_bound_witness:
  "map snd (filter (\<lambda>a. fst a = ''a'') (keyed_run (bucket_allow simple_ops) (newBucket 1 2) demo_reqs)) =
     [True, True, False, False, True] \<and>
   token * int (length (filter (\<lambda>a. a = (''a'', True))
      (keyed_run (bucket_allow simple_ops) (newBucket 1 2) demo_reqs)))
     \<le> 2 * token + 1 * (1000000000 - 0)"
proof
  show "map snd (filter (\<lambda>a. fst a = ''a'')
      (keyed_run (bucket_allow simple_ops) (newBucket 1 2) demo_reqs)) = [True, True, False, False, True]"
    by code_simp
  show "token * int (length (filter (\<lambda>a. a = (''a'', True))
      (keyed_run (bucket_allow simple_ops) (newBucket 1 2) demo_reqs)))
     \<le> 2 * token + 1 * (1000000000 - 0)"
    by (rule per_key_rate_bound [OF simple_ops_law])
       (simp_all add: demo_reqs_def)
qed

text \<open>
  The key of a request, when no custom key function is set: the first hop of x-forwarded-for
  without blanks around it, else x-real-ip, else the host of the peer address (the whole address if
  it has no port), else \<open>global\<close>.
\<close>

theorem defaultKey_spec:
  "(\<forall>tr. server_tr c = Some tr \<longrightarrow>
      (\<forall>hop rest. tr_request tr ''x-forwarded-for'' = hop @ rest \<and> hop \<noteq> [] \<and> CHR '','' \<notin> set hop \<and>
         (rest = [] \<or> hd rest = CHR '','') \<longrightarrow> defaultKey c op = ratelimit_trim hop) \<and>
      (tr_request tr ''x-forwarded-for'' = [] \<and> tr_request tr ''x-real-ip'' \<noteq> [] \<longrightarrow>
         defaultKey c op = tr_request tr ''x-real-ip'') \<and>
      (tr_request tr ''x-forwarded-for'' = [] \<and> tr_request tr ''x-real-ip'' = [] \<longrightarrow>
         defaultKey c op = defaultKey_peer c)) \<and>
   (server_tr c = None \<longrightarrow> defaultKey c op = defaultKey_peer c) \<and>
   (\<forall>host port. peer_addr c = Some (Some (host @ '':'' @ port)) \<and>
       set host \<inter> set '':[]'' = {} \<and> set port \<inter> set '':[]'' = {} \<longrightarrow> defaultKey_peer c = host) \<and>
   (remotePeer c = None \<longrightarrow> defaultKey_peer c = ''global'')"
  by (auto simp: defaultKey_def indexComma_hop SplitHostPort_host defaultKey_peer_def remotePeer_def)

definition demo_hop_ctx :: ctx where
  "demo_hop_ctx = Background\<lparr>
     server_tr := Some \<lparr>tr_id = 0, tr_kind = ''http'', tr_operation = ''/Get'',
       tr_request = (\<lambda>k. if k = ''x-forwarded-for'' then '' 10.0.0.7, 192.168.0.1'' else [])\<rparr>,
     peer_addr := Some (Some ''127.0.0.1:9000'')\<rparr>"

theorem defaultKey_spec_witness:
  "defaultKey demo_hop_ctx ''/Get'' = ''10.0.0.7'' \<and> defaultKey_peer demo_hop_ctx = ''127.0.0.1''"
proof
  note spec = defaultKey_spec [of demo_hop_ctx "''/Get''"]
  obtain tr where tr: "server_tr demo_hop_ctx = Some tr"
    and xff: "tr_request tr ''x-forwarded-for'' = '' 10.0.0.7'' @ '', 192.168.0.1''"
    by (simp add: demo_hop_ctx_def)
  have "ratelimit_trim '' 10.0.0.7'' = ''10.0.0.7''"
    by code_simp
  moreover have "defaultKey demo_hop_ctx ''/Get'' = ratelimit_trim '' 10.0.0.7''"
    by (rule spec [THEN conjunct1, rule_format, OF tr, THEN conjunct1, rule_format,
          of _ "'', 192.168.0.1''"]) (simp add: xff)
  ultimately show "defaultKey demo_hop_ctx ''/Get'' = ''10.0.0.7''"
    by simp
  show "defaultKey_peer demo_hop_ctx = ''127.0.0.1''"
    by (rule spec [THEN conjunct2, THEN conjunct2, THEN conjunct1, rule_format, of _ "''9000''"])
       (simp add: demo_hop_ctx_def)
qed

text \<open>
  The quirk of the first hop: a header that starts with a comma (an empty first hop) is not
  split at all, so the key is the whole header, and two clients behind different later hops are not
  recognised as one.
\<close>

theorem defaultKey_leading_comma:
  assumes "server_tr c = Some tr" and "tr_request tr ''x-forwarded-for'' = '','' @ rest"
  shows "defaultKey c op = ratelimit_trim ('','' @ rest)"
  using assms by (simp add: defaultKey_def indexComma_def)

definition demo_comma_tr :: transporter where
  "demo_comma_tr = \<lparr>tr_id = 0, tr_kind = ''http'', tr_operation = ''/Get'',
     tr_request = (\<lambda>k. if k = ''x-forwarded-for'' then '','' @ ''1.2.3.4'' else [])\<rparr>"

theorem defaultKey_leading_comma_witness:
  "defaultKey (Background\<lparr>server_tr := Some demo_comma_tr\<rparr>) ''/Get'' = '',1.2.3.4''"
proof -
  have "ratelimit_trim ('','' @ ''1.2.3.4'') = '',1.2.3.4''"
    by code_simp
  then show ?thesis
    using defaultKey_leading_comma [of "Background\<lparr>server_tr := Some demo_comma_tr\<rparr>" demo_comma_tr
        "''1.2.3.4''" "''/Get''"]
    by (simp add: demo_comma_tr_def)
qed

end
