(* ===== verification/Bucket_Concurrency.thy ===== *)
theory Bucket_Concurrency
  imports Ratelimit
begin

text \<open>
  The method \<open>allow\<close> of the rate limiter's bucket (pkg/middleware/ratelimit/ratelimit.go) as
  concurrent requests run it: any number of goroutines, each at its own statement, sharing the mutex,
  the map of pointers and the limiters on the heap. A step is one statement of one goroutine; a
  \<open>rate.Limiter\<close> is safe for simultaneous use, so its \<open>Allow\<close> is one step, at the time of that step.
\<close>

section \<open>Model\<close>

text \<open>Where a goroutine is in \<open>allow(key)\<close>; the number is the pointer in the local variable \<open>l\<close>.\<close>

datatype allow_pc =
    Calling string          \<comment> \<open>before \<open>b.mu.Lock()\<close>\<close>
  | Locked string           \<comment> \<open>before \<open>l, ok := b.limiters[key]\<close>\<close>
  | Missing string          \<comment> \<open>before \<open>l = rate.NewLimiter(b.rps, b.burst)\<close>\<close>
  | Created string nat      \<comment> \<open>before \<open>b.limiters[key] = l\<close>\<close>
  | Holding string nat      \<comment> \<open>before \<open>b.mu.Unlock()\<close>\<close>
  | Unlocked string nat     \<comment> \<open>before \<open>l.Allow()\<close>\<close>
  | Answered string bool

record 'l shared =
  pcs :: "nat \<Rightarrow> allow_pc option"
  mu :: "nat option"
  table :: "string \<Rightarrow> nat option"
  heap :: "nat \<Rightarrow> 'l option"
  bnow :: int
  decisions :: "(int \<times> string \<times> bool) list"

definition shared_start :: "int \<Rightarrow> 'l shared" where
  "shared_start t = \<lparr>pcs = Map.empty, mu = None, table = Map.empty, heap = Map.empty, bnow = t, decisions = []\<rparr>"

inductive allow_step :: "'l rate_ops \<Rightarrow> int \<Rightarrow> int \<Rightarrow> 'l shared \<Rightarrow> 'l shared \<Rightarrow> bool"
  for ops r b where
  arrive: "pcs st i = None \<Longrightarrow> allow_step ops r b st (st\<lparr>pcs := (pcs st)(i \<mapsto> Calling k)\<rparr>)"
| tick: "bnow st \<le> t \<Longrightarrow> allow_step ops r b st (st\<lparr>bnow := t\<rparr>)"
| lock: "pcs st i = Some (Calling k) \<Longrightarrow> mu st = None \<Longrightarrow>
    allow_step ops r b st (st\<lparr>mu := Some i, pcs := (pcs st)(i \<mapsto> Locked k)\<rparr>)"
| hit: "pcs st i = Some (Locked k) \<Longrightarrow> table st k = Some p \<Longrightarrow>
    allow_step ops r b st (st\<lparr>pcs := (pcs st)(i \<mapsto> Holding k p)\<rparr>)"
| miss: "pcs st i = Some (Locked k) \<Longrightarrow> table st k = None \<Longrightarrow>
    allow_step ops r b st (st\<lparr>pcs := (pcs st)(i \<mapsto> Missing k)\<rparr>)"
| create: "pcs st i = Some (Missing k) \<Longrightarrow> heap st p = None \<Longrightarrow>
    allow_step ops r b st (st\<lparr>heap := (heap st)(p \<mapsto> NewLimiter ops r b), pcs := (pcs st)(i \<mapsto> Created k p)\<rparr>)"
| store: "pcs st i = Some (Created k p) \<Longrightarrow>
    allow_step ops r b st (st\<lparr>table := (table st)(k \<mapsto> p), pcs := (pcs st)(i \<mapsto> Holding k p)\<rparr>)"
| unlock: "pcs st i = Some (Holding k p) \<Longrightarrow>
    allow_step ops r b st (st\<lparr>mu := None, pcs := (pcs st)(i \<mapsto> Unlocked k p)\<rparr>)"
| decide: "pcs st i = Some (Unlocked k p) \<Longrightarrow> heap st p = Some l \<Longrightarrow> Allow ops (bnow st) l = (ok, l') \<Longrightarrow>
    allow_step ops r b st (st\<lparr>heap := (heap st)(p \<mapsto> l'),
      decisions := decisions st @ [(bnow st, k, ok)], pcs := (pcs st)(i \<mapsto> Answered k ok)\<rparr>)"

inductive_cases allow_step_cases: "allow_step ops r b st st'"

text \<open>
  The next statement of goroutine \<open>i\<close>, when it is not blocked, as a function (a limiter it creates is
  put at address \<open>i\<close>): concrete interleavings are folds of it.
\<close>

definition run_stmt :: "'l rate_ops \<Rightarrow> int \<Rightarrow> int \<Rightarrow> nat \<Rightarrow> 'l shared \<Rightarrow> 'l shared" where
  "run_stmt ops r b i st =
     (case pcs st i of
        Some (Calling k) \<Rightarrow> (case mu st of
            None \<Rightarrow> st\<lparr>mu := Some i, pcs := (pcs st)(i \<mapsto> Locked k)\<rparr>
          | Some _ \<Rightarrow> st)
      | Some (Locked k) \<Rightarrow> (case table st k of
            Some p \<Rightarrow> st\<lparr>pcs := (pcs st)(i \<mapsto> Holding k p)\<rparr>
          | None \<Rightarrow> st\<lparr>pcs := (pcs st)(i \<mapsto> Missing k)\<rparr>)
      | Some (Missing k) \<Rightarrow> (case heap st i of
            None \<Rightarrow> st\<lparr>heap := (heap st)(i \<mapsto> NewLimiter ops r b), pcs := (pcs st)(i \<mapsto> Created k i)\<rparr>
          | Some _ \<Rightarrow> st)
      | Some (Created k p) \<Rightarrow> st\<lparr>table := (table st)(k \<mapsto> p), pcs := (pcs st)(i \<mapsto> Holding k p)\<rparr>
      | Some (Holding k p) \<Rightarrow> st\<lparr>mu := None, pcs := (pcs st)(i \<mapsto> Unlocked k p)\<rparr>
      | Some (Unlocked k p) \<Rightarrow> (case heap st p of
            Some l \<Rightarrow> (let (ok, l') = Allow ops (bnow st) l in
              st\<lparr>heap := (heap st)(p \<mapsto> l'), decisions := decisions st @ [(bnow st, k, ok)],
                 pcs := (pcs st)(i \<mapsto> Answered k ok)\<rparr>)
          | None \<Rightarrow> st)
      | _ \<Rightarrow> st)"

definition spawn :: "nat \<times> string \<Rightarrow> 'l shared \<Rightarrow> 'l shared" where
  "spawn ik st = (case pcs st (fst ik) of
      None \<Rightarrow> st\<lparr>pcs := (pcs st)(fst ik \<mapsto> Calling (snd ik))\<rparr> | Some _ \<Rightarrow> st)"

lemma run_stmt_step: "(allow_step ops r b)\<^sup>*\<^sup>* st (run_stmt ops r b i st)"
  unfolding run_stmt_def
  by (auto intro: r_into_rtranclp allow_step.intros split: option.split allow_pc.split prod.split)

lemma spawn_step: "(allow_step ops r b)\<^sup>*\<^sup>* st (spawn ik st)"
  unfolding spawn_def by (auto intro: r_into_rtranclp allow_step.intros split: option.split)

lemma schedule_reachable:
  "(allow_step ops r b)\<^sup>*\<^sup>* st (fold (run_stmt ops r b) is (fold spawn iks st))"
proof -
  have spawns: "(allow_step ops r b)\<^sup>*\<^sup>* st (fold spawn iks st)" for st
    by (induction iks arbitrary: st) (auto intro: rtranclp_trans spawn_step)
  have "(allow_step ops r b)\<^sup>*\<^sup>* st (fold (run_stmt ops r b) is st)" for st
    by (induction "is" arbitrary: st) (auto intro: rtranclp_trans run_stmt_step)
  then show ?thesis
    using spawns rtranclp_trans by metis
qed

section \<open>Sequential runs\<close>

fun keyed_end :: "('s \<Rightarrow> 'k \<Rightarrow> 't \<Rightarrow> 'b \<times> 's) \<Rightarrow> 's \<Rightarrow> ('t \<times> 'k) list \<Rightarrow> 's" where
  "keyed_end step s [] = s"
| "keyed_end step s ((t, k) # rs) = keyed_end step (snd (step s k t)) rs"

lemma keyed_run_snoc:
  "keyed_run step s (rs @ [(t, k)]) = keyed_run step s rs @ [(k, fst (step (keyed_end step s rs) k t))]"
  "keyed_end step s (rs @ [(t, k)]) = snd (step (keyed_end step s rs) k t)"
  by (induction step s rs rule: keyed_end.induct) auto

section \<open>Invariant\<close>

fun critical :: "allow_pc \<Rightarrow> bool" where
  "critical (Calling k) = False"
| "critical (Unlocked k p) = False"
| "critical (Answered k ok) = False"
| "critical _ = True"

definition inside :: "(nat \<Rightarrow> allow_pc option) \<Rightarrow> nat set" where
  "inside ps = {i. case ps i of Some pc \<Rightarrow> critical pc | None \<Rightarrow> False}"

definition mutex_inv :: "'l shared \<Rightarrow> bool" where
  "mutex_inv st \<longleftrightarrow> inside (pcs st) = set_option (mu st)"

text \<open>The limiter a key has or would get, in the shared state.\<close>

definition shared_limiter :: "'l rate_ops \<Rightarrow> int \<Rightarrow> int \<Rightarrow> 'l shared \<Rightarrow> string \<Rightarrow> 'l" where
  "shared_limiter ops r b st k =
     (case table st k of Some p \<Rightarrow> the (heap st p) | None \<Rightarrow> NewLimiter ops r b)"

fun local_ok :: "'l rate_ops \<Rightarrow> int \<Rightarrow> int \<Rightarrow> 'l shared \<Rightarrow> allow_pc \<Rightarrow> bool" where
  "local_ok ops r b st (Missing k) = (table st k = None)"
| "local_ok ops r b st (Created k p) =
     (table st k = None \<and> heap st p = Some (NewLimiter ops r b) \<and> p \<notin> ran (table st))"
| "local_ok ops r b st (Holding k p) = (table st k = Some p)"
| "local_ok ops r b st (Unlocked k p) = (table st k = Some p)"
| "local_ok ops r b st (Answered k ok) = (\<exists>t. (t, k, ok) \<in> set (decisions st))"
| "local_ok ops r b st _ = True"

definition table_inv :: "'l shared \<Rightarrow> bool" where
  "table_inv st \<longleftrightarrow> inj_on (table st) (dom (table st)) \<and> ran (table st) \<subseteq> dom (heap st) \<and>
     finite (dom (heap st))"

definition requests_of :: "'l shared \<Rightarrow> (int \<times> string) list" where
  "requests_of st = map (\<lambda>(t, k, ok). (t, k)) (decisions st)"

definition answers_of :: "'l shared \<Rightarrow> (string \<times> bool) list" where
  "answers_of st = map (\<lambda>(t, k, ok). (k, ok)) (decisions st)"

definition sim_inv :: "'l rate_ops \<Rightarrow> int \<Rightarrow> int \<Rightarrow> 'l shared \<Rightarrow> bool" where
  "sim_inv ops r b st \<longleftrightarrow>
     answers_of st = keyed_run (bucket_allow ops) (newBucket r b) (requests_of st) \<and>
     (\<forall>k. shared_limiter ops r b st k =
        limiter_of ops (keyed_end (bucket_allow ops) (newBucket r b) (requests_of st)) k)"

definition allow_inv :: "'l rate_ops \<Rightarrow> int \<Rightarrow> int \<Rightarrow> 'l shared \<Rightarrow> bool" where
  "allow_inv ops r b st \<longleftrightarrow> mutex_inv st \<and> table_inv st \<and>
     (\<forall>pc \<in> ran (pcs st). local_ok ops r b st pc) \<and> sim_inv ops r b st"

lemma inside_upd [simp]:
  "inside (ps(i \<mapsto> pc)) = (if critical pc then insert i (inside ps) else inside ps - {i})"
  by (auto simp: inside_def)

lemma inside_pc:
  "ps i = Some pc \<Longrightarrow> i \<in> inside ps \<longleftrightarrow> critical pc"
  "ps i = None \<Longrightarrow> i \<notin> inside ps"
  by (simp_all add: inside_def)

lemma mutex_step:
  assumes "allow_step ops r b st st'" and "mutex_inv st"
  shows "mutex_inv st'"
  using assms
proof (induction rule: allow_step.induct)
  case (arrive st i k)
  then show ?case
    using inside_pc(2) [of "pcs st" i] by (simp add: mutex_inv_def)
next
  case (tick st t)
  then show ?case by (simp add: mutex_inv_def)
next
  case (lock st i k)
  then show ?case by (simp add: mutex_inv_def)
next
  case (hit st i k p)
  then show ?case
    using inside_pc(1) [of "pcs st" i] by (simp add: mutex_inv_def insert_absorb)
next
  case (miss st i k)
  then show ?case
    using inside_pc(1) [of "pcs st" i] by (simp add: mutex_inv_def insert_absorb)
next
  case (create st i k p)
  then show ?case
    using inside_pc(1) [of "pcs st" i] by (simp add: mutex_inv_def insert_absorb)
next
  case (store st i k p)
  then show ?case
    using inside_pc(1) [of "pcs st" i] by (simp add: mutex_inv_def insert_absorb)
next
  case (unlock st i k p)
  then have "inside (pcs st) = {i}"
    using inside_pc(1) [of "pcs st" i] by (auto simp: mutex_inv_def elim: option.set_cases)
  then show ?case by (simp add: mutex_inv_def)
next
  case (decide st i k p l ok l')
  then show ?case
    using inside_pc(1) [of "pcs st" i] by (simp add: mutex_inv_def)
qed

lemma alone:
  assumes "mutex_inv st" and "pcs st i = Some pc" and "critical pc" and "pcs st j = Some pc'" and "critical pc'"
  shows "j = i"
proof -
  have "i \<in> inside (pcs st)" "j \<in> inside (pcs st)"
    using assms by (simp_all add: inside_def)
  with assms(1) show ?thesis
    by (auto simp: mutex_inv_def elim!: option.set_cases)
qed

text \<open>What each kind of update leaves of the goroutines' local knowledge.\<close>

lemma local_ok_frame [simp]:
  "local_ok ops r b (st\<lparr>pcs := x\<rparr>) pc = local_ok ops r b st pc"
  "local_ok ops r b (st\<lparr>mu := m\<rparr>) pc = local_ok ops r b st pc"
  "local_ok ops r b (st\<lparr>bnow := t\<rparr>) pc = local_ok ops r b st pc"
  by (cases pc; simp)+

lemma local_ok_heap:
  assumes "local_ok ops r b st pc" and "heap st p = None \<or> p \<in> ran (table st)"
  shows "local_ok ops r b (st\<lparr>heap := (heap st)(p \<mapsto> l)\<rparr>) pc"
  using assms by (cases pc) auto

lemma local_ok_table:
  assumes "local_ok ops r b st pc" and "\<not> critical pc" and "table st k = None"
  shows "local_ok ops r b (st\<lparr>table := (table st)(k \<mapsto> p)\<rparr>) pc"
  using assms by (cases pc) auto

lemma local_ok_decision:
  assumes "local_ok ops r b st pc"
  shows "local_ok ops r b (st\<lparr>decisions := decisions st @ [d]\<rparr>) pc"
  using assms by (cases pc) auto

lemma ran_upd_subset: "ran (m(i \<mapsto> x)) \<subseteq> insert x (ran m)"
  by (auto simp: ran_def)

section \<open>The shared map refines the sequential bucket\<close>

lemma shared_limiter_frame [simp]:
  "shared_limiter ops r b (st\<lparr>pcs := x\<rparr>) = shared_limiter ops r b st"
  "shared_limiter ops r b (st\<lparr>mu := m\<rparr>) = shared_limiter ops r b st"
  "shared_limiter ops r b (st\<lparr>bnow := t\<rparr>) = shared_limiter ops r b st"
  "shared_limiter ops r b (st\<lparr>decisions := ds\<rparr>) = shared_limiter ops r b st"
  by (simp_all add: shared_limiter_def fun_eq_iff split: option.split)

lemma shared_limiter_create:
  assumes "table_inv st" and "heap st p = None"
  shows "shared_limiter ops r b (st\<lparr>heap := (heap st)(p \<mapsto> l)\<rparr>) = shared_limiter ops r b st"
  using assms by (fastforce simp: shared_limiter_def table_inv_def fun_eq_iff ran_def split: option.splits)

lemma shared_limiter_store:
  assumes "table st k = None" and "heap st p = Some (NewLimiter ops r b)"
  shows "shared_limiter ops r b (st\<lparr>table := (table st)(k \<mapsto> p)\<rparr>) = shared_limiter ops r b st"
  using assms by (auto simp: shared_limiter_def fun_eq_iff split: option.splits)

lemma shared_limiter_decide:
  assumes "table_inv st" and "table st k = Some p"
  shows "shared_limiter ops r b (st\<lparr>heap := (heap st)(p \<mapsto> l)\<rparr>) k' =
    (if k' = k then l else shared_limiter ops r b st k')"
proof -
  have "k' = k" if "table st k' = Some p"
  proof -
    have "inj_on (table st) (dom (table st))"
      using assms(1) by (simp add: table_inv_def)
    then show ?thesis
      by (rule inj_onD) (use that assms(2) in auto)
  qed
  then show ?thesis
    using assms(2) by (cases "k' = k") (auto simp: shared_limiter_def split: option.split)
qed

lemma sim_frame:
  assumes "sim_inv ops r b st" and "shared_limiter ops r b st' = shared_limiter ops r b st"
    and "decisions st' = decisions st"
  shows "sim_inv ops r b st'"
  using assms by (simp add: sim_inv_def answers_of_def requests_of_def)

lemma sim_decide:
  assumes "sim_inv ops r b st" and "table_inv st" and "table st k = Some p" and "heap st p = Some l"
    and "Allow ops t l = (ok, l')"
  shows "sim_inv ops r b (st\<lparr>heap := (heap st)(p \<mapsto> l'), decisions := decisions st @ [(t, k, ok)]\<rparr>)"
proof -
  let ?fin = "keyed_end (bucket_allow ops) (newBucket r b) (requests_of st)"
  have "limiter_of ops ?fin k = l"
    using assms(1,3,4) unfolding sim_inv_def shared_limiter_def by (metis option.case(2) option.sel)
  then have "fst (bucket_allow ops ?fin k t) = ok"
    and "limiter_of ops (snd (bucket_allow ops ?fin k t)) k' = (if k' = k then l' else limiter_of ops ?fin k')" for k'
    using assms(5) by (simp_all add: bucket.answer bucket.advance)
  then show ?thesis
    using assms(1,2,3)
    by (simp add: sim_inv_def answers_of_def requests_of_def keyed_run_snoc shared_limiter_decide)
qed

section \<open>Every step keeps the invariant\<close>

lemma allow_invD:
  assumes "allow_inv ops r b st"
  shows "mutex_inv st" and "table_inv st" and "sim_inv ops r b st"
    and "pcs st i = Some pc \<Longrightarrow> local_ok ops r b st pc"
  using assms by (auto simp: allow_inv_def ran_def)

text \<open>A goroutine moves on; the rest of the state changes to \<open>st'\<close>.\<close>

lemma allow_inv_move:
  assumes "allow_inv ops r b st" and "mutex_inv (st'\<lparr>pcs := (pcs st)(i \<mapsto> pc)\<rparr>)" and "table_inv st'"
    and "sim_inv ops r b st'" and "local_ok ops r b st' pc"
    and "\<And>j pc'. j \<noteq> i \<Longrightarrow> pcs st j = Some pc' \<Longrightarrow> local_ok ops r b st pc' \<Longrightarrow> local_ok ops r b st' pc'"
  shows "allow_inv ops r b (st'\<lparr>pcs := (pcs st)(i \<mapsto> pc)\<rparr>)"
proof -
  have "table_inv (st'\<lparr>pcs := (pcs st)(i \<mapsto> pc)\<rparr>)"
    using assms(3) by (simp add: table_inv_def)
  moreover have "sim_inv ops r b (st'\<lparr>pcs := (pcs st)(i \<mapsto> pc)\<rparr>)"
    by (rule sim_frame [OF assms(4)]) simp_all
  moreover have "local_ok ops r b st' pc'" if "pc' \<in> ran ((pcs st)(i \<mapsto> pc))" for pc'
    using that assms(5,6) allow_invD(4) [OF assms(1)] by (auto simp: ran_def split: if_splits)
  ultimately show ?thesis
    using assms(2) by (simp add: allow_inv_def)
qed

lemma allow_inv_step:
  assumes "allow_step ops r b st st'" and "allow_inv ops r b st"
  shows "allow_inv ops r b st'"
proof -
  note inv = allow_invD [OF assms(2)]
  note mutex = mutex_step [OF assms(1) inv(1)]
  from assms(1) show ?thesis
  proof cases
    case (arrive i k)
    then show ?thesis
      using mutex allow_inv_move [OF assms(2), where st' = st and i = i and pc = "Calling k"] inv by simp
  next
    case (tick t)
    then show ?thesis
      using mutex assms(2) sim_frame [OF inv(3), where st' = st'] by (simp add: allow_inv_def table_inv_def)
  next
    case (lock i k)
    then show ?thesis
      using mutex allow_inv_move [OF assms(2), where st' = "st\<lparr>mu := Some i\<rparr>" and i = i and pc = "Locked k"] inv
        sim_frame [OF inv(3), where st' = "st\<lparr>mu := Some i\<rparr>"] by (simp add: table_inv_def)
  next
    case (hit i k p)
    then show ?thesis
      using mutex allow_inv_move [OF assms(2), where st' = st and i = i and pc = "Holding k p"] inv by simp
  next
    case (miss i k)
    then show ?thesis
      using mutex allow_inv_move [OF assms(2), where st' = st and i = i and pc = "Missing k"] inv by simp
  next
    case (create i k p)
    let ?st = "st\<lparr>heap := (heap st)(p \<mapsto> NewLimiter ops r b)\<rparr>"
    have "p \<notin> ran (table st)"
      using create inv(2) by (auto simp: table_inv_def)
    moreover have "table_inv ?st"
      using inv(2) by (auto simp: table_inv_def)
    moreover have "sim_inv ops r b ?st"
      by (rule sim_frame [OF inv(3)]) (simp_all add: shared_limiter_create [OF inv(2) create(3)])
    ultimately show ?thesis
      using create mutex inv(4) [OF create(2)]
      by (simp add: allow_inv_move [OF assms(2), where st' = ?st and i = i and pc = "Created k p"] local_ok_heap)
  next
    case (store i k p)
    let ?st = "st\<lparr>table := (table st)(k \<mapsto> p)\<rparr>"
    have new: "table st k = None" "heap st p = Some (NewLimiter ops r b)" "p \<notin> ran (table st)"
      using inv(4) [OF store(2)] by simp_all
    have "table_inv ?st"
      using inv(2) new by (auto simp: table_inv_def inj_on_def ran_def)
    moreover have "sim_inv ops r b ?st"
      by (rule sim_frame [OF inv(3)]) (simp_all add: shared_limiter_store [OF new(1,2)])
    moreover have "\<not> critical pc'" if "j \<noteq> i" and "pcs st j = Some pc'" for j pc'
      using alone [OF inv(1) store(2)] that by auto
    ultimately show ?thesis
      using store mutex new(1)
      by (simp add: allow_inv_move [OF assms(2), where st' = ?st and i = i and pc = "Holding k p"] local_ok_table)
  next
    case (unlock i k p)
    then show ?thesis
      using mutex allow_inv_move [OF assms(2), where st' = "st\<lparr>mu := None\<rparr>" and i = i and pc = "Unlocked k p"] inv(2)
        sim_frame [OF inv(3), where st' = "st\<lparr>mu := None\<rparr>"] inv(4) [OF unlock(2)] by (simp add: table_inv_def)
  next
    case (decide i k p l ok l')
    let ?st = "st\<lparr>heap := (heap st)(p \<mapsto> l'), decisions := decisions st @ [(bnow st, k, ok)]\<rparr>"
    have k: "table st k = Some p"
      using inv(4) [OF decide(2)] by simp
    have "sim_inv ops r b ?st"
      by (rule sim_decide [OF inv(3,2) k decide(3,4)])
    moreover have "table_inv ?st"
      using inv(2) by (auto simp: table_inv_def)
    moreover have "local_ok ops r b ?st pc'" if "local_ok ops r b st pc'" for pc'
      using local_ok_decision [OF local_ok_heap [OF that]] k by (simp add: ranI)
    moreover have "local_ok ops r b ?st (Answered k ok)"
      by auto
    ultimately show ?thesis
      using decide mutex by (simp add: allow_inv_move [OF assms(2), where st' = ?st and i = i and pc = "Answered k ok"])
  qed
qed

lemma allow_inv_start: "allow_inv ops r b (shared_start t0)"
  by (simp add: allow_inv_def shared_start_def mutex_inv_def inside_def table_inv_def
      sim_inv_def answers_of_def requests_of_def shared_limiter_def limiter_of_def newBucket_def)

interpretation conc: interleaving "\<lambda>st. \<exists>t0. st = shared_start t0" "allow_step ops r b" "allow_inv ops r b"
  for ops :: "'l rate_ops" and r b
  by unfold_locales (auto intro: allow_inv_step allow_inv_start)

text \<open>Time passes, and decisions are recorded in the order in which they are taken.\<close>

definition time_inv :: "int \<Rightarrow> 'l shared \<Rightarrow> bool" where
  "time_inv t0 st \<longleftrightarrow> t0 \<le> bnow st \<and> sorted (map fst (decisions st)) \<and>
     (\<forall>d \<in> set (decisions st). t0 \<le> fst d \<and> fst d \<le> bnow st)"

lemma time_inv_step:
  assumes "allow_step ops r b st st'" and "time_inv t0 st"
  shows "time_inv t0 st'"
  using assms by cases (auto simp: time_inv_def sorted_append)

interpretation conc_time: interleaving "\<lambda>st. st = shared_start t0" "allow_step ops r b" "time_inv t0"
  for ops :: "'l rate_ops" and r b t0
proof unfold_locales
  show "st = shared_start t0 \<Longrightarrow> time_inv t0 st" for st :: "'l shared"
    by (simp add: shared_start_def time_inv_def)
qed (rule time_inv_step)

lemma reachable_inv:
  assumes "(allow_step ops r b)\<^sup>*\<^sup>* (shared_start t0) st"
  shows "allow_inv ops r b st" and "time_inv t0 st"
  using conc.inv_reachable [OF _ assms] conc_time.inv_reachable [OF _ assms] by blast+

section \<open>Progress\<close>

text \<open>Statements a goroutine still has to execute, at most.\<close>

fun remaining :: "allow_pc \<Rightarrow> nat" where
  "remaining (Calling k) = 6"
| "remaining (Locked k) = 5"
| "remaining (Missing k) = 4"
| "remaining (Created k p) = 3"
| "remaining (Holding k p) = 2"
| "remaining (Unlocked k p) = 1"
| "remaining (Answered k ok) = 0"

definition progresses :: "'l rate_ops \<Rightarrow> int \<Rightarrow> int \<Rightarrow> 'l shared \<Rightarrow> bool" where
  "progresses ops r b st \<longleftrightarrow> (\<exists>st' j pc pc'. allow_step ops r b st st' \<and> pcs st j = Some pc \<and>
     pcs st' = (pcs st)(j \<mapsto> pc') \<and> remaining pc' < remaining pc)"

lemma progressesI:
  assumes "allow_step ops r b st (st'\<lparr>pcs := (pcs st)(j \<mapsto> pc')\<rparr>)" and "pcs st j = Some pc"
    and "remaining pc' < remaining pc"
  shows "progresses ops r b st"
  unfolding progresses_def
  using assms by (intro exI [of _ "st'\<lparr>pcs := (pcs st)(j \<mapsto> pc')\<rparr>"] exI [of _ j] exI [of _ pc] exI [of _ pc']) simp

lemma holder_progresses:
  assumes "allow_inv ops r b st" and "pcs st j = Some pc" and "critical pc"
  shows "progresses ops r b st"
proof (cases pc)
  case (Locked k)
  show ?thesis
  proof (cases "table st k")
    case None
    with assms(2) Locked show ?thesis
      by (intro progressesI [OF allow_step.miss]) auto
  next
    case (Some p)
    with assms(2) Locked show ?thesis
      by (intro progressesI [OF allow_step.hit]) auto
  qed
next
  case (Missing k)
  have "finite (dom (heap st))"
    using allow_invD(2) [OF assms(1)] by (simp add: table_inv_def)
  then obtain p where "heap st p = None"
    using ex_new_if_finite [OF infinite_UNIV_nat] by (metis domIff)
  with assms(2) Missing show ?thesis
    by (intro progressesI [OF allow_step.create]) auto
next
  case (Created k p)
  with assms(2) show ?thesis
    by (intro progressesI [OF allow_step.store]) auto
next
  case (Holding k p)
  with assms(2) show ?thesis
    by (intro progressesI [OF allow_step.unlock]) auto
qed (use assms(3) in auto)

lemma free_progresses:
  assumes "allow_inv ops r b st" and "mu st = None" and "pcs st i = Some pc" and "remaining pc \<noteq> 0"
  shows "progresses ops r b st"
proof (cases pc)
  case (Calling k)
  with assms(2,3) show ?thesis
    by (intro progressesI [OF allow_step.lock]) auto
next
  case (Unlocked k p)
  then obtain l where "heap st p = Some l"
    using allow_invD(2,4) [OF assms(1)] assms(3) by (fastforce simp: table_inv_def ran_def)
  moreover obtain ok l' where "Allow ops (bnow st) l = (ok, l')"
    by (cases "Allow ops (bnow st) l")
  ultimately show ?thesis
    using assms(3) Unlocked by (intro progressesI [OF allow_step.decide]) auto
qed (use holder_progresses [OF assms(1,3)] assms(4) in auto)

section \<open>Properties\<close>

text \<open>
  C5. Concurrent requests are decided as if one after the other: for any number of goroutines and any
  interleaving of their statements, at most one is between \<open>Lock\<close> and \<open>Unlock\<close>, the answers given so
  far are, in the order in which they were decided, exactly those of the sequential bucket on the same
  requests, and a goroutine returns an answer that was decided for its own key.
\<close>

theorem allow_linearizable:
  assumes "(allow_step ops r b)\<^sup>*\<^sup>* (shared_start t0) st"
  shows "map (\<lambda>(t, k, ok). (k, ok)) (decisions st) =
      keyed_run (bucket_allow ops) (newBucket r b) (map (\<lambda>(t, k, ok). (t, k)) (decisions st)) \<and>
    (\<forall>i j pc pc'. pcs st i = Some pc \<and> critical pc \<and> pcs st j = Some pc' \<and> critical pc' \<longrightarrow> i = j) \<and>
    (\<forall>i k ok. pcs st i = Some (Answered k ok) \<longrightarrow> (\<exists>t. (t, k, ok) \<in> set (decisions st)))"
proof -
  note inv = allow_invD [OF reachable_inv(1) [OF assms]]
  have "pcs st i = Some (Answered k ok) \<Longrightarrow> \<exists>t. (t, k, ok) \<in> set (decisions st)" for i k ok
    using inv(4) [of i "Answered k ok"] by simp
  then show ?thesis
    using inv(3) alone [OF inv(1)] by (auto simp: sim_inv_def answers_of_def requests_of_def)
qed

text \<open>
  C6. The rate holds under concurrency: whatever the interleaving, the number of requests of one key that
  have been let through since the start is at most the burst plus the rate times the time that has
  passed, given that a limiter is the token bucket it is documented to be. In particular two first
  requests that race for a key do not get a bucket each.
\<close>

theorem concurrent_rate_bound:
  assumes "(allow_step ops r b)\<^sup>*\<^sup>* (shared_start t0) st"
    and "token_bucket_law ops lims tokens r b" and "0 \<le> r" and "0 \<le> b"
  shows "token * int (length (filter (\<lambda>(t, k', ok). k' = k \<and> ok) (decisions st)))
    \<le> b * token + r * (bnow st - t0)"
proof -
  let ?reqs = "requests_of st"
  have time: "time_inv t0 st" and sim: "sim_inv ops r b st"
    using reachable_inv [OF assms(1)] allow_invD(3) by blast+
  have "map fst ?reqs = map fst (decisions st)"
    by (auto simp: requests_of_def)
  then have "sorted (map fst ?reqs)"
    using time by (metis time_inv_def)
  moreover have "\<forall>q \<in> set ?reqs. t0 \<le> fst q \<and> fst q \<le> bnow st" "t0 \<le> bnow st"
    using time by (auto simp: time_inv_def requests_of_def)
  ultimately have "token * int (length (filter (\<lambda>a. a = (k, True)) (answers_of st))) \<le> b * token + r * (bnow st - t0)"
    using bucket_rate_bound [OF assms(2-4)] sim by (simp add: sim_inv_def)
  moreover have "length (filter (\<lambda>a. a = (k, True)) (answers_of st)) =
      length (filter (\<lambda>(t, k', ok). k' = k \<and> ok) (decisions st))"
    by (simp add: answers_of_def filter_map comp_def case_prod_beta' prod_eq_iff)
  ultimately show ?thesis by simp
qed

text \<open>
  C10. No goroutine is stuck: in every reachable state in which some call has not returned, some goroutine
  can execute its next statement. The mutex is always released, because its holder is never blocked.
\<close>

theorem allow_no_deadlock:
  assumes "(allow_step ops r b)\<^sup>*\<^sup>* (shared_start t0) st" and "pcs st i = Some pc" and "\<And>k ok. pc \<noteq> Answered k ok"
  shows "\<exists>st' j pc' pc''. allow_step ops r b st st' \<and> pcs st j = Some pc' \<and>
    pcs st' = (pcs st)(j \<mapsto> pc'') \<and> remaining pc'' < remaining pc'"
proof -
  note inv = reachable_inv(1) [OF assms(1)]
  have "progresses ops r b st"
  proof (cases "mu st")
    case None
    have "remaining pc \<noteq> 0"
      using assms(3) by (cases pc) auto
    then show ?thesis
      by (rule free_progresses [OF inv None assms(2)])
  next
    case (Some j)
    then have "j \<in> inside (pcs st)"
      using allow_invD(1) [OF inv] by (simp add: mutex_inv_def)
    then obtain pc' where "pcs st j = Some pc'" and "critical pc'"
      by (auto simp: inside_def split: option.splits)
    then show ?thesis
      by (rule holder_progresses [OF inv])
  qed
  then show ?thesis
    unfolding progresses_def .
qed

text \<open>Two first requests of one key race: the second reads the map while the first holds the mutex.\<close>

definition demo_race :: "nat list \<Rightarrow> simple_limiter shared" where
  "demo_race is = fold (run_stmt simple_ops 1 1) is (fold spawn [(0, ''a''), (1, ''a'')] (shared_start 0))"

lemma demo_race_reachable: "(allow_step simple_ops 1 1)\<^sup>*\<^sup>* (shared_start 0) (demo_race is)"
  unfolding demo_race_def by (rule schedule_reachable)

definition demo_schedule :: "nat list" where
  "demo_schedule = [0, 1, 0, 1, 0, 0, 0, 1, 1, 1, 1, 0]"

lemma demo_race_decisions:
  "decisions (demo_race demo_schedule) = [(0, ''a'', True), (0, ''a'', False)]"
  by code_simp

theorem allow_linearizable_witness:
  "keyed_run (bucket_allow simple_ops) (newBucket 1 1) [(0, ''a''), (0, ''a'')] = [(''a'', True), (''a'', False)]"
  using allow_linearizable [OF demo_race_reachable [of demo_schedule]] by (simp add: demo_race_decisions)

theorem concurrent_rate_bound_witness:
  "token * int (length (filter (\<lambda>(t, k', ok). k' = ''a'' \<and> ok) (decisions (demo_race demo_schedule))))
    \<le> 1 * token + 1 * (bnow (demo_race demo_schedule) - 0)"
  by (rule concurrent_rate_bound [OF demo_race_reachable simple_ops_law]) simp_all

theorem allow_no_deadlock_witness:
  "\<exists>st' j pc' pc''. allow_step simple_ops 1 1 (demo_race [0, 1]) st' \<and> pcs (demo_race [0, 1]) j = Some pc' \<and>
    pcs st' = (pcs (demo_race [0, 1]))(j \<mapsto> pc'') \<and> remaining pc'' < remaining pc'"
proof (rule allow_no_deadlock [OF demo_race_reachable])
  show "pcs (demo_race [0, 1]) 1 = Some (Calling ''a'')"
    by code_simp
qed simp

end
