(* ===== verification/Metric.thy ===== *)
theory Metric
  imports Kratos
begin

text \<open>
  Package \<open>metric\<close> (pkg/metric/prom.go, mongo.go): the declared metric vectors, each with its name and
  label names. Prometheus's \<open>WithLabelValues\<close> panics when the number of values is not the number of
  labels; a call that fits is an event of the trace. (The pool collectors of db.go and the
  registration in \<open>init\<close> are in \<open>Data\<close>.)
\<close>

record vec =
  v_name :: string
  v_labels :: "string list"

text \<open>The upper bounds of a histogram's buckets, in milliseconds (the code has them in seconds).\<close>

record histogram_vec = vec +
  v_buckets :: "nat list"

definition RequestsTotal :: vec where
  "RequestsTotal = \<lparr>v_name = ''kris_requests_total'', v_labels = [''kind'', ''op'', ''code'']\<rparr>"

definition RequestLatencySeconds :: histogram_vec where
  "RequestLatencySeconds = \<lparr>v_name = ''kris_request_latency_seconds'', v_labels = [''kind'', ''op''],
     v_buckets = [5, 10, 25, 50, 100, 250, 500, 1000, 2500, 5000, 10000]\<rparr>"

definition PanicsTotal :: vec where
  "PanicsTotal = \<lparr>v_name = ''kris_panics_total'', v_labels = [''op'']\<rparr>"

definition MongoConnectionsCreated :: vec where
  "MongoConnectionsCreated = \<lparr>v_name = ''kris_mongo_pool_connections_created_total'', v_labels = [''name'']\<rparr>"

definition MongoConnectionsClosed :: vec where
  "MongoConnectionsClosed =
     \<lparr>v_name = ''kris_mongo_pool_connections_closed_total'', v_labels = [''name'', ''reason'']\<rparr>"

definition MongoCheckoutsStarted :: vec where
  "MongoCheckoutsStarted = \<lparr>v_name = ''kris_mongo_pool_checkouts_started_total'', v_labels = [''name'']\<rparr>"

definition MongoCheckoutsFailed :: vec where
  "MongoCheckoutsFailed =
     \<lparr>v_name = ''kris_mongo_pool_checkouts_failed_total'', v_labels = [''name'', ''reason'']\<rparr>"

definition MongoCheckoutsSucceeded :: vec where
  "MongoCheckoutsSucceeded = \<lparr>v_name = ''kris_mongo_pool_checkouts_succeeded_total'', v_labels = [''name'']\<rparr>"

definition MongoCheckins :: vec where
  "MongoCheckins = \<lparr>v_name = ''kris_mongo_pool_checkins_total'', v_labels = [''name'']\<rparr>"

lemmas mongo_counters = MongoConnectionsCreated_def MongoConnectionsClosed_def MongoCheckoutsStarted_def
  MongoCheckoutsFailed_def MongoCheckoutsSucceeded_def MongoCheckins_def

lemmas metric_vecs = RequestsTotal_def RequestLatencySeconds_def PanicsTotal_def mongo_counters

section \<open>Counting and observing\<close>

definition WithLabelValues :: "'v vec_scheme \<Rightarrow> string list \<Rightarrow> ('l world, unit) io \<Rightarrow> ('l world, unit) io" where
  "WithLabelValues v lvs act =
     (if length lvs = length (v_labels v) then act else io_panic ''inconsistent label cardinality'')"

definition vec_Inc :: "vec \<Rightarrow> string list \<Rightarrow> ('l world, unit) io" where
  "vec_Inc v lvs = WithLabelValues v lvs (emit (CounterInc (v_name v) lvs))"

definition vec_Observe :: "histogram_vec \<Rightarrow> string list \<Rightarrow> int \<Rightarrow> ('l world, unit) io" where
  "vec_Observe v lvs ns = WithLabelValues v lvs (emit (HistObserve (v_name v) lvs ns))"

text \<open>The calls the program makes fit the declarations.\<close>

lemma vec_calls [simp]:
  "vec_Inc RequestsTotal [a, b, c] = emit (CounterInc (v_name RequestsTotal) [a, b, c])"
  "vec_Observe RequestLatencySeconds [a, b] ns = emit (HistObserve (v_name RequestLatencySeconds) [a, b] ns)"
  "vec_Inc PanicsTotal [a] = emit (CounterInc (v_name PanicsTotal) [a])"
  "vec_Inc MongoConnectionsCreated [a] = emit (CounterInc (v_name MongoConnectionsCreated) [a])"
  "vec_Inc MongoConnectionsClosed [a, b] = emit (CounterInc (v_name MongoConnectionsClosed) [a, b])"
  "vec_Inc MongoCheckoutsStarted [a] = emit (CounterInc (v_name MongoCheckoutsStarted) [a])"
  "vec_Inc MongoCheckoutsFailed [a, b] = emit (CounterInc (v_name MongoCheckoutsFailed) [a, b])"
  "vec_Inc MongoCheckoutsSucceeded [a] = emit (CounterInc (v_name MongoCheckoutsSucceeded) [a])"
  "vec_Inc MongoCheckins [a] = emit (CounterInc (v_name MongoCheckins) [a])"
  by (simp_all add: vec_Inc_def vec_Observe_def WithLabelValues_def metric_vecs)

end
