(* ===== verification/Recovery.thy ===== *)
theory Recovery
  imports Metric
begin

text \<open>
  Package \<open>recovery\<close> (pkg/middleware/recovery/recovery.go): kratos's recovery middleware with a
  handler that counts the panic and turns it into a stable error. kratos's \<open>recovery.Recovery\<close> with
  its \<open>WithHandler\<close> option is the parameter \<open>recov\<close>; \<open>recovers\<close> is what it is documented to do.
\<close>

section \<open>Model\<close>

definition ErrPanic :: error where
  "ErrPanic = KErr 500 ''PANIC'' ''handler panicked'' None"

type_synonym ('l, 'q) panic_handler = "ctx \<Rightarrow> 'q \<Rightarrow> string \<Rightarrow> ('l world, error option) io"

definition recovery_handler :: "('l, 'q) panic_handler" where
  "recovery_handler c _ _ =
     io_then (vec_Inc PanicsTotal [server_op c]) (io_ret (Some ErrPanic))"

definition recovery_Server ::
  "(('l, 'q) panic_handler \<Rightarrow> ('l, 'q, 'r) middleware) \<Rightarrow> ('l, 'q, 'r) middleware" where
  "recovery_Server recov = recov recovery_handler"

section \<open>What is relied on of kratos\<close>

text \<open>
  kratos's middleware defers a \<open>recover\<close> around the handler: a normal return is passed on; a panic is
  logged, and the reply is nil and the error what the configured handler returns. A panic of
  another goroutine is out of its reach.
\<close>

definition only_logs :: "'l world \<Rightarrow> 'l world \<Rightarrow> bool" where
  "only_logs w w' \<longleftrightarrow> (\<exists>lines. w' = w\<lparr>trace := trace w @ map (Logw LevelError) lines\<rparr>)"

definition recovers ::
  "(('l, 'q) panic_handler \<Rightarrow> ('l, 'q, 'r) middleware) \<Rightarrow> bool" where
  "recovers recov \<longleftrightarrow> (\<forall>f h c q w.
     (case h c q w of
        (Ok r, w1) \<Rightarrow> recov f h c q w = (Ok r, w1)
      | (Panic v, w1) \<Rightarrow> (\<exists>w2. only_logs w1 w2 \<and>
          recov f h c q w = io_bind (f c q v) (\<lambda>e. io_ret (None, e)) w2)
      | (Crash v, w1) \<Rightarrow> recov f h c q w = (Crash v, w1)))"

text \<open>A recovery middleware that satisfies it, logging the panic value.\<close>

definition deferred_recover :: "('l, 'q) panic_handler \<Rightarrow> ('l, 'q, 'r) middleware" where
  "deferred_recover f h c q w =
     (case h c q w of
        (Panic v, w1) \<Rightarrow> io_then (emit (Logw LevelError [(''msg'', VStr v)]))
           (io_bind (f c q v) (\<lambda>e. io_ret (None, e))) w1
      | r \<Rightarrow> r)"

lemma only_logs_one: "only_logs w (w\<lparr>trace := trace w @ [Logw LevelError kvs]\<rparr>)"
  unfolding only_logs_def by (rule exI [of _ "[kvs]"]) simp

lemma deferred_recover_recovers: "recovers deferred_recover"
  unfolding recovers_def deferred_recover_def
  by (auto simp: io_simps split: prod.splits res.splits intro!: exI conjI only_logs_one)

lemma recoversD:
  fixes recov :: "('l, 'q) panic_handler \<Rightarrow> ('l, 'q, 'r) middleware"
  assumes "recovers recov"
  shows "\<And>f h c q w. case h c q w of
        (Ok r, w1) \<Rightarrow> recov f h c q w = (Ok r, w1)
      | (Panic v, w1) \<Rightarrow> (\<exists>w2. only_logs w1 w2 \<and>
          recov f h c q w = io_bind (f c q v) (\<lambda>e. io_ret (None, e)) w2)
      | (Crash v, w1) \<Rightarrow> recov f h c q w = (Crash v, w1)"
  by (rule assms [unfolded recovers_def, THEN spec, THEN spec, THEN spec, THEN spec, THEN spec])

lemma recovers_Ok:
  assumes "recovers recov" and "h c q w = (Ok r, w1)"
  shows "recov f h c q w = (Ok r, w1)"
  using recoversD [OF assms(1), of f h c q w] assms(2) by simp

lemma recovers_Crash:
  assumes "recovers recov" and "h c q w = (Crash v, w1)"
  shows "recov f h c q w = (Crash v, w1)"
  using recoversD [OF assms(1), of f h c q w] assms(2) by simp

lemma recovers_Panic:
  assumes "recovers recov" and "h c q w = (Panic v, w1)"
  obtains w2 where "only_logs w1 w2"
    and "recov f h c q w = io_bind (f c q v) (\<lambda>e. io_ret (None, e)) w2"
  using recoversD [OF assms(1), of f h c q w] assms(2) that by auto

section \<open>The middleware of the program\<close>

lemmas recovery_passes = recovers_Ok [where f = recovery_handler, folded recovery_Server_def]
lemmas recovery_crash = recovers_Crash [where f = recovery_handler, folded recovery_Server_def]

lemma recovery_panic:
  assumes "recovers recov" and "h c q w = (Panic v, w1)"
  obtains lines where "recovery_Server recov h c q w =
    (Ok (None, Some ErrPanic),
     w1\<lparr>trace := trace w1 @ map (Logw LevelError) lines @ [CounterInc (v_name PanicsTotal) [server_op c]]\<rparr>)"
proof -
  obtain w2 where "only_logs w1 w2"
    and run: "recov recovery_handler h c q w =
      io_bind (recovery_handler c q v) (\<lambda>e. io_ret (None, e)) w2"
    using assms recovers_Panic [of recov h c q w v w1 recovery_handler] by blast
  then obtain lines where "w2 = w1\<lparr>trace := trace w1 @ map (Logw LevelError) lines\<rparr>"
    unfolding only_logs_def by blast
  with run show thesis
    by (intro that [of lines]) (simp add: recovery_Server_def recovery_handler_def io_simps)
qed

text \<open>
  A panic of the handler never reaches the caller: it becomes the error 500 PANIC with a nil
  reply, \<open>kris_panics_total\<close> is incremented exactly once for the operation, and apart from log
  lines the world is the one the handler left; a normal return is passed on untouched and counts
  nothing.
\<close>

theorem recovery_Server_spec:
  assumes "recovers recov"
  shows "case h c q w of
     (Ok r, w1) \<Rightarrow> recovery_Server recov h c q w = (Ok r, w1)
   | (Panic v, w1) \<Rightarrow> (\<exists>lines. recovery_Server recov h c q w =
       (Ok (None, Some ErrPanic), w1\<lparr>trace := trace w1 @ map (Logw LevelError) lines @
          [CounterInc (v_name PanicsTotal) [server_op c]]\<rparr>))
   | (Crash v, w1) \<Rightarrow> recovery_Server recov h c q w = (Crash v, w1)"
proof (cases "h c q w")
  case (Pair out w1)
  show ?thesis
  proof (cases out)
    case (Panic v)
    then obtain lines where "recovery_Server recov h c q w =
       (Ok (None, Some ErrPanic), w1\<lparr>trace := trace w1 @ map (Logw LevelError) lines @
          [CounterInc (v_name PanicsTotal) [server_op c]]\<rparr>)"
      using recovery_panic [OF assms, of h c q w v w1] Pair by blast
    then show ?thesis
      using Pair Panic by auto
  qed (simp_all add: Pair recovery_passes [OF assms] recovery_crash [OF assms])
qed

theorem recovery_Server_spec_witness:
  "recovers (deferred_recover :: (unit, nat) panic_handler \<Rightarrow> (unit, nat, nat) middleware) \<and>
   (\<exists>w'. recovery_Server deferred_recover (\<lambda>c q. io_panic ''boom'' :: (unit world, nat gores) io)
      Background (1 :: nat) demo_world = (Ok (None, Some ErrPanic), w'))"
proof
  show rec: "recovers (deferred_recover :: (unit, nat) panic_handler \<Rightarrow> (unit, nat, nat) middleware)"
    by (rule deferred_recover_recovers)
  show "\<exists>w'. recovery_Server deferred_recover (\<lambda>c q. io_panic ''boom'' :: (unit world, nat gores) io)
      Background (1 :: nat) demo_world = (Ok (None, Some ErrPanic), w')"
    using recovery_Server_spec [OF rec, of "\<lambda>c q. io_panic ''boom''" Background 1 demo_world]
    by (auto simp: io_panic_def)
qed

end
