(* ===== verification/Logid.thy ===== *)
theory Logid
  imports Kratos
begin

text \<open>
  Package \<open>logid\<close> (pkg/middleware/logid/logid.go): trace ids carried in the x-trace-id header.
  \<open>uuid.NewString\<close> is a parameter: it returns a string and may advance the world. The OTel span of
  a context is the field \<open>otel_trace_id\<close>, set when the span context is valid.
\<close>

section \<open>Model\<close>

definition MetadataKey :: string where
  "MetadataKey = ''x-trace-id''"

definition logid_FromContext :: "ctx \<Rightarrow> string" where
  "logid_FromContext c =
     (case otel_trace_id c of
        Some t \<Rightarrow> t
      | None \<Rightarrow> (case logid_key c of Some v \<Rightarrow> v | None \<Rightarrow> []))"

definition logid_NewContext :: "ctx \<Rightarrow> string \<Rightarrow> ctx" where
  "logid_NewContext c i = c\<lparr>logid_key := Some i\<rparr>"

definition logid_Server :: "('l world \<Rightarrow> string \<times> 'l world) \<Rightarrow> ('l, 'q, 'r) middleware" where
  "logid_Server uuid h c q =
     (let id0 = (case server_tr c of None \<Rightarrow> [] | Some tr \<Rightarrow> tr_request tr MetadataKey)
      in io_bind (if id0 = [] then io_call uuid else io_ret id0)
          (\<lambda>i. let c' = logid_NewContext c i
                in io_then (case server_tr c' of
                       Some tr \<Rightarrow> emit (ReplyHeaderSet (tr_id tr) MetadataKey i)
                     | None \<Rightarrow> io_ret ())
                   (h c' q)))"

definition logid_Client :: "('l, 'q, 'r) middleware" where
  "logid_Client h c q =
     io_then (let i = logid_FromContext c in
              if i \<noteq> [] then (case client_tr c of
                   Some tr \<Rightarrow> emit (RequestHeaderSet (tr_id tr) MetadataKey i)
                 | None \<Rightarrow> io_ret ())
              else io_ret ())
       (h c q)"

section \<open>Both middlewares are observers\<close>

definition logid_enter ::
  "('l world \<Rightarrow> string \<times> 'l world) \<Rightarrow> ctx \<Rightarrow> ('l world, ctx \<times> unit) io" where
  "logid_enter uuid c =
     (let id0 = (case server_tr c of None \<Rightarrow> [] | Some tr \<Rightarrow> tr_request tr MetadataKey)
      in io_bind (if id0 = [] then io_call uuid else io_ret id0)
          (\<lambda>i. io_then (case server_tr c of
                  Some tr \<Rightarrow> emit (ReplyHeaderSet (tr_id tr) MetadataKey i)
                | None \<Rightarrow> io_ret ())
              (io_ret (logid_NewContext c i, ()))))"

definition logid_client_enter :: "ctx \<Rightarrow> ('l world, ctx \<times> unit) io" where
  "logid_client_enter c =
     io_then (case client_tr c of
        Some tr \<Rightarrow> (if logid_FromContext c = [] then io_ret ()
                  else emit (RequestHeaderSet (tr_id tr) MetadataKey (logid_FromContext c)))
      | None \<Rightarrow> io_ret ()) (io_ret (c, ()))"

definition no_report :: "unit \<Rightarrow> ctx \<Rightarrow> 'r gores \<Rightarrow> ('l world, unit) io" where
  "no_report _ c r = io_ret ()"

interpretation logid_srv: observer_mw "logid_Server uuid" "logid_enter uuid" no_report
  for uuid :: "'l world \<Rightarrow> string \<times> 'l world"
  by unfold_locales
     (auto simp: logid_Server_def logid_enter_def no_report_def Let_def io_monad
       logid_NewContext_def split: option.splits intro!: io_total_bind)

interpretation logid_cli: observer_mw logid_Client logid_client_enter no_report
  by unfold_locales
     (auto simp: logid_Client_def logid_client_enter_def no_report_def Let_def io_monad
       split: option.splits intro!: io_total_bind)


section \<open>What the wrapped handler sees\<close>

lemma logid_Server_generates:
  assumes "server_tr c = Some tr" and "tr_request tr MetadataKey = []"
  shows "logid_Server uuid h c q w =
    h (logid_NewContext c (fst (uuid w))) q
      ((snd (uuid w))\<lparr>trace := trace (snd (uuid w)) @ [ReplyHeaderSet (tr_id tr) MetadataKey (fst (uuid w))]\<rparr>)"
  using assms
  by (simp add: logid_Server_def logid_NewContext_def io_simps Let_def split: prod.splits)

lemma logid_Server_keeps:
  assumes "server_tr c = Some tr" and "tr_request tr MetadataKey = i" and "i \<noteq> []"
  shows "logid_Server uuid h c q w =
    h (logid_NewContext c i) q (w\<lparr>trace := trace w @ [ReplyHeaderSet (tr_id tr) MetadataKey i]\<rparr>)"
  using assms by (simp add: logid_Server_def logid_NewContext_def io_simps Let_def)

lemma logid_Client_reaches:
  assumes "client_tr c = Some tr" and "logid_FromContext c \<noteq> []"
  shows "logid_Client h c q w =
    h c q (w\<lparr>trace := trace w @ [RequestHeaderSet (tr_id tr) MetadataKey (logid_FromContext c)]\<rparr>)"
  using assms by (simp add: logid_Client_def io_simps)

lemma FromContext_NewContext:
  "logid_FromContext (logid_NewContext c i) = (case otel_trace_id c of Some t \<Rightarrow> t | None \<Rightarrow> i)"
  by (simp add: logid_FromContext_def logid_NewContext_def split: option.splits)

section \<open>From one service to the next\<close>

text \<open>
  The request headers a transport sends: the \<open>Set\<close> calls made on it, in order, over the headers
  it started with.
\<close>

definition deliver ::
  "('h \<Rightarrow> string \<Rightarrow> string \<Rightarrow> 'h) \<Rightarrow> nat \<Rightarrow> event list \<Rightarrow> 'h \<Rightarrow> 'h" where
  "deliver set_key t evs h0 =
     fold (\<lambda>e h. case e of RequestHeaderSet t' k v \<Rightarrow> (if t' = t then set_key h k v else h) | _ \<Rightarrow> h)
       evs h0"

context carrier
begin

lemma deliver_last: "get (deliver set_key t (evs @ [RequestHeaderSet t k v]) h0) k = v"
  by (simp add: deliver_def get_set_same)

end

section \<open>Properties\<close>

text \<open>
  The inbound middleware: the handler runs exactly once, in a context whose trace id is the
  request's x-trace-id when it is there and not empty and a fresh UUID otherwise; the same id has
  then been set once on the reply header, and nothing else has changed. Without an OTel span that
  id is what \<open>FromContext\<close> returns in the handler, and it is never empty.
\<close>

theorem logid_Server_spec:
  fixes h :: "('l, 'q, 'r) handler"
  assumes "server_tr c = Some tr" and "otel_trace_id c = None" and "fst (uuid w) \<noteq> []"
  shows "\<exists>c' w1. logid_Server uuid h c q w = h c' q w1 \<and> logid_FromContext c' \<noteq> [] \<and>
    (if tr_request tr MetadataKey \<noteq> [] then logid_FromContext c' = tr_request tr MetadataKey
     else logid_FromContext c' = fst (uuid w)) \<and>
    c' = logid_NewContext c (logid_FromContext c') \<and>
    w1 = (if tr_request tr MetadataKey \<noteq> [] then w else snd (uuid w))
      \<lparr>trace := trace (if tr_request tr MetadataKey \<noteq> [] then w else snd (uuid w)) @
         [ReplyHeaderSet (tr_id tr) MetadataKey (logid_FromContext c')]\<rparr>"
proof (cases "tr_request tr MetadataKey = []")
  case True
  have "logid_FromContext (logid_NewContext c (fst (uuid w))) = fst (uuid w)"
    using assms(2) by (simp add: FromContext_NewContext)
  with assms(3) True show ?thesis
    unfolding logid_Server_generates [OF assms(1) True]
    by (intro exI [of _ "logid_NewContext c (fst (uuid w))"] exI conjI) (rule refl | simp)+
next
  case False
  have "logid_FromContext (logid_NewContext c (tr_request tr MetadataKey)) = tr_request tr MetadataKey"
    using assms(2) by (simp add: FromContext_NewContext)
  with False show ?thesis
    unfolding logid_Server_keeps [OF assms(1) refl False]
    by (intro exI [of _ "logid_NewContext c (tr_request tr MetadataKey)"] exI conjI) (rule refl | simp)+
qed

definition demo_tr :: "(string \<Rightarrow> string) \<Rightarrow> transporter" where
  "demo_tr hdrs = \<lparr>tr_id = 1, tr_kind = ''http'', tr_operation = ''/v1/foo'', tr_request = hdrs\<rparr>"

definition demo_ctx :: "(string \<Rightarrow> string) \<Rightarrow> ctx" where
  "demo_ctx hdrs = Background\<lparr>server_tr := Some (demo_tr hdrs)\<rparr>"

theorem logid_Server_spec_witness:
  "fst (logid_Server (\<lambda>w :: unit world. (''u-u-i-d'', w))
      (\<lambda>c q w. (Ok (Some (logid_FromContext c), None), w)) (demo_ctx (\<lambda>_. [])) () demo_world)
    = Ok (Some ''u-u-i-d'', None)"
proof -
  let ?h = "\<lambda>c q w :: unit world. (Ok (Some (logid_FromContext c), None :: error option), w)"
  obtain c' w1 where "logid_Server (\<lambda>w. (''u-u-i-d'', w)) ?h (demo_ctx (\<lambda>_. [])) () demo_world
      = ?h c' () w1" "logid_FromContext c' = ''u-u-i-d''"
    using logid_Server_spec [of "demo_ctx (\<lambda>_. [])" "demo_tr (\<lambda>_. [])" "\<lambda>w. (''u-u-i-d'', w)"
        demo_world ?h "()"]
    by (auto simp: demo_ctx_def demo_tr_def Background_def)
  then show ?thesis by simp
qed

text \<open>
  C18. A trace id survives the hop to another service: the id that \<open>FromContext\<close> returns in the
  caller is the id the callee's handler reads back (no OTel span there) and the id the callee
  mirrors in its reply header, whatever other headers and events there are. The header map is
  net/http's; the proof only uses the contract of a header carrier.
\<close>

theorem trace_id_survives_hop:
  fixes h :: "('l, 'q, 'r) handler"
  assumes "client_tr c = Some tr" and "logid_FromContext c \<noteq> []"
    and "w1 = snd (logid_Client (\<lambda>_ _ w. (Ok (None, None), w)) c q0 w)"
    and "server_tr c2 = Some tr2" and "otel_trace_id c2 = None"
    and "tr_request tr2 = header_Get (deliver header_Set (tr_id tr) (trace w1) hdr0)"
  shows "\<exists>c3. logid_FromContext c3 = logid_FromContext c \<and>
    logid_Server uuid h c2 q w2 = h c3 q
      (w2\<lparr>trace := trace w2 @ [ReplyHeaderSet (tr_id tr2) MetadataKey (logid_FromContext c)]\<rparr>)"
proof -
  have "trace w1 = trace w @ [RequestHeaderSet (tr_id tr) MetadataKey (logid_FromContext c)]"
    using assms by (simp add: logid_Client_reaches)
  then have i: "tr_request tr2 MetadataKey = logid_FromContext c"
    using assms(6) by (simp add: http.deliver_last)
  have "logid_Server uuid h c2 q w2 = h (logid_NewContext c2 (logid_FromContext c)) q
      (w2\<lparr>trace := trace w2 @ [ReplyHeaderSet (tr_id tr2) MetadataKey (logid_FromContext c)]\<rparr>)"
    by (rule logid_Server_keeps [OF assms(4) i assms(2)])
  then show ?thesis
    using assms(5) by (intro exI [of _ "logid_NewContext c2 (logid_FromContext c)"])
      (simp add: FromContext_NewContext)
qed

definition demo_client_ctx :: ctx where
  "demo_client_ctx = Background\<lparr>client_tr := Some (demo_tr (\<lambda>_. [])), logid_key := Some ''trace-1''\<rparr>"

theorem trace_id_survives_hop_witness:
  "\<exists>c3. logid_FromContext c3 = ''trace-1'' \<and>
    logid_Server (\<lambda>w :: unit world. (''fresh'', w)) (\<lambda>c (q :: unit) w. (Ok (Some c, None), w))
      (demo_ctx (header_Get (deliver header_Set 1
         (trace (snd (logid_Client (\<lambda>_ (_ :: unit) w :: unit world. (Ok (None :: unit option, None), w))
            demo_client_ctx () demo_world))) Map.empty))) () demo_world
    = (Ok (Some c3, None),
       demo_world\<lparr>trace := trace (demo_world :: unit world) @ [ReplyHeaderSet 1 MetadataKey ''trace-1'']\<rparr>)"
proof -
  have id: "logid_FromContext demo_client_ctx = ''trace-1''"
    by (simp add: demo_client_ctx_def logid_FromContext_def Background_def)
  let ?q = "\<lambda>_ (_ :: unit) w :: unit world. (Ok (None :: unit option, None :: error option), w)"
  define hdrs where "hdrs = header_Get (deliver header_Set (tr_id (demo_tr (\<lambda>_. [])))
      (trace (snd (logid_Client ?q demo_client_ctx () demo_world))) Map.empty)"
  have "client_tr demo_client_ctx = Some (demo_tr (\<lambda>_. []))" "logid_FromContext demo_client_ctx \<noteq> []"
    "server_tr (demo_ctx hdrs) = Some (demo_tr hdrs)" "otel_trace_id (demo_ctx hdrs) = None"
    by (simp_all add: id) (simp_all add: demo_client_ctx_def demo_ctx_def Background_def)
  moreover have "tr_request (demo_tr hdrs) = header_Get (deliver header_Set (tr_id (demo_tr (\<lambda>_. [])))
      (trace (snd (logid_Client ?q demo_client_ctx () demo_world))) Map.empty)"
    unfolding hdrs_def [symmetric] by (simp add: demo_tr_def)
  ultimately have "\<exists>c3. logid_FromContext c3 = logid_FromContext demo_client_ctx \<and>
      logid_Server (\<lambda>w :: unit world. (''fresh'', w)) (\<lambda>c (q :: unit) w. (Ok (Some c, None), w))
        (demo_ctx hdrs) () demo_world
      = (\<lambda>c (q :: unit) w. (Ok (Some c, None), w)) c3 () (demo_world
          \<lparr>trace := trace (demo_world :: unit world) @
             [ReplyHeaderSet (tr_id (demo_tr hdrs)) MetadataKey (logid_FromContext demo_client_ctx)]\<rparr>)"
    by (intro trace_id_survives_hop [OF _ _ refl])
  then show ?thesis
    by (simp add: id hdrs_def demo_tr_def)
qed

text \<open>
  With an OTel span in the context, the id mirrored to the client and the id the service logs
  differ: \<open>Server\<close> mirrors the header's id (or a UUID) while \<open>FromContext\<close>, which the access log
  uses, returns the span's trace id. The documentation says \<open>logid.Server()\<close> prefers the OTel id.
\<close>

theorem logid_Server_ignores_span:
  assumes "server_tr c = Some tr" and "otel_trace_id c = Some t" and "tr_request tr MetadataKey = i"
    and "i \<noteq> []"
  shows "\<exists>c'. logid_Server uuid h c q w =
      h c' q (w\<lparr>trace := trace w @ [ReplyHeaderSet (tr_id tr) MetadataKey i]\<rparr>) \<and>
    logid_FromContext c' = t"
  using logid_Server_keeps [OF assms(1,3,4)] assms(2)
  by (intro exI [of _ "logid_NewContext c i"]) (simp add: FromContext_NewContext)

theorem logid_Server_ignores_span_witness:
  "\<exists>c'. logid_Server (\<lambda>w :: unit world. (''fresh'', w)) (\<lambda>c (q :: unit) w. (Ok (Some c, None), w))
      ((demo_ctx (\<lambda>_. ''client-id''))\<lparr>otel_trace_id := Some ''span-id''\<rparr>) () demo_world
    = (Ok (Some c', None),
       demo_world\<lparr>trace := trace (demo_world :: unit world) @ [ReplyHeaderSet 1 MetadataKey ''client-id'']\<rparr>) \<and>
    logid_FromContext c' = ''span-id''"
  using logid_Server_ignores_span [of "(demo_ctx (\<lambda>_. ''client-id''))\<lparr>otel_trace_id := Some ''span-id''\<rparr>"
      "demo_tr (\<lambda>_. ''client-id'')" "''span-id''" "''client-id''" "\<lambda>w :: unit world. (''fresh'', w)"
      "\<lambda>c (q :: unit) w. (Ok (Some c, None), w)" "()" demo_world]
  by (simp add: demo_ctx_def demo_tr_def)

end
