(* ===== verification/Access.thy ===== *)
theory Access
  imports Logid
begin

text \<open>
  Package \<open>access\<close> (pkg/middleware/access/access.go): one structured log line per request that
  returns. \<open>err.Error()\<close> is the parameter \<open>err_text\<close>. The logger is the helper built from the
  caller's logger; a call \<open>Infow\<close> or \<open>Warnw\<close> is a \<open>Logw\<close> event.
\<close>

section \<open>Model\<close>

text \<open>\<open>time.Since\<close> saturates at the ends of \<open>time.Duration\<close>; \<open>Milliseconds\<close> truncates.\<close>

definition time_Since :: "int \<Rightarrow> int \<Rightarrow> int" where
  "time_Since now start = max (- (2 ^ 63)) (min (2 ^ 63 - 1) (now - start))"

definition Milliseconds :: "int \<Rightarrow> int" where
  "Milliseconds d = d sdiv 1000000"

definition codeOf :: "error option \<Rightarrow> string" where
  "codeOf err =
     (case err of
        None \<Rightarrow> ''ok''
      | Some e \<Rightarrow> (case As_KErr e of Some (_, reason) \<Rightarrow> reason | None \<Rightarrow> ''error''))"

definition access_fields :: "(error \<Rightarrow> string) \<Rightarrow> ctx \<Rightarrow> error option \<Rightarrow> int \<Rightarrow> (string \<times> gval) list" where
  "access_fields err_text c err latency =
     [(''trace_id'', VStr (logid_FromContext c)), (''kind'', VStr (server_kind c)),
      (''op'', VStr (server_op c)), (''code'', VStr (codeOf err)), (''latency_ms'', VInt latency)] @
     (case err of Some e \<Rightarrow> [(''err'', VStr (err_text e))] | None \<Rightarrow> [])"

definition access_Server :: "(error \<Rightarrow> string) \<Rightarrow> ('l, 'q, 'r) middleware" where
  "access_Server err_text h c q =
     io_bind (io_get clock) (\<lambda>start.
     io_bind (h c q) (\<lambda>(reply, err).
     io_bind (io_get clock) (\<lambda>now.
     io_then (emit (Logw (if err \<noteq> None then LevelWarn else LevelInfo)
         (access_fields err_text c err (Milliseconds (time_Since now start)))))
       (io_ret (reply, err)))))"

section \<open>An observer\<close>

definition access_enter :: "ctx \<Rightarrow> ('l world, ctx \<times> int) io" where
  "access_enter c = io_bind (io_get clock) (\<lambda>start. io_ret (c, start))"

definition access_leave ::
  "(error \<Rightarrow> string) \<Rightarrow> int \<Rightarrow> ctx \<Rightarrow> 'r gores \<Rightarrow> ('l world, unit) io" where
  "access_leave err_text start c r =
     io_bind (io_get clock) (\<lambda>now. emit (Logw (if snd r \<noteq> None then LevelWarn else LevelInfo)
        (access_fields err_text c (snd r) (Milliseconds (time_Since now start)))))"

interpretation access: observer_mw "access_Server err_text" access_enter "access_leave err_text"
  for err_text
  by unfold_locales
     (simp_all add: access_Server_def access_enter_def access_leave_def io_monad case_prod_unfold
       io_total_bind)

lemma access_enter_apply: "access_enter c w = (Ok (c, clock w), w)"
  by (simp add: access_enter_def io_simps)

lemma access_leave_apply:
  "access_leave err_text start c r w = (Ok (), w\<lparr>trace := trace w @
     [Logw (if snd r \<noteq> None then LevelWarn else LevelInfo)
       (access_fields err_text c (snd r) (Milliseconds (time_Since (clock w) start)))]\<rparr>)"
  by (simp add: access_leave_def io_simps)

lemmas access_returns = access.return_observed [OF access_enter_apply _ access_leave_apply]
lemmas access_panics = access.panic_unobserved [OF access_enter_apply]
lemmas access_crashes = access.crash_unobserved [OF access_enter_apply]

section \<open>Properties\<close>

lemma whole_part_bounds:
  fixes d k r u :: int
  assumes "0 \<le> k" "0 \<le> r" "r < u" "d = k * u + r"
  shows "0 \<le> k \<and> k * u \<le> d \<and> d < (k + 1) * u"
  using assms by (simp add: distrib_right)

text \<open>
  The latency of an access line is the whole number of milliseconds the handler took: with a
  clock that does not go backwards and a handler that takes less than 292 years, \<open>latency_ms\<close> is
  not negative and off by less than one millisecond.
\<close>

theorem access_latency_bounds:
  assumes "start \<le> now" and "now - start < 2 ^ 63"
  shows "0 \<le> Milliseconds (time_Since now start) \<and>
    Milliseconds (time_Since now start) * 1000000 \<le> now - start \<and>
    now - start < (Milliseconds (time_Since now start) + 1) * 1000000"
proof -
  have "time_Since now start = now - start"
    using assms by (simp add: time_Since_def)
  moreover have "(now - start) sdiv 1000000 = (now - start) div 1000000"
    using assms by (intro sdiv_nonneg) simp_all
  ultimately have "Milliseconds (time_Since now start) = (now - start) div 1000000"
    by (simp add: Milliseconds_def)
  moreover have "0 \<le> (now - start) div 1000000"
    using assms(1) by (simp add: pos_imp_zdiv_nonneg_iff)
  moreover have "0 \<le> (now - start) mod 1000000" "(now - start) mod 1000000 < 1000000"
    by simp_all
  moreover have "now - start = (now - start) div 1000000 * 1000000 + (now - start) mod 1000000"
    by simp
  ultimately show ?thesis
    using whole_part_bounds [of "(now - start) div 1000000" "(now - start) mod 1000000" 1000000 "now - start"]
    by (simp only:)
qed

theorem access_latency_bounds_witness:
  "0 \<le> Milliseconds (time_Since 5999999 1000000) \<and>
    Milliseconds (time_Since 5999999 1000000) * 1000000 \<le> 5999999 - 1000000 \<and>
    5999999 - 1000000 < (Milliseconds (time_Since 5999999 1000000) + 1) * 1000000"
  by (rule access_latency_bounds) simp_all

text \<open>
  The access log: a request whose handler returns gets the handler's result and exactly one
  log line after everything the handler logged, a warning with the error text when the handler
  failed and an info line otherwise; a panic or crash passes through with no line at all.
\<close>

theorem access_Server_spec:
  "access_Server err_text h c q w =
     (case h c q w of
        (Ok r, w1) \<Rightarrow> (Ok r, w1\<lparr>trace := trace w1 @
           [Logw (if snd r = None then LevelInfo else LevelWarn)
             (access_fields err_text c (snd r) (Milliseconds (time_Since (clock w1) (clock w))))]\<rparr>)
      | (Panic v, w1) \<Rightarrow> (Panic v, w1)
      | (Crash v, w1) \<Rightarrow> (Crash v, w1))"
proof (cases "h c q w")
  case (Pair out w1)
  then show ?thesis
    by (cases out) (simp_all add: access_returns access_panics access_crashes)
qed

end
