(* ===== verification/Mw_Metric.thy ===== *)
theory Mw_Metric
  imports Access Metric
begin

text \<open>
  Package \<open>middleware/metric\<close> (pkg/middleware/metric/metric.go): the RED metrics of a request.
  An observation of the latency histogram is recorded in nanoseconds, the duration whose
  \<open>Seconds()\<close> the code hands over.
\<close>

section \<open>Model\<close>

definition metric_code :: "error option \<Rightarrow> string" where
  "metric_code err =
     (case err of
        None \<Rightarrow> ''ok''
      | Some e \<Rightarrow> (case As_KErr e of
            Some (_, reason) \<Rightarrow> (if reason \<noteq> [] then reason else ''error'')
          | None \<Rightarrow> ''error''))"

definition metric_Server :: "('l, 'q, 'r) middleware" where
  "metric_Server h c q =
     io_bind (io_get clock) (\<lambda>start.
     io_bind (h c q) (\<lambda>(reply, err).
     io_then (vec_Inc RequestsTotal [server_kind c, server_op c, metric_code err])
    (io_bind (io_get clock) (\<lambda>now.
     io_then (vec_Observe RequestLatencySeconds [server_kind c, server_op c]
         (time_Since now start))
       (io_ret (reply, err))))))"

section \<open>An observer\<close>

definition metric_leave :: "int \<Rightarrow> ctx \<Rightarrow> 'r gores \<Rightarrow> ('l world, unit) io" where
  "metric_leave start c r =
     io_then (vec_Inc RequestsTotal [server_kind c, server_op c, metric_code (snd r)])
    (io_bind (io_get clock) (\<lambda>now.
       vec_Observe RequestLatencySeconds [server_kind c, server_op c] (time_Since now start)))"

interpretation metric: observer_mw metric_Server access_enter metric_leave
  by unfold_locales
     (auto simp: metric_Server_def access_enter_def metric_leave_def io_monad case_prod_unfold
       intro!: io_total_bind io_total_then)

lemma metric_leave_apply:
  "metric_leave start c r w = (Ok (), w\<lparr>trace := trace w @
     [CounterInc (v_name RequestsTotal) [server_kind c, server_op c, metric_code (snd r)],
      HistObserve (v_name RequestLatencySeconds) [server_kind c, server_op c] (time_Since (clock w) start)]\<rparr>)"
  by (simp add: metric_leave_def io_simps)

lemmas metric_returns = metric.return_observed [OF access_enter_apply _ metric_leave_apply]
lemmas metric_panics = metric.panic_unobserved [OF access_enter_apply]
lemmas metric_crashes = metric.crash_unobserved [OF access_enter_apply]

text \<open>Access logging around metrics is an observer again.\<close>

interpretation access_metric: observer_pair
  "access_Server err_text" access_enter "access_leave err_text" metric_Server access_enter metric_leave
  for err_text
  by unfold_locales

section \<open>Properties\<close>

text \<open>
  The RED metrics: a request whose handler returns gets the handler's result, and exactly one
  increment of \<open>kris_requests_total\<close> and one latency observation are recorded after it, under the
  request's kind and operation and the code of the result; a panic or crash records nothing.
\<close>

theorem metric_Server_spec:
  "metric_Server h c q w =
     (case h c q w of
        (Ok r, w1) \<Rightarrow> (Ok r, w1\<lparr>trace := trace w1 @
           [CounterInc (v_name RequestsTotal) [server_kind c, server_op c, metric_code (snd r)],
            HistObserve (v_name RequestLatencySeconds) [server_kind c, server_op c]
              (time_Since (clock w1) (clock w))]\<rparr>)
      | (Panic v, w1) \<Rightarrow> (Panic v, w1)
      | (Crash v, w1) \<Rightarrow> (Crash v, w1))"
proof (cases "h c q w")
  case (Pair out w1)
  then show ?thesis
    by (cases out) (simp_all add: metric_returns metric_panics metric_crashes)
qed

text \<open>
  Log and metric agree on the code of every result except one: for a kratos error with an
  empty reason the access line says the empty string where the metric says \<open>error\<close>. The metric's
  code label is never empty.
\<close>

theorem codes_agree:
  "(codeOf err = metric_code err \<longleftrightarrow>
      \<not> (\<exists>e code. err = Some e \<and> As_KErr e = Some (code, []))) \<and>
   metric_code err \<noteq> [] \<and> (err = None \<longrightarrow> metric_code err = ''ok'')"
  by (auto simp: codeOf_def metric_code_def split: option.splits if_splits)

theorem codes_agree_witness: "metric_code None = ''ok''"
  using codes_agree [of None] by simp

end
