(* ===== verification/Timeout.thy ===== *)
theory Timeout
  imports Kratos
begin

text \<open>
  Package \<open>timeout\<close> (pkg/middleware/timeout/timeout.go): the handler runs in its own goroutine and
  races against a deadline. The model has two levels.
  \<^item> \<open>tstep\<close> is the race itself as a step relation: the handler goroutine (any program \<open>prog\<close> that may
    look at \<open>ctx.Done()\<close>), the buffered channel, the derived context with its timer and its parent,
    and the caller blocked in \<open>select\<close>.
  \<^item> \<open>timeout_Server\<close> is the middleware as a function on handlers, for use in chains; how the race
    ended is its parameter \<open>sched\<close>.
\<close>

section \<open>Model\<close>

type_synonym timeout_SkipFn = "string \<Rightarrow> bool"

record timeout_options =
  to_timeout :: duration
  to_skipFn :: "(string \<Rightarrow> bool) option"

type_synonym timeout_Option = "timeout_options \<Rightarrow> timeout_options"

definition timeout_WithTimeout :: "duration \<Rightarrow> timeout_Option" where
  "timeout_WithTimeout d o' = o'\<lparr>to_timeout := d\<rparr>"

definition timeout_WithSkip :: "timeout_SkipFn \<Rightarrow> timeout_Option" where
  "timeout_WithSkip f o' = o'\<lparr>to_skipFn := Some f\<rparr>"

definition ErrDeadlineExceeded :: error where
  "ErrDeadlineExceeded = KErr 504 ''DEADLINE_EXCEEDED'' ''handler exceeded configured timeout'' None"

definition timeout_bypassed :: "timeout_options \<Rightarrow> ctx \<Rightarrow> bool" where
  "timeout_bypassed o' c \<longleftrightarrow> sint (to_timeout o') \<le> 0 \<or>
     (case to_skipFn o' of Some f \<Rightarrow> f (server_op c) | None \<Rightarrow> False)"

text \<open>
  \<open>sched\<close> says how the race ends when the handler is started in a given world: \<open>None\<close> when the
  handler ends first, \<open>Some w\<close> when \<open>ctx.Done()\<close> is taken at a moment the world is \<open>w\<close>. The context
  made by \<open>context.WithTimeout\<close> is named \<open>fresh\<close>; the deferred \<open>cancel()\<close> runs on every return.
\<close>

definition timeout_Server ::
  "(ctx \<Rightarrow> 'l world \<Rightarrow> 'l world option) \<Rightarrow> nat \<Rightarrow> timeout_Option list \<Rightarrow>
   ('l, 'q, 'r) middleware" where
  "timeout_Server sched fresh opts h c q =
     (let o' = apply_opts \<lparr>to_timeout = 0, to_skipFn = None\<rparr> opts in
      if timeout_bypassed o' c then h c q
      else
        io_bind (ctx_WithTimeout fresh (to_timeout o') c) (\<lambda>c' w.
          case sched c' w of
            Some w1 \<Rightarrow> (Ok (None, Some ErrDeadlineExceeded), ctx_stop c' w1)
          | None \<Rightarrow> (case h c' q w of
               (Ok r, w1) \<Rightarrow> (Ok r, ctx_stop c' w1)
             | (Panic v, w1) \<Rightarrow> (Crash v, w1)
             | (Crash v, w1) \<Rightarrow> (Crash v, w1))))"

section \<open>The race\<close>

datatype ('s, 'r) hmove = Continue 's | Return "'r gores" | Panics string

datatype ('s, 'r) goroutine = Running 's | Finished "'r gores"

datatype 'r caller = Selecting | Returned "'r gores"

record ('s, 'r) race =
  now :: int
  deadline :: int
  parent_err :: "error option"
  ctx_done :: "error option"
  hnd :: "('s, 'r) goroutine"
  chan :: "'r gores option"
  main :: "'r caller"
  crashed :: "string option"

text \<open>\<open>start\<close> is the state right after the \<open>go\<close> statement.\<close>

definition race_start :: "int \<Rightarrow> int \<Rightarrow> 's \<Rightarrow> ('s, 'r) race" where
  "race_start t d s = \<lparr>now = t, deadline = t + d, parent_err = None, ctx_done = None,
     hnd = Running s, chan = None, main = Selecting, crashed = None\<rparr>"

text \<open>The deferred \<open>cancel()\<close> runs when the caller returns (\<open>cancel_ctx\<close>).\<close>

inductive tstep ::
  "(bool \<Rightarrow> 's \<Rightarrow> ('s, 'r) hmove) \<Rightarrow> ('s, 'r) race \<Rightarrow> ('s, 'r) race \<Rightarrow> bool"
  for prog where
  work: "crashed st = None \<Longrightarrow> hnd st = Running s \<Longrightarrow> prog (ctx_done st \<noteq> None) s = Continue s' \<Longrightarrow>
    tstep prog st (st\<lparr>hnd := Running s'\<rparr>)"
| publish: "crashed st = None \<Longrightarrow> hnd st = Running s \<Longrightarrow> prog (ctx_done st \<noteq> None) s = Return r \<Longrightarrow>
    chan st = None \<Longrightarrow> tstep prog st (st\<lparr>hnd := Finished r, chan := Some r\<rparr>)"
| panic: "crashed st = None \<Longrightarrow> hnd st = Running s \<Longrightarrow> prog (ctx_done st \<noteq> None) s = Panics v \<Longrightarrow>
    tstep prog st (st\<lparr>crashed := Some v\<rparr>)"
| tick: "crashed st = None \<Longrightarrow> now st \<le> t \<Longrightarrow> tstep prog st (st\<lparr>now := t\<rparr>)"
| fire: "crashed st = None \<Longrightarrow> ctx_done st = None \<Longrightarrow> deadline st \<le> now st \<Longrightarrow>
    tstep prog st (st\<lparr>ctx_done := Some DeadlineExceeded\<rparr>)"
| parent: "crashed st = None \<Longrightarrow> ctx_done st = None \<Longrightarrow>
    tstep prog st (st\<lparr>ctx_done := Some e, parent_err := Some e\<rparr>)"
| receive: "crashed st = None \<Longrightarrow> main st = Selecting \<Longrightarrow> chan st = Some r \<Longrightarrow>
    tstep prog st (st\<lparr>chan := None, main := Returned r, ctx_done := cancel_ctx (ctx_done st)\<rparr>)"
| expire: "crashed st = None \<Longrightarrow> main st = Selecting \<Longrightarrow> ctx_done st \<noteq> None \<Longrightarrow>
    tstep prog st (st\<lparr>main := Returned (None, Some ErrDeadlineExceeded)\<rparr>)"

inductive_cases tstep_cases: "tstep prog st st'"

text \<open>The result of the handler when nothing cancels it, within \<open>n\<close> moves.\<close>

fun run_prog :: "(bool \<Rightarrow> 's \<Rightarrow> ('s, 'r) hmove) \<Rightarrow> nat \<Rightarrow> 's \<Rightarrow> 'r gores option" where
  "run_prog prog 0 s = None"
| "run_prog prog (Suc n) s =
     (case prog False s of
        Continue s' \<Rightarrow> run_prog prog n s'
      | Return r \<Rightarrow> Some r
      | Panics v \<Rightarrow> None)"

section \<open>Invariant\<close>

definition race_inv :: "('s, 'r) race \<Rightarrow> bool" where
  "race_inv st \<longleftrightarrow>
     (case hnd st of Running s \<Rightarrow> chan st = None | Finished r \<Rightarrow> chan st \<in> {None, Some r}) \<and>
     (case main st of
        Returned x \<Rightarrow> hnd st = Finished x \<or> x = (None, Some ErrDeadlineExceeded) \<and>
          (deadline st \<le> now st \<or> parent_err st \<noteq> None)
      | Selecting \<Rightarrow> ctx_done st \<noteq> None \<longrightarrow> deadline st \<le> now st \<or> parent_err st \<noteq> None)"

lemma race_inv_start: "race_inv (race_start t d s)"
  by (simp add: race_inv_def race_start_def)

lemma race_inv_step:
  assumes "tstep prog st st'" and "race_inv st"
  shows "race_inv st'"
  using assms
  by (induction rule: tstep.induct)
     (auto simp: race_inv_def split: goroutine.splits caller.splits)

interpretation race: interleaving "\<lambda>st. \<exists>t d s. st = race_start t d s" "tstep prog" race_inv
  for prog :: "bool \<Rightarrow> 's \<Rightarrow> ('s, 'r) hmove"
  by unfold_locales (auto intro: race_inv_start race_inv_step)

lemma race_inv_reachable:
  assumes "(tstep prog)\<^sup>*\<^sup>* (race_start t d s) st"
  shows "race_inv st"
  by (rule race.inv_reachable [OF _ assms]) blast

lemma deadline_reachable:
  assumes "(tstep prog)\<^sup>*\<^sup>* (race_start t d s) st"
  shows "deadline st = t + d"
  using assms
  by (induction rule: rtranclp_induct) (auto simp: race_start_def elim!: tstep_cases)

lemma running_no_chan:
  assumes "race_inv st" and "hnd st = Running s"
  shows "chan st = None"
  using assms by (simp add: race_inv_def)

section \<open>A small handler\<close>

text \<open>Three moves of work, then the reply 7; it gives up when its context is done.\<close>

definition demo_prog :: "bool \<Rightarrow> nat \<Rightarrow> (nat, nat) hmove" where
  "demo_prog done s =
     (if done then Return (None, Some Canceled)
      else if s < 3 then Continue (s + 1) else Return (Some 7, None))"

lemma demo_run: "run_prog demo_prog 4 0 = Some (Some 7, None)"
  by (simp add: demo_prog_def numeral_eq_Suc)

definition demo_late :: "(nat, nat) race" where
  "demo_late = (race_start 0 10 0)\<lparr>now := 11\<rparr>"

lemma demo_late_reachable: "(tstep demo_prog)\<^sup>*\<^sup>* (race_start 0 10 0) demo_late"
  unfolding demo_late_def by (intro r_into_rtranclp tstep.tick) (simp_all add: race_start_def)

definition demo_expired :: "(nat, nat) race" where
  "demo_expired = (demo_late\<lparr>ctx_done := Some DeadlineExceeded\<rparr>)\<lparr>main :=
     Returned (None, Some ErrDeadlineExceeded)\<rparr>"

lemma demo_expired_reachable: "(tstep demo_prog)\<^sup>*\<^sup>* (race_start 0 10 0) demo_expired"
proof -
  have "tstep demo_prog demo_late (demo_late\<lparr>ctx_done := Some DeadlineExceeded\<rparr>)"
    by (rule tstep.fire) (simp_all add: demo_late_def race_start_def)
  moreover have "tstep demo_prog (demo_late\<lparr>ctx_done := Some DeadlineExceeded\<rparr>) demo_expired"
    unfolding demo_expired_def by (rule tstep.expire) (simp_all add: demo_late_def race_start_def)
  ultimately show ?thesis
    using demo_late_reachable by (meson rtranclp.rtrancl_into_rtrancl)
qed

section \<open>Properties\<close>

text \<open>
  C12. What the caller can receive: on every path of the race, once the caller has returned, its
  result is the handler's own result, or it is 504 DEADLINE_EXCEEDED with a nil reply and then the
  deadline has passed or the parent context has ended. The middleware never times out early and
  never invents a result.
\<close>

theorem timeout_result_sound:
  assumes "(tstep prog)\<^sup>*\<^sup>* (race_start t d s) st" and "main st = Returned x"
  shows "hnd st = Finished x \<or>
    x = (None, Some ErrDeadlineExceeded) \<and> (t + d \<le> now st \<or> parent_err st \<noteq> None)"
  using race_inv_reachable [OF assms(1)] deadline_reachable [OF assms(1)] assms(2)
  by (auto simp: race_inv_def)

theorem timeout_result_sound_witness:
  "hnd demo_expired = Finished (None, Some ErrDeadlineExceeded) \<or>
   0 + 10 \<le> now demo_expired \<or> parent_err demo_expired \<noteq> None"
  using timeout_result_sound [OF demo_expired_reachable, of "(None, Some ErrDeadlineExceeded)"]
  by (simp add: demo_expired_def)

lemma work_run:
  assumes "run_prog prog n s = Some r" and "main st = Selecting" and "chan st = None"
    and "ctx_done st = None" and "crashed st = None" and "hnd st = Running s"
  shows "(tstep prog)\<^sup>*\<^sup>* st (st\<lparr>hnd := Finished r, chan := None, main := Returned r,
    ctx_done := Some Canceled\<rparr>)"
  using assms
proof (induction n arbitrary: s st)
  case 0
  then show ?case by simp
next
  case (Suc n)
  show ?case
  proof (cases "prog False s")
    case (Continue s')
    then have "tstep prog st (st\<lparr>hnd := Running s'\<rparr>)"
      using Suc.prems by (intro tstep.work) simp_all
    moreover have "(tstep prog)\<^sup>*\<^sup>* (st\<lparr>hnd := Running s'\<rparr>) ((st\<lparr>hnd := Running s'\<rparr>)\<lparr>hnd := Finished r,
        chan := None, main := Returned r, ctx_done := Some Canceled\<rparr>)"
      using Suc.prems Continue by (intro Suc.IH [of s']) simp_all
    ultimately show ?thesis
      by (simp add: converse_rtranclp_into_rtranclp)
  next
    case (Return r')
    then have r: "r' = r"
      using Suc.prems by simp
    have "tstep prog st (st\<lparr>hnd := Finished r, chan := Some r\<rparr>)"
      using Suc.prems Return r by (intro tstep.publish) simp_all
    moreover have "tstep prog (st\<lparr>hnd := Finished r, chan := Some r\<rparr>) ((st\<lparr>hnd := Finished r, chan := Some r\<rparr>)
        \<lparr>chan := None, main := Returned r, ctx_done := cancel_ctx None\<rparr>)"
      using Suc.prems tstep.receive [of "st\<lparr>hnd := Finished r, chan := Some r\<rparr>" r prog] by simp
    ultimately show ?thesis
      by (auto simp: cancel_ctx_def intro: converse_rtranclp_into_rtranclp)
  next
    case (Panics v)
    then show ?thesis
      using Suc.prems by simp
  qed
qed

text \<open>
  A handler that ends by itself can always be waited for: if it reaches the result \<open>r\<close> in some
  number of moves, there is a run in which the caller returns exactly \<open>r\<close>, with no time passing at
  all and the derived context cancelled afterwards.
\<close>

theorem timeout_delivers:
  assumes "run_prog prog n s = Some r"
  shows "\<exists>st. (tstep prog)\<^sup>*\<^sup>* (race_start t d s) st \<and> main st = Returned r \<and>
    now st = t \<and> ctx_done st = Some Canceled \<and> hnd st = Finished r"
proof (intro exI conjI)
  let ?st = "(race_start t d s)\<lparr>hnd := Finished r, chan := None, main := Returned r,
    ctx_done := Some Canceled\<rparr>"
  show "(tstep prog)\<^sup>*\<^sup>* (race_start t d s) ?st"
    using assms by (rule work_run) (simp_all add: race_start_def)
qed (simp_all add: race_start_def)

theorem timeout_delivers_witness:
  "\<exists>st. (tstep demo_prog)\<^sup>*\<^sup>* (race_start 0 10 0) st \<and> main st = Returned (Some 7, None) \<and>
    now st = 0 \<and> ctx_done st = Some Canceled \<and> hnd st = Finished (Some 7, None)"
  by (rule timeout_delivers [OF demo_run])

text \<open>
  C13. The caller is never held by the handler: in every reachable state of a live process in which
  the deadline has passed, the caller has returned, or returns within two steps that involve
  neither the handler nor the clock.
\<close>

theorem timeout_responsive:
  assumes "(tstep prog)\<^sup>*\<^sup>* (race_start t d s) st" and "crashed st = None" and "t + d \<le> now st"
  shows "(\<exists>x. main st = Returned x) \<or>
    (\<exists>st1 st2 x. (tstep prog)\<^sup>=\<^sup>= st st1 \<and> tstep prog st1 st2 \<and> main st2 = Returned x \<and>
       hnd st2 = hnd st \<and> now st2 = now st)"
proof (cases "main st")
  case Selecting
  define st1 where
    "st1 = (if ctx_done st = None then st\<lparr>ctx_done := Some DeadlineExceeded\<rparr> else st)"
  have "(tstep prog)\<^sup>=\<^sup>= st st1"
    using assms deadline_reachable [OF assms(1)] by (auto simp: st1_def intro: tstep.fire)
  moreover have "tstep prog st1 (st1\<lparr>main := Returned (None, Some ErrDeadlineExceeded)\<rparr>)"
    using assms Selecting by (intro tstep.expire) (auto simp: st1_def)
  ultimately show ?thesis
    by (intro disjI2 exI [of _ st1] exI
          [of _ "st1\<lparr>main := Returned (None, Some ErrDeadlineExceeded)\<rparr>"]
          exI [of _ "(None, Some ErrDeadlineExceeded)"] conjI) (simp_all add: st1_def)
qed simp

theorem timeout_responsive_witness:
  "\<exists>st1 st2 x. (tstep demo_prog)\<^sup>=\<^sup>= demo_late st1 \<and> tstep demo_prog st1 st2 \<and> main st2 = Returned x \<and>
     hnd st2 = hnd demo_late \<and> now st2 = now demo_late"
proof -
  have "crashed demo_late = None" and "0 + 10 \<le> now demo_late" and "main demo_late = Selecting"
    by (simp_all add: demo_late_def race_start_def)
  then show ?thesis
    using timeout_responsive [OF demo_late_reachable] by simp
qed

text \<open>
  C14. A late handler does not leak: at any moment a live handler goroutine that is about to return
  can publish its result, also when the caller has long gone, because the channel has room for it.
\<close>

theorem late_handler_never_blocks:
  assumes "(tstep prog)\<^sup>*\<^sup>* (race_start t d s) st" and "crashed st = None"
    and "hnd st = Running s'" and "prog (ctx_done st \<noteq> None) s' = Return r"
  shows "\<exists>st'. tstep prog st st' \<and> hnd st' = Finished r \<and> main st' = main st"
  using tstep.publish [of st s' prog r] running_no_chan [OF race_inv_reachable [OF assms(1)] assms(3)]
    assms by fastforce

theorem late_handler_never_blocks_witness:
  "\<exists>st'. tstep demo_prog demo_expired st' \<and> hnd st' = Finished (None, Some Canceled) \<and>
     main st' = Returned (None, Some ErrDeadlineExceeded)"
proof -
  have "crashed demo_expired = None" and "hnd demo_expired = Running 0"
    and "demo_prog (ctx_done demo_expired \<noteq> None) 0 = Return (None, Some Canceled)"
    and "main demo_expired = Returned (None, Some ErrDeadlineExceeded)"
    by (simp_all add: demo_expired_def demo_late_def race_start_def demo_prog_def)
  then show ?thesis
    using late_handler_never_blocks [OF demo_expired_reachable] by simp
qed

text \<open>
  A panic of the handler takes the process down: the deferred \<open>recover\<close> of an outer middleware
  runs in the caller's goroutine, which is still blocked in \<open>select\<close> when the handler's goroutine
  panics; after that there is no further step.
\<close>

theorem handler_panic_kills_process:
  assumes "prog False s = Panics v"
  shows "\<exists>st. (tstep prog)\<^sup>*\<^sup>* (race_start t d s) st \<and> crashed st = Some v \<and> main st = Selecting \<and>
    \<not> (\<exists>st'. tstep prog st st')"
proof (intro exI conjI)
  let ?st = "(race_start t d s)\<lparr>crashed := Some v\<rparr>"
  have "tstep prog (race_start t d s) ?st"
    using assms by (intro tstep.panic) (simp_all add: race_start_def)
  then show "(tstep prog)\<^sup>*\<^sup>* (race_start t d s) ?st" ..
  show "\<not> (\<exists>st'. tstep prog ?st st')"
    by (auto elim: tstep_cases)
qed (simp_all add: race_start_def)

theorem handler_panic_kills_process_witness:
  "\<exists>st. (tstep (\<lambda>_ _. Panics ''boom''))\<^sup>*\<^sup>* (race_start 0 10 (0 :: nat)) (st :: (nat, nat) race) \<and>
     crashed st = Some ''boom'' \<and> main st = Selecting \<and> \<not> (\<exists>st'. tstep (\<lambda>_ _. Panics ''boom'') st st')"
  by (rule handler_panic_kills_process) simp

section \<open>The middleware in a chain\<close>

lemma timeout_bypass:
  assumes "timeout_bypassed (apply_opts \<lparr>to_timeout = 0, to_skipFn = None\<rparr> opts) c"
  shows "timeout_Server sched fresh opts h c q w = h c q w"
  using assms by (simp add: timeout_Server_def Let_def)

lemma timeout_panic:
  assumes "\<not> timeout_bypassed (apply_opts \<lparr>to_timeout = 0, to_skipFn = None\<rparr> opts) c"
    and "\<And>w. sched (c\<lparr>cid := fresh\<rparr>) w = None" and "\<And>w. fst (h (c\<lparr>cid := fresh\<rparr>) q w) = Panic v"
  shows "\<exists>w1. timeout_Server sched fresh opts h c q w = (Crash v, w1)"
proof -
  let ?w = "ctx_start fresh (to_timeout (apply_opts \<lparr>to_timeout = 0, to_skipFn = None\<rparr> opts)) c w"
  obtain w1 where "h (c\<lparr>cid := fresh\<rparr>) q ?w = (Panic v, w1)"
    using assms(3) by (metis prod.collapse)
  then show ?thesis
    using assms(1,2) by (simp add: timeout_Server_def Let_def io_simps)
qed

lemma timeout_Server_fst:
  assumes "\<not> timeout_bypassed (apply_opts \<lparr>to_timeout = 0, to_skipFn = None\<rparr> opts) c"
  shows "fst (timeout_Server sched fresh opts h c q w) =
    (let w0 = ctx_start fresh (to_timeout (apply_opts \<lparr>to_timeout = 0, to_skipFn = None\<rparr> opts)) c w
     in case sched (c\<lparr>cid := fresh\<rparr>) w0 of
          Some _ \<Rightarrow> Ok (None, Some ErrDeadlineExceeded)
        | None \<Rightarrow> (case fst (h (c\<lparr>cid := fresh\<rparr>) q w0) of Ok r \<Rightarrow> Ok r | Panic v \<Rightarrow> Crash v | Crash v \<Rightarrow> Crash v))"
  using assms by (simp add: timeout_Server_def Let_def io_simps split: option.splits prod.splits res.splits)

text \<open>
  The middleware as a whole: with a non-positive timeout or for an exempt operation it is the
  handler itself, in the caller's goroutine and context; otherwise the handler gets the same
  request and a context with the same values, no later deadline and a cancellation of its own; its
  result is returned unchanged unless the deadline wins, when the caller gets 504 DEADLINE_EXCEEDED,
  and whenever the caller returns the handler's context is done.
\<close>

theorem timeout_Server_spec:
  fixes opts c fresh
  defines "o' \<equiv> apply_opts \<lparr>to_timeout = 0, to_skipFn = None\<rparr> opts"
    and "c' \<equiv> c\<lparr>cid := fresh\<rparr>"
  shows "(timeout_bypassed o' c \<longrightarrow> timeout_Server sched fresh opts h c q w = h c q w) \<and>
    (\<not> timeout_bypassed o' c \<longrightarrow> (\<exists>w0 dl. deadlines w0 fresh = Some dl \<and> dl \<le> clock w + sint (to_timeout o') \<and>
       (case timeout_Server sched fresh opts h c q w of (res, w') \<Rightarrow>
         res = (case sched c' w0 of
            Some _ \<Rightarrow> Ok (None, Some ErrDeadlineExceeded)
          | None \<Rightarrow> (case fst (h c' q w0) of Ok r \<Rightarrow> Ok r | Panic v \<Rightarrow> Crash v | Crash v \<Rightarrow> Crash v)) \<and>
         (\<forall>r. res = Ok r \<longrightarrow> ctx_Err c' w' \<noteq> None))))"
proof -
  let ?w0 = "ctx_start fresh (to_timeout o') c w"
  show ?thesis
  proof (intro conjI impI exI)
    show "timeout_Server sched fresh opts h c q w = h c q w" if "timeout_bypassed o' c"
      using that unfolding o'_def by (rule timeout_bypass)
    show "deadlines ?w0 fresh = Some (earlier (deadlines w (cid c)) (clock w + sint (to_timeout o')))"
      and "earlier (deadlines w (cid c)) (clock w + sint (to_timeout o')) \<le> clock w + sint (to_timeout o')"
      by (simp_all add: ctx_start_def earlier_def split: option.split)
    show "case timeout_Server sched fresh opts h c q w of (res, w') \<Rightarrow>
         res = (case sched c' ?w0 of
            Some _ \<Rightarrow> Ok (None, Some ErrDeadlineExceeded)
          | None \<Rightarrow> (case fst (h c' q ?w0) of Ok r \<Rightarrow> Ok r | Panic v \<Rightarrow> Crash v | Crash v \<Rightarrow> Crash v)) \<and>
         (\<forall>r. res = Ok r \<longrightarrow> ctx_Err c' w' \<noteq> None)" if "\<not> timeout_bypassed o' c"
      using that by (simp add: timeout_Server_def Let_def io_simps o'_def c'_def split: option.splits prod.splits res.splits)
  qed
qed

text \<open>
  The two levels agree: whatever the caller of the race received is what the middleware returns for
  some outcome \<open>sched\<close>, for a handler whose result is what the handler goroutine finished with.
\<close>

lemma race_is_covered:
  assumes "(tstep prog)\<^sup>*\<^sup>* (race_start t d s) st" and "main st = Returned x"
    and "\<not> timeout_bypassed (apply_opts \<lparr>to_timeout = 0, to_skipFn = None\<rparr> opts) c"
    and "\<And>r w. hnd st = Finished r \<Longrightarrow> fst (h (c\<lparr>cid := fresh\<rparr>) q w) = Ok r"
  shows "\<exists>sched. fst (timeout_Server sched fresh opts h c q w) = Ok x"
proof (cases "hnd st = Finished x")
  case True
  then have "fst (timeout_Server (\<lambda>_ _. None) fresh opts h c q w) = Ok x"
    using timeout_Server_fst [OF assms(3), of "\<lambda>_ _. None" fresh h q w] assms(4) by simp
  then show ?thesis by blast
next
  case False
  then have "x = (None, Some ErrDeadlineExceeded)"
    using race_inv_reachable [OF assms(1)] assms(2) by (auto simp: race_inv_def)
  then have "fst (timeout_Server (\<lambda>_. Some) fresh opts h c q w) = Ok x"
    using timeout_Server_fst [OF assms(3), of "\<lambda>_. Some" fresh h q w] by simp
  then show ?thesis by blast
qed

theorem timeout_Server_spec_witness:
  "fst (timeout_Server (\<lambda>_ _. None) 1 [timeout_WithTimeout 5] (\<lambda>c q. io_ret (Some (q + cid c), None))
     Background (2 :: nat) (demo_world :: unit world)) = Ok (Some 3, None)"
proof -
  have "\<not> timeout_bypassed (apply_opts \<lparr>to_timeout = 0, to_skipFn = None\<rparr> [timeout_WithTimeout 5]) Background"
    by (simp add: timeout_bypassed_def timeout_WithTimeout_def)
  then show ?thesis
    using timeout_Server_spec [of "[timeout_WithTimeout 5]" Background "\<lambda>_ _. None" 1
        "\<lambda>c q. io_ret (Some (q + cid c), None)" 2 "demo_world :: unit world"]
    by (auto simp: io_ret_def)
qed

end
