(* ===== verification/Server_Chain.thy ===== *)
theory Server_Chain
  imports Recovery Mw_Metric Auth Ratelimit Timeout
begin

text \<open>
  Package \<open>server\<close>, the part that puts the middlewares together (pkg/runtime/server/grpc.go, http.go,
  types.go). kratos's \<open>middleware.Chain\<close>, \<open>tracing.Server\<close> and \<open>khttp.DefaultErrorEncoder\<close> are
  parameters (\<open>chain\<close>, \<open>tracing\<close>, and \<open>encode\<close>: what encoding an error does to the response writer),
  as are the parameters of the middlewares; they are gathered in the record \<open>runtime\<close>. A server is
  what it was configured with: the options handed to \<open>NewServer\<close> and the routes registered on it.
\<close>

section \<open>Model\<close>

type_synonym error_encoder = "http_request \<Rightarrow> error \<Rightarrow> response \<Rightarrow> response"

record ('l, 'q, 'r) runtime =
  rt_recov :: "('l, 'q) panic_handler \<Rightarrow> ('l, 'q, 'r) middleware"
  rt_tracing :: "('l, 'q, 'r) middleware"
  rt_uuid :: "'l world \<Rightarrow> string \<times> 'l world"
  rt_err_text :: "error \<Rightarrow> string"
  rt_chain :: "('l, 'q, 'r) middleware list \<Rightarrow> ('l, 'q, 'r) middleware"
  rt_encode :: error_encoder

definition defaultChain :: "('l, 'q, 'r) runtime \<Rightarrow> ('l, 'q, 'r) middleware list" where
  "defaultChain rt =
     [recovery_Server (rt_recov rt), rt_tracing rt, logid_Server (rt_uuid rt),
      access_Server (rt_err_text rt), metric_Server]"

record GRPCConfig =
  g_Network :: string
  g_Addr :: string
  g_Timeout :: duration
  g_TLSConfig :: "nat option"

datatype ('l, 'q, 'r) server_option =
    OptMiddleware "('l, 'q, 'r) middleware list"
  | OptNetwork string
  | OptAddress string
  | OptTimeout duration
  | OptFilter "'l http_filter list"
  | OptTLSConfig nat

record ('l, 'q, 'r) grpc_server =
  gs_options :: "('l, 'q, 'r) server_option list"
  gs_services :: "string list"

type_synonym ('l, 'q, 'r) GRPCRegistrar = "('l, 'q, 'r) grpc_server \<Rightarrow> ('l, 'q, 'r) grpc_server"

definition NewGRPCServer ::
  "('l, 'q, 'r) runtime \<Rightarrow> GRPCConfig \<Rightarrow> ('l, 'q, 'r) GRPCRegistrar option \<Rightarrow>
   ('l, 'q, 'r) middleware list \<Rightarrow> ('l, 'q, 'r) grpc_server" where
  "NewGRPCServer rt cfg register extra =
     (let mws = defaultChain rt @ extra;
          opts = [OptMiddleware mws] @
            (if g_Network cfg \<noteq> [] then [OptNetwork (g_Network cfg)] else []) @
            (if g_Addr cfg \<noteq> [] then [OptAddress (g_Addr cfg)] else []) @
            (if 0 < sint (g_Timeout cfg) then [OptTimeout (g_Timeout cfg)] else []) @
            (case g_TLSConfig cfg of Some t \<Rightarrow> [OptTLSConfig t] | None \<Rightarrow> []);
          srv = \<lparr>gs_options = opts, gs_services = []\<rparr>
      in (case register of Some f \<Rightarrow> f srv | None \<Rightarrow> srv))"

record 'l HTTPConfig =
  h_Network :: string
  h_Addr :: string
  h_Timeout :: duration
  h_Filters :: "'l http_filter list"
  h_TLSConfig :: "nat option"

definition baseHTTPOpts :: "'l HTTPConfig \<Rightarrow> ('l, 'q, 'r) server_option list" where
  "baseHTTPOpts cfg =
     (if h_Network cfg \<noteq> [] then [OptNetwork (h_Network cfg)] else []) @
     (if h_Addr cfg \<noteq> [] then [OptAddress (h_Addr cfg)] else []) @
     (if 0 < sint (h_Timeout cfg) then [OptTimeout (h_Timeout cfg)] else []) @
     (if h_Filters cfg \<noteq> [] then [OptFilter (h_Filters cfg)] else []) @
     (case h_TLSConfig cfg of Some t \<Rightarrow> [OptTLSConfig t] | None \<Rightarrow> [])"

record ('l, 'q, 'r) khttp_server =
  ks_options :: "('l, 'q, 'r) server_option list"
  ks_routes :: "(string \<times> 'l http_handler) list"

definition khttp_NewServer :: "('l, 'q, 'r) server_option list \<Rightarrow> ('l, 'q, 'r) khttp_server" where
  "khttp_NewServer opts = \<lparr>ks_options = opts, ks_routes = []\<rparr>"

definition khttp_HandleFunc ::
  "string \<Rightarrow> 'l http_handler \<Rightarrow> ('l, 'q, 'r) khttp_server \<Rightarrow> ('l, 'q, 'r) khttp_server" where
  "khttp_HandleFunc path h s = s\<lparr>ks_routes := ks_routes s @ [(path, h)]\<rparr>"

text \<open>A middleware of an HTTP route has the request as its \<open>req\<close>, and no reply.\<close>

type_synonym 'l http_middleware = "('l, http_request, unit) middleware"

record 'l BizHTTPServer =
  biz_S :: "('l, http_request, unit) khttp_server"
  biz_chain :: "'l http_middleware list"

definition wrapHandler ::
  "('l http_middleware list \<Rightarrow> 'l http_middleware) \<Rightarrow> error_encoder \<Rightarrow> 'l http_middleware list \<Rightarrow>
   'l http_handler \<Rightarrow> 'l http_handler" where
  "wrapHandler chain encode mws h =
     (if mws = [] then h
      else (\<lambda>wr r.
        io_bind (chain mws (\<lambda>c _. io_then (h wr (r\<lparr>r_ctx := c\<rparr>)) (io_ret (None, None))) (r_ctx r) r)
          (\<lambda>(_, err). case err of 
              Some e \<Rightarrow> io_then (emit (ErrorEncoded wr e)) (with_writer wr (encode r e))
            | None \<Rightarrow> io_ret ())))"

definition biz_HandleFunc ::
  "('l http_middleware list \<Rightarrow> 'l http_middleware) \<Rightarrow> error_encoder \<Rightarrow> string \<Rightarrow> 'l http_handler \<Rightarrow>
   'l BizHTTPServer \<Rightarrow> 'l BizHTTPServer" where
  "biz_HandleFunc chain encode path h b =
     b\<lparr>biz_S := khttp_HandleFunc path (wrapHandler chain encode (biz_chain b) h) (biz_S b)\<rparr>"

text \<open>\<open>Handle\<close> registers the \<open>ServeHTTP\<close> method of an \<open>http.Handler\<close>, which is such a function.\<close>

definition biz_Handle ::
  "('l http_middleware list \<Rightarrow> 'l http_middleware) \<Rightarrow> error_encoder \<Rightarrow> string \<Rightarrow> 'l http_handler \<Rightarrow>
   'l BizHTTPServer \<Rightarrow> 'l BizHTTPServer" where
  "biz_Handle chain encode path serveHTTP b =
     b\<lparr>biz_S := khttp_HandleFunc path (wrapHandler chain encode (biz_chain b) serveHTTP) (biz_S b)\<rparr>"

type_synonym 'l HTTPRegistrar = "'l BizHTTPServer \<Rightarrow> 'l BizHTTPServer"

definition NewBizHTTPServer ::
  "('l, http_request, unit) runtime \<Rightarrow> 'l HTTPConfig \<Rightarrow>
   'l HTTPRegistrar option \<Rightarrow> 'l http_middleware list \<Rightarrow> 'l BizHTTPServer" where
  "NewBizHTTPServer rt cfg register extra =
     (let mws = defaultChain rt @ extra;
          opts = [OptMiddleware mws] @ baseHTTPOpts cfg;
          biz = \<lparr>biz_S = khttp_NewServer opts, biz_chain = mws\<rparr>
      in (case register of Some f \<Rightarrow> f biz | None \<Rightarrow> biz))"

section \<open>What is relied on of kratos\<close>

text \<open>
  \<open>tracing.Server\<close> starts a span and calls the handler with a context that carries it; spans are
  not part of the world, and the text of a trace id is not empty. \<open>middleware.Chain\<close> composes outer-first.
\<close>

definition spans_only :: "('l, 'q, 'r) middleware \<Rightarrow> bool" where
  "spans_only tracing \<longleftrightarrow>
     (\<forall>h c q w. \<exists>t. t \<noteq> Some [] \<and> tracing h c q w = h (c\<lparr>otel_trace_id := t\<rparr>) q w)"

definition runtime_ok :: "('l, 'q, 'r) runtime \<Rightarrow> bool" where
  "runtime_ok rt \<longleftrightarrow> recovers (rt_recov rt) \<and> spans_only (rt_tracing rt) \<and> outer_first (rt_chain rt)"

text \<open>
  What is relied on of \<open>DefaultErrorEncoder\<close>: a kratos error is answered with its code, unless the
  response has been begun; then the status line that was sent stands (net/http ignores a second one).
\<close>

definition encoder_ok :: "error_encoder \<Rightarrow> bool" where
  "encoder_ok encode \<longleftrightarrow> (\<forall>r e rw.
     (case rw_sent rw of
        None \<Rightarrow> (\<forall>code reason. As_KErr e = Some (code, reason) \<and> 100 \<le> code \<and> code \<le> 999 \<longrightarrow>
          map_option fst (rw_sent (encode r e rw)) = Some (nat code))
      | Some sent \<Rightarrow> rw_sent (encode r e rw) = Some sent))"

text \<open>A runtime that satisfies both.\<close>

definition demo_runtime :: "('l, 'q, 'r) runtime" where
  "demo_runtime = \<lparr>rt_recov = deferred_recover, rt_tracing = (\<lambda>h c. h (c\<lparr>otel_trace_id := None\<rparr>)),
     rt_uuid = (\<lambda>w. (''u'', w)), rt_err_text = (\<lambda>_. ''err''),
     rt_chain = (\<lambda>ms h. foldr (\<lambda>m h'. m h') ms h),
     rt_encode = (\<lambda>r e rw. rw_WriteHeader (case As_KErr e of Some (code, _) \<Rightarrow> nat code | None \<Rightarrow> 500) rw)\<rparr>"

lemma demo_runtime_ok: "runtime_ok demo_runtime"
  by (auto simp: runtime_ok_def demo_runtime_def deferred_recover_recovers spans_only_def outer_first_def)

lemma demo_runtime_encoder: "encoder_ok (rt_encode demo_runtime)"
  by (auto simp: encoder_ok_def demo_runtime_def rw_WriteHeader_def split: option.split)

section \<open>The default chain\<close>

lemma chain_unfold:
  assumes "runtime_ok rt"
  shows "rt_chain rt (defaultChain rt @ extra) h c q w =
    recovery_Server (rt_recov rt) (rt_tracing rt (logid_Server (rt_uuid rt)
      (access_Server (rt_err_text rt) (metric_Server (foldr (\<lambda>m h'. m h') extra h))))) c q w"
  using assms by (simp add: runtime_ok_def outer_first_def defaultChain_def)

text \<open>The trace id a request runs under, and the world after it has been determined.\<close>

definition request_id :: "('l, 'q, 'r) runtime \<Rightarrow> transporter \<Rightarrow> 'l world \<Rightarrow> string \<times> 'l world" where
  "request_id rt tr w =
     (let i = tr_request tr MetadataKey in if i \<noteq> [] then (i, w) else rt_uuid rt w)"

text \<open>What the chain records when the inner handler returns \<open>r\<close> in world \<open>w2\<close>, started in \<open>w1\<close>.\<close>

definition request_events ::
  "('l, 'q, 'r) runtime \<Rightarrow> ctx \<Rightarrow> 'r gores \<Rightarrow> 'l world \<Rightarrow> 'l world \<Rightarrow> event list" where
  "request_events rt c r w1 w2 =
     [CounterInc (v_name RequestsTotal) [server_kind c, server_op c, metric_code (snd r)],
      HistObserve (v_name RequestLatencySeconds) [server_kind c, server_op c]
        (time_Since (clock w2) (clock w1)),
      Logw (if snd r = None then LevelInfo else LevelWarn)
        (access_fields (rt_err_text rt) c (snd r)
          (Milliseconds (time_Since (clock w2) (clock w1))))]"

definition chain_ctx :: "ctx \<Rightarrow> string option \<Rightarrow> string \<Rightarrow> ctx" where
  "chain_ctx c t i = c\<lparr>otel_trace_id := t, logid_key := Some i\<rparr>"

lemma chain_ctx_server [simp]:
  "server_tr (chain_ctx c t i) = server_tr c" "server_kind (chain_ctx c t i) = server_kind c"
  "server_op (chain_ctx c t i) = server_op c"
  by (simp_all add: chain_ctx_def server_kind_def server_op_def)

lemma logid_request_id:
  assumes "server_tr c = Some tr" and "request_id rt tr w = (i, w1)"
  shows "logid_Server (rt_uuid rt) h (c\<lparr>otel_trace_id := t\<rparr>) q w =
    h (chain_ctx c t i) q (w1\<lparr>trace := trace w1 @ [ReplyHeaderSet (tr_id tr) MetadataKey i]\<rparr>)"
proof (cases "tr_request tr MetadataKey = []")
  case True
  then show ?thesis
    using assms logid_Server_generates [of "c\<lparr>otel_trace_id := t\<rparr>" tr "rt_uuid rt" h q w]
    by (simp add: request_id_def chain_ctx_def logid_NewContext_def)
next
  case False
  then show ?thesis
    using assms logid_Server_keeps [of "c\<lparr>otel_trace_id := t\<rparr>" tr _ "rt_uuid rt" h q w]
    by (simp add: request_id_def chain_ctx_def logid_NewContext_def)
qed

lemma access_metric_run:
  "access_Server et (metric_Server h) c q w =
     (case h c q w of
        (Ok r, w2) \<Rightarrow> (Ok r, w2\<lparr>trace := trace w2 @
           [CounterInc (v_name RequestsTotal) [server_kind c, server_op c, metric_code (snd r)],
            HistObserve (v_name RequestLatencySeconds) [server_kind c, server_op c]
              (time_Since (clock w2) (clock w)),
            Logw (if snd r = None then LevelInfo else LevelWarn)
              (access_fields et c (snd r) (Milliseconds (time_Since (clock w2) (clock w))))]\<rparr>)
      | (Panic v, w2) \<Rightarrow> (Panic v, w2)
      | (Crash v, w2) \<Rightarrow> (Crash v, w2))"
proof (cases "h c q w")
  case (Pair out w2)
  then show ?thesis
    by (cases out)
       (simp_all add: access_returns metric_returns access_panics metric_panics access_crashes
         metric_crashes)
qed

text \<open>
  What the chain makes of each way the innermost handler can end, when it runs in context \<open>c\<close> from
  world \<open>w1\<close> and yields \<open>inner\<close>.
\<close>

definition chain_outcome ::
  "('l, 'q, 'r) runtime \<Rightarrow> ctx \<Rightarrow> 'l world \<Rightarrow> 'r gores res \<times> 'l world \<Rightarrow>
   'r gores res \<times> 'l world \<Rightarrow> bool" where
  "chain_outcome rt c w1 inner whole \<longleftrightarrow>
     (case inner of
        (Ok r, w2) \<Rightarrow> whole = (Ok r, w2\<lparr>trace := trace w2 @ request_events rt c r w1 w2\<rparr>)
      | (Panic v, w2) \<Rightarrow> (\<exists>lines. whole = (Ok (None, Some ErrPanic), w2\<lparr>trace := trace w2 @
           map (Logw LevelError) lines @ [CounterInc (v_name PanicsTotal) [server_op c]]\<rparr>))
      | (Crash v, w2) \<Rightarrow> whole = (Crash v, w2))"

lemma chain_run:
  assumes ok: "runtime_ok rt" and tr: "server_tr c = Some tr" and id: "request_id rt tr w = (i, w1)"
  defines "w1' \<equiv> w1\<lparr>trace := trace w1 @ [ReplyHeaderSet (tr_id tr) MetadataKey i]\<rparr>"
  obtains t where "chain_outcome rt (chain_ctx c t i) w1'
      (foldr (\<lambda>m h'. m h') extra h (chain_ctx c t i) q w1')
      (rt_chain rt (defaultChain rt @ extra) h c q w)"
proof -
  let ?h = "foldr (\<lambda>m h'. m h') extra h"
  let ?inner = "logid_Server (rt_uuid rt) (access_Server (rt_err_text rt) (metric_Server ?h))"
  have rec: "recovers (rt_recov rt)" and span: "spans_only (rt_tracing rt)"
    using ok by (simp_all add: runtime_ok_def)
  obtain t where t: "rt_tracing rt ?inner c q w = ?inner (c\<lparr>otel_trace_id := t\<rparr>) q w"
    using span unfolding spans_only_def by blast
  have run: "rt_tracing rt ?inner c q w =
      access_Server (rt_err_text rt) (metric_Server ?h) (chain_ctx c t i) q w1'"
    unfolding t w1'_def by (rule logid_request_id [OF tr id])
  obtain out w2 where out: "?h (chain_ctx c t i) q w1' = (out, w2)"
    by (cases "?h (chain_ctx c t i) q w1'")
  show thesis
  proof (rule that [of t], cases out)
    case (Ok r)
    then have "rt_tracing rt ?inner c q w =
        (Ok r, w2\<lparr>trace := trace w2 @ request_events rt (chain_ctx c t i) r w1' w2\<rparr>)"
      unfolding run access_metric_run out by (simp add: request_events_def)
    from recovery_passes [OF rec, of "rt_tracing rt ?inner", OF this] Ok show "chain_outcome rt (chain_ctx c t i) w1'
        (?h (chain_ctx c t i) q w1') (rt_chain rt (defaultChain rt @ extra) h c q w)"
      by (simp add: chain_outcome_def out chain_unfold [OF ok])
  next
    case (Panic v)
    then have "rt_tracing rt ?inner c q w = (Panic v, w2)"
      unfolding run access_metric_run out by simp
    then obtain lines where "recovery_Server (rt_recov rt) (rt_tracing rt ?inner) c q w =
        (Ok (None, Some ErrPanic), w2\<lparr>trace := trace w2 @ map (Logw LevelError) lines @
           [CounterInc (v_name PanicsTotal) [server_op c]]\<rparr>)"
      using recovery_panic [OF rec] by blast
    with Panic show "chain_outcome rt (chain_ctx c t i) w1'
        (?h (chain_ctx c t i) q w1') (rt_chain rt (defaultChain rt @ extra) h c q w)"
      by (auto simp: chain_outcome_def out chain_unfold [OF ok])
  next
    case (Crash v)
    then have "rt_tracing rt ?inner c q w = (Crash v, w2)"
      unfolding run access_metric_run out by simp
    from recovery_crash [OF rec, of "rt_tracing rt ?inner", OF this] Crash show "chain_outcome rt (chain_ctx c t i) w1'
        (?h (chain_ctx c t i) q w1') (rt_chain rt (defaultChain rt @ extra) h c q w)"
      by (simp add: chain_outcome_def out chain_unfold [OF ok])
  qed
qed

section \<open>Gates behind the default chain\<close>

text \<open>Authentication before rate limiting, the order the services document, is a gate again.\<close>

interpretation auth_limit: gate_pair
  "auth_handle fr et ao v" "auth_decide fr et ao v" "ratelimit_handle ops ro b" "ratelimit_decide ops ro b"
  for fr et and ao :: "'l auth_options" and v and ops :: "'l rate_ops" and ro b
  by unfold_locales

lemma auth_token_chain_ctx [simp]:
  "auth_token fr ao (chain_ctx c t i) = auth_token fr ao c"
  "auth_skipped ao (chain_ctx c t i) = auth_skipped ao c"
  by (simp_all add: auth_token_def auth_skipped_def split: option.splits)

lemma auth_limit_no_token:
  assumes "\<not> auth_skipped ao c" and "auth_token fr ao c = []"
  shows "auth_handle fr et ao v (ratelimit_handle ops ro b h) c q w = (Ok (None, Some ErrUnauthorized), w)"
proof (rule auth_limit.both.rejected)
  show "io_bind (auth_decide fr et ao v c)
      (\<lambda>d. case d of Inl e \<Rightarrow> io_ret (Inl e) | Inr c' \<Rightarrow> ratelimit_decide ops ro b c') w =
    (Ok (Inl ErrUnauthorized), w)"
    using assms by (simp add: auth_decide_def io_simps)
qed

section \<open>Counting requests\<close>

fun is_inc :: "string \<Rightarrow> event \<Rightarrow> bool" where
  "is_inc name (CounterInc n ls) = (n = name)"
| "is_inc name _ = False"

definition counter_total :: "string \<Rightarrow> event list \<Rightarrow> nat" where
  "counter_total name evs = length (filter (is_inc name) evs)"

lemma counter_total_append [simp]:
  "counter_total name (xs @ ys) = counter_total name xs + counter_total name ys"
  by (simp add: counter_total_def)

lemma counter_total_logs [simp]: "counter_total name (map (Logw l) lines) = 0"
  by (induction lines) (simp_all add: counter_total_def)

lemma counter_total_events [simp]:
  "counter_total (v_name RequestsTotal) (request_events rt c r w1 w2) = 1"
  "counter_total (v_name PanicsTotal) (request_events rt c r w1 w2) = 0"
  by (simp_all add: counter_total_def request_events_def RequestsTotal_def PanicsTotal_def)

lemma counter_total_panic [simp]:
  "counter_total (v_name RequestsTotal) [CounterInc (v_name PanicsTotal) ls] = 0"
  "counter_total (v_name PanicsTotal) [CounterInc (v_name PanicsTotal) ls] = 1"
  by (simp_all add: counter_total_def RequestsTotal_def PanicsTotal_def)

section \<open>Properties\<close>

text \<open>
  C1. The default chain, end to end, for any further middlewares and any handler. The handler runs
  in the request's context extended by a span and the trace id (the incoming x-trace-id or a new
  one), after that id has been set on the reply. If it returns, the caller gets its result and
  exactly one counter increment, one latency observation and one access line, in this order, have
  been added; if it panics, the caller gets 500 PANIC and exactly one panic has been counted; only
  a crash of the process is passed on.
\<close>

theorem default_chain_spec:
  assumes "runtime_ok rt" and "server_tr c = Some tr"
  shows "\<exists>t i w1. request_id rt tr w = (i, w1) \<and>
    (let c' = chain_ctx c t i;
         w1' = w1\<lparr>trace := trace w1 @ [ReplyHeaderSet (tr_id tr) MetadataKey i]\<rparr>
     in chain_outcome rt c' w1' (foldr (\<lambda>m h'. m h') extra h c' q w1')
          (rt_chain rt (defaultChain rt @ extra) h c q w))"
proof -
  obtain i w1 where id: "request_id rt tr w = (i, w1)"
    by (cases "request_id rt tr w")
  then show ?thesis
    using chain_run [OF assms id, of extra h q] by (metis (no_types, lifting))
qed

definition demo_transport :: transporter where
  "demo_transport = \<lparr>tr_id = 1, tr_kind = ''grpc'', tr_operation = ''/svc/Op'',
     tr_request = (\<lambda>k. if k = ''x-trace-id'' then ''abc'' else [])\<rparr>"

definition demo_request_ctx :: ctx where
  "demo_request_ctx = Background\<lparr>server_tr := Some demo_transport\<rparr>"

lemma demo_request: "server_tr demo_request_ctx = Some demo_transport"
  by (simp add: demo_request_ctx_def)

text \<open>The same at fixed types, and a handler that panics.\<close>

definition demo_rt :: "(unit, nat, nat) runtime" where
  "demo_rt = demo_runtime"

definition demo_boom :: "(unit, nat, nat) handler" where
  "demo_boom c q = io_panic ''boom''"

lemma demo_rt_ok: "runtime_ok demo_rt"
  by (simp add: demo_rt_def demo_runtime_ok)

lemma demo_rt_id: "request_id demo_rt demo_transport demo_world = (''abc'', demo_world)"
  by (simp add: request_id_def demo_transport_def MetadataKey_def)

theorem default_chain_spec_witness:
  "\<exists>t i w1. request_id demo_rt demo_transport demo_world = (i, w1) \<and>
    (let c' = chain_ctx demo_request_ctx t i;
         w1' = w1\<lparr>trace := trace w1 @ [ReplyHeaderSet (tr_id demo_transport) MetadataKey i]\<rparr>
     in chain_outcome demo_rt c' w1' (foldr (\<lambda>m h'. m h') [] demo_boom c' 3 w1')
          (rt_chain demo_rt (defaultChain demo_rt @ []) demo_boom demo_request_ctx 3 demo_world))"
  by (rule default_chain_spec [OF demo_rt_ok demo_request])

text \<open>
  C2. Panics never escape: whatever the further middlewares and the handler do in the request's own
  goroutine, the chain does not panic, with or without a transport in the context.
\<close>

theorem panics_never_escape:
  assumes "runtime_ok rt"
  shows "fst (rt_chain rt (defaultChain rt @ extra) h c q w) \<noteq> Panic v"
proof -
  let ?in = "rt_tracing rt (logid_Server (rt_uuid rt)
    (access_Server (rt_err_text rt) (metric_Server (foldr (\<lambda>m h'. m h') extra h))))"
  have rec: "recovers (rt_recov rt)"
    using assms by (simp add: runtime_ok_def)
  obtain out w1 where run: "?in c q w = (out, w1)"
    by (cases "?in c q w")
  have "fst (recovery_Server (rt_recov rt) ?in c q w) \<noteq> Panic v"
  proof (cases out)
    case (Panic v')
    with run show ?thesis
      using recovery_panic [OF rec, of ?in c q w v' w1] by (metis fst_conv res.distinct(1))
  qed (use run recovery_passes [OF rec, of ?in c q w] recovery_crash [OF rec, of ?in c q w] in simp_all)
  then show ?thesis
    by (simp add: chain_unfold [OF assms])
qed

theorem panics_never_escape_witness:
  "runtime_ok demo_rt \<and>
   fst (rt_chain demo_rt (defaultChain demo_rt @ []) demo_boom Background 3 demo_world) \<noteq> Panic ''boom''"
  using panics_never_escape [OF demo_rt_ok, of "[]" demo_boom Background 3 demo_world "''boom''"] demo_rt_ok
  by simp

text \<open>
  C15. Every request is counted exactly once: on top of whatever the handler itself counted, one
  request that does not crash the process adds exactly one to \<open>kris_requests_total\<close> and
  \<open>kris_panics_total\<close> together, and to the panics exactly when the handler panicked.
\<close>

theorem requests_counted_once:
  assumes "runtime_ok rt" and "server_tr c = Some tr"
    and "rt_chain rt (defaultChain rt @ extra) h c q w = (res, w3)"
  shows "\<exists>t i w1 out w2. request_id rt tr w = (i, w1) \<and>
    foldr (\<lambda>m h'. m h') extra h (chain_ctx c t i) q
      (w1\<lparr>trace := trace w1 @ [ReplyHeaderSet (tr_id tr) MetadataKey i]\<rparr>) = (out, w2) \<and>
    ((\<exists>v. out = Crash v) \<or>
     counter_total (v_name RequestsTotal) (trace w3) + counter_total (v_name PanicsTotal) (trace w3) =
       counter_total (v_name RequestsTotal) (trace w2) + counter_total (v_name PanicsTotal) (trace w2) + 1 \<and>
     (counter_total (v_name PanicsTotal) (trace w3) = counter_total (v_name PanicsTotal) (trace w2) + 1 \<longleftrightarrow>
       (\<exists>v. out = Panic v)))"
proof -
  obtain i w1 where id: "request_id rt tr w = (i, w1)"
    by (cases "request_id rt tr w")
  let ?w = "w1\<lparr>trace := trace w1 @ [ReplyHeaderSet (tr_id tr) MetadataKey i]\<rparr>"
  obtain t where out: "chain_outcome rt (chain_ctx c t i) ?w
      (foldr (\<lambda>m h'. m h') extra h (chain_ctx c t i) q ?w) (res, w3)"
    using chain_run [OF assms(1,2) id, of extra h q] assms(3) by auto
  obtain o1 w2 where inner: "foldr (\<lambda>m h'. m h') extra h (chain_ctx c t i) q ?w = (o1, w2)"
    by (cases "foldr (\<lambda>m h'. m h') extra h (chain_ctx c t i) q ?w")
  have "(\<exists>v. o1 = Crash v) \<or>
     counter_total (v_name RequestsTotal) (trace w3) + counter_total (v_name PanicsTotal) (trace w3) =
       counter_total (v_name RequestsTotal) (trace w2) + counter_total (v_name PanicsTotal) (trace w2) + 1 \<and>
     (counter_total (v_name PanicsTotal) (trace w3) = counter_total (v_name PanicsTotal) (trace w2) + 1 \<longleftrightarrow> (\<exists>v. o1 = Panic v))"
    using out unfolding inner by (cases o1) (auto simp: chain_outcome_def)
  with id inner show ?thesis
    by blast
qed

theorem requests_counted_once_witness:
  "\<exists>res w3. rt_chain demo_rt (defaultChain demo_rt @ []) demo_boom demo_request_ctx 3 demo_world = (res, w3) \<and>
    counter_total (v_name PanicsTotal) (trace w3) = 1 \<and> counter_total (v_name RequestsTotal) (trace w3) = 0"
proof -
  obtain res w3 where run: "rt_chain demo_rt (defaultChain demo_rt @ []) demo_boom demo_request_ctx 3 demo_world = (res, w3)"
    by (cases "rt_chain demo_rt (defaultChain demo_rt @ []) demo_boom demo_request_ctx 3 demo_world")
  moreover have "trace (demo_world :: unit world) = []"
    by (simp add: demo_world_def)
  ultimately show ?thesis
    using requests_counted_once [OF demo_rt_ok demo_request run]
    by (auto simp: demo_rt_id demo_boom_def io_panic_def counter_total_def)
qed

text \<open>
  A request without credentials: behind the default chain with authentication and rate limiting
  it is answered 401 UNAUTHORIZED, whatever the handler is; no rate token is spent, and the refusal
  is counted and logged like any other result.
\<close>

theorem unauthenticated_observed:
  assumes "runtime_ok rt" and "server_tr c = Some tr" and "request_id rt tr w = (i, w1)"
    and "\<not> auth_skipped ao c" and "auth_token fr ao c = []"
  defines "w1' \<equiv> w1\<lparr>trace := trace w1 @ [ReplyHeaderSet (tr_id tr) MetadataKey i]\<rparr>"
  shows "\<exists>t. rt_chain rt (defaultChain rt @ [auth_handle fr et ao v, ratelimit_handle ops ro b]) h c q w =
    (Ok (None, Some ErrUnauthorized), w1'\<lparr>trace := trace w1' @
       [CounterInc (v_name RequestsTotal) [tr_kind tr, tr_operation tr, ''UNAUTHORIZED''],
        HistObserve (v_name RequestLatencySeconds) [tr_kind tr, tr_operation tr] 0,
        Logw LevelWarn (access_fields (rt_err_text rt) (chain_ctx c t i) (Some ErrUnauthorized) 0)]\<rparr>)"
proof -
  obtain t where "chain_outcome rt (chain_ctx c t i) w1'
      (foldr (\<lambda>m h'. m h') [auth_handle fr et ao v, ratelimit_handle ops ro b] h (chain_ctx c t i) q w1')
      (rt_chain rt (defaultChain rt @ [auth_handle fr et ao v, ratelimit_handle ops ro b]) h c q w)"
    using chain_run [OF assms(1-3)] unfolding w1'_def by blast
  moreover have "foldr (\<lambda>m h'. m h') [auth_handle fr et ao v, ratelimit_handle ops ro b] h
      (chain_ctx c t i) q w1' = (Ok (None, Some ErrUnauthorized), w1')"
    using assms(4,5) by (simp add: auth_limit_no_token)
  moreover have "Milliseconds (time_Since (clock w1') (clock w1')) = 0" "time_Since (clock w1') (clock w1') = 0"
    by (simp_all add: time_Since_def Milliseconds_def)
  ultimately show ?thesis
    using assms(2)
    by (auto simp: chain_outcome_def request_events_def metric_code_def server_kind_def server_op_def)
qed

definition demo_rate_rt :: "(simple_limiter, nat, nat) runtime" where
  "demo_rate_rt = demo_runtime"

definition demo_echo :: "(simple_limiter, nat, nat) handler" where
  "demo_echo c q = io_ret (Some q, None)"

definition demo_no_claims :: "simple_limiter validator" where
  "demo_no_claims c t = io_ret (None, None)"

theorem unauthenticated_observed_witness:
  "\<exists>w'. rt_chain demo_rate_rt (defaultChain demo_rate_rt @
      [auth_handle (\<lambda>_ _. False) (\<lambda>_. ''err'') auth_default_options demo_no_claims,
       ratelimit_handle simple_ops ratelimit_default_options 0]) demo_echo demo_request_ctx 3 demo_world =
    (Ok (None, Some ErrUnauthorized), w')"
proof -
  have ok: "runtime_ok demo_rate_rt"
    by (simp add: demo_rate_rt_def demo_runtime_ok)
  have id: "request_id demo_rate_rt demo_transport demo_world = (''abc'', demo_world)"
    by (simp add: request_id_def demo_transport_def MetadataKey_def)
  have "\<not> auth_skipped (auth_default_options :: simple_limiter auth_options) demo_request_ctx"
    by (simp add: auth_skipped_def auth_default_options_def)
  moreover have "auth_token (\<lambda>_ _. False) (auth_default_options :: simple_limiter auth_options)
      demo_request_ctx = []"
    by (simp add: auth_token_def auth_default_options_def demo_request_ctx_def demo_transport_def
        extractToken_def)
  ultimately show ?thesis
    using unauthenticated_observed [OF ok demo_request id,
        of auth_default_options "\<lambda>_ _. False" "\<lambda>_. ''err''" demo_no_claims simple_ops
        ratelimit_default_options 0 demo_echo 3]
    by blast
qed

text \<open>
  C31. The timeout middleware breaks the promise of the chain: with it as an extra middleware, a
  handler that panics before its deadline brings the process down instead of being answered
  500 PANIC, because it panics in the goroutine the middleware started.
\<close>

theorem timeout_defeats_recovery:
  assumes "runtime_ok rt" and "server_tr c = Some tr" and "0 < sint d"
    and "\<And>c' w'. sched c' w' = None" and "\<And>c' q w'. fst (h c' q w') = Panic v"
  shows "fst (rt_chain rt (defaultChain rt @ [timeout_Server sched fresh [timeout_WithTimeout d]]) h c q w)
    = Crash v"
proof -
  obtain i w1 where id: "request_id rt tr w = (i, w1)"
    by (cases "request_id rt tr w")
  define w1' where "w1' = w1\<lparr>trace := trace w1 @ [ReplyHeaderSet (tr_id tr) MetadataKey i]\<rparr>"
  obtain t where "chain_outcome rt (chain_ctx c t i) w1'
      (timeout_Server sched fresh [timeout_WithTimeout d] h (chain_ctx c t i) q w1')
      (rt_chain rt (defaultChain rt @ [timeout_Server sched fresh [timeout_WithTimeout d]]) h c q w)"
    using chain_run [OF assms(1,2) id, of "[timeout_Server sched fresh [timeout_WithTimeout d]]" h q]
    unfolding w1'_def by auto
  moreover have "\<exists>w2. timeout_Server sched fresh [timeout_WithTimeout d] h (chain_ctx c t i) q w1' = (Crash v, w2)"
    using assms(3-5) by (intro timeout_panic)
      (simp_all add: timeout_bypassed_def timeout_WithTimeout_def)
  ultimately show ?thesis
    by (auto simp: chain_outcome_def)
qed

theorem timeout_defeats_recovery_witness:
  "fst (rt_chain demo_rt (defaultChain demo_rt @ [timeout_Server (\<lambda>_ _. None) 7 [timeout_WithTimeout 5]])
     demo_boom demo_request_ctx 3 demo_world) = Crash ''boom''"
  by (rule timeout_defeats_recovery [OF demo_rt_ok demo_request])
     (simp_all add: io_panic_def demo_boom_def)

section \<open>Raw HTTP routes\<close>

text \<open>The innermost handler of a wrapped route, and what the client is left with.\<close>

definition route_handler :: "'l http_handler \<Rightarrow> nat \<Rightarrow> http_request \<Rightarrow> ('l, http_request, unit) handler" where
  "route_handler h wr r c _ = io_then (h wr (r\<lparr>r_ctx := c\<rparr>)) (io_ret (None, None))"

text \<open>The world after \<open>DefaultErrorEncoder(w, r, e)\<close> was called.\<close>

definition encoded :: "error_encoder \<Rightarrow> nat \<Rightarrow> http_request \<Rightarrow> error \<Rightarrow> 'l world \<Rightarrow> 'l world" where
  "encoded encode wr r e w =
     w\<lparr>trace := trace w @ [ErrorEncoded wr e], writers := (writers w)(wr := encode r e (writers w wr))\<rparr>"

definition wrap_outcome ::
  "('l, http_request, unit) runtime \<Rightarrow> nat \<Rightarrow> http_request \<Rightarrow> ctx \<Rightarrow> 'l world \<Rightarrow> unit gores res \<times> 'l world \<Rightarrow>
   unit res \<times> 'l world \<Rightarrow> bool" where
  "wrap_outcome rt wr r c w1 inner whole \<longleftrightarrow>
     (case inner of
        (Ok x, w2) \<Rightarrow> whole = (Ok (),
          (case snd x of Some e \<Rightarrow> encoded (rt_encode rt) wr r e | None \<Rightarrow> (\<lambda>w. w))
            (w2\<lparr>trace := trace w2 @ request_events rt c x w1 w2\<rparr>))
      | (Panic v, w2) \<Rightarrow> (\<exists>lines. whole = (Ok (), encoded (rt_encode rt) wr r ErrPanic
          (w2\<lparr>trace := trace w2 @ map (Logw LevelError) lines @
             [CounterInc (v_name PanicsTotal) [server_op c]]\<rparr>)))
      | (Crash v, w2) \<Rightarrow> whole = (Crash v, w2))"

lemma wrap_run:
  assumes "runtime_ok rt" and "server_tr (r_ctx r) = Some tr" and "request_id rt tr w = (i, w1)"
  defines "w1' \<equiv> w1\<lparr>trace := trace w1 @ [ReplyHeaderSet (tr_id tr) MetadataKey i]\<rparr>"
  obtains t where "wrap_outcome rt wr r (chain_ctx (r_ctx r) t i) w1'
      (foldr (\<lambda>m h'. m h') extra (route_handler h wr r) (chain_ctx (r_ctx r) t i) r w1')
      (wrapHandler (rt_chain rt) (rt_encode rt) (defaultChain rt @ extra) h wr r w)"
proof -
  obtain t where out: "chain_outcome rt (chain_ctx (r_ctx r) t i) w1'
      (foldr (\<lambda>m h'. m h') extra (route_handler h wr r) (chain_ctx (r_ctx r) t i) r w1')
      (rt_chain rt (defaultChain rt @ extra) (route_handler h wr r) (r_ctx r) r w)"
    using chain_run [OF assms(1-3), of extra "route_handler h wr r" r] unfolding w1'_def by auto
  obtain o1 w2 where run: "foldr (\<lambda>m h'. m h') extra (route_handler h wr r) (chain_ctx (r_ctx r) t i) r w1' = (o1, w2)"
    by (cases "foldr (\<lambda>m h'. m h') extra (route_handler h wr r) (chain_ctx (r_ctx r) t i) r w1'")
  have wrap: "wrapHandler (rt_chain rt) (rt_encode rt) (defaultChain rt @ extra) h wr r w =
      io_bind (rt_chain rt (defaultChain rt @ extra) (route_handler h wr r) (r_ctx r) r)
        (\<lambda>(_, err). case err of
            Some e \<Rightarrow> io_then (emit (ErrorEncoded wr e)) (with_writer wr (rt_encode rt r e)) | None \<Rightarrow> io_ret ()) w"
    by (simp add: wrapHandler_def defaultChain_def route_handler_def [abs_def])
  show thesis
    by (rule that [of t], use out run in \<open>cases o1\<close>)
       (auto simp: wrap chain_outcome_def wrap_outcome_def encoded_def io_bind_def io_then_def io_ret_def
          emit_apply with_writer_def io_mod_def split: option.splits)
qed

definition demo_http_rt :: "(unit, http_request, unit) runtime" where
  "demo_http_rt = demo_runtime"

definition demo_http_request :: http_request where
  "demo_http_request = \<lparr>r_method = ''GET'', r_path = ''/x'', r_header = Map.empty, r_ctx = demo_request_ctx\<rparr>"

text \<open>
  C33. A raw HTTP handler behind the default chain. If it returns, its response stands and nothing is
  encoded over it. If it panics, kratos's error encoder is called with the 500 PANIC error, as the last
  thing that happens, and the call returns instead of breaking the connection; so if the handler had
  not begun its response, the client is answered with status 500, and if it had, the status line
  that was sent stands.
\<close>

theorem raw_route_spec:
  assumes "runtime_ok rt" and "server_tr (r_ctx r) = Some tr" and "request_id rt tr w = (i, w1)"
    and "encoder_ok (rt_encode rt)"
  defines "w1' \<equiv> w1\<lparr>trace := trace w1 @ [ReplyHeaderSet (tr_id tr) MetadataKey i]\<rparr>"
  shows "\<exists>c'. (\<exists>t. c' = chain_ctx (r_ctx r) t i) \<and>
    (case h wr (r\<lparr>r_ctx := c'\<rparr>) w1' of
       (Ok _, w2) \<Rightarrow> wrapHandler (rt_chain rt) (rt_encode rt) (defaultChain rt) h wr r w =
         (Ok (), w2\<lparr>trace := trace w2 @ request_events rt c' (None, None) w1' w2\<rparr>)
     | (Panic v, w2) \<Rightarrow> (\<exists>lines w3. wrapHandler (rt_chain rt) (rt_encode rt) (defaultChain rt) h wr r w = (Ok (), w3) \<and>
         w3 = encoded (rt_encode rt) wr r ErrPanic (w2\<lparr>trace := trace w2 @ map (Logw LevelError) lines @
            [CounterInc (v_name PanicsTotal) [server_op c']]\<rparr>) \<and>
         (case rw_sent (writers w2 wr) of
            None \<Rightarrow> map_option fst (rw_sent (writers w3 wr)) = Some 500
          | Some sent \<Rightarrow> rw_sent (writers w3 wr) = Some sent))
     | (Crash v, w2) \<Rightarrow> wrapHandler (rt_chain rt) (rt_encode rt) (defaultChain rt) h wr r w = (Crash v, w2))"
proof -
  obtain t where wrap: "wrap_outcome rt wr r (chain_ctx (r_ctx r) t i) w1'
      (route_handler h wr r (chain_ctx (r_ctx r) t i) r w1')
      (wrapHandler (rt_chain rt) (rt_encode rt) (defaultChain rt) h wr r w)"
    using wrap_run [OF assms(1-3), of wr "[]" h] unfolding w1'_def by auto
  let ?c = "chain_ctx (r_ctx r) t i"
  obtain out w2 where h: "h wr (r\<lparr>r_ctx := ?c\<rparr>) w1' = (out, w2)"
    by (cases "h wr (r\<lparr>r_ctx := ?c\<rparr>) w1'")
  have status: "case rw_sent rw of
      None \<Rightarrow> map_option fst (rw_sent (rt_encode rt r ErrPanic rw)) = Some 500
    | Some sent \<Rightarrow> rw_sent (rt_encode rt r ErrPanic rw) = Some sent" for rw
    using assms(4) [unfolded encoder_ok_def, THEN spec [of _ r], THEN spec [of _ ErrPanic], THEN spec [of _ rw]]
    by (cases "rw_sent rw") (simp_all add: ErrPanic_def)
  show ?thesis
  proof (intro exI [of _ ?c] conjI exI [of _ t] refl, unfold h prod.case, cases out)
    case (Panic v)
    then obtain lines where "wrapHandler (rt_chain rt) (rt_encode rt) (defaultChain rt) h wr r w =
        (Ok (), encoded (rt_encode rt) wr r ErrPanic (w2\<lparr>trace := trace w2 @ map (Logw LevelError) lines @
          [CounterInc (v_name PanicsTotal) [server_op ?c]]\<rparr>))"
      using wrap h by (auto simp: wrap_outcome_def route_handler_def io_then_def io_bind_def)
    moreover have "writers (encoded (rt_encode rt) wr r ErrPanic (w2\<lparr>trace := l\<rparr>)) wr =
        rt_encode rt r ErrPanic (writers w2 wr)" for l
      by (simp add: encoded_def)
    ultimately show "case out of
        Ok _ \<Rightarrow> wrapHandler (rt_chain rt) (rt_encode rt) (defaultChain rt) h wr r w =
          (Ok (), w2\<lparr>trace := trace w2 @ request_events rt ?c (None, None) w1' w2\<rparr>)
      | Panic v \<Rightarrow> (\<exists>lines w3. wrapHandler (rt_chain rt) (rt_encode rt) (defaultChain rt) h wr r w = (Ok (), w3) \<and>
          w3 = encoded (rt_encode rt) wr r ErrPanic (w2\<lparr>trace := trace w2 @ map (Logw LevelError) lines @
            [CounterInc (v_name PanicsTotal) [server_op ?c]]\<rparr>) \<and>
          (case rw_sent (writers w2 wr) of
            None \<Rightarrow> map_option fst (rw_sent (writers w3 wr)) = Some 500
          | Some sent \<Rightarrow> rw_sent (writers w3 wr) = Some sent))
      | Crash v \<Rightarrow> wrapHandler (rt_chain rt) (rt_encode rt) (defaultChain rt) h wr r w = (Crash v, w2)"
      using status [of "writers w2 wr"] Panic by (simp only: res.case) (intro exI conjI, rule refl, rule refl, simp split: option.splits)
  qed (use wrap h in \<open>simp_all add: wrap_outcome_def route_handler_def io_then_def io_bind_def io_ret_def\<close>)
qed

theorem raw_route_spec_witness:
  "\<exists>w'. wrapHandler (rt_chain demo_http_rt) (rt_encode demo_http_rt) (defaultChain demo_http_rt) (\<lambda>wr r. io_panic ''boom'') 0
     demo_http_request demo_world = (Ok (), w') \<and> last (trace w') = ErrorEncoded 0 ErrPanic \<and>
     map_option fst (rw_sent (writers w' 0)) = Some 500"
proof -
  have ok: "runtime_ok demo_http_rt" and enc: "encoder_ok (rt_encode demo_http_rt)"
    by (simp_all add: demo_http_rt_def demo_runtime_ok demo_runtime_encoder)
  have id: "request_id demo_http_rt demo_transport demo_world = (''abc'', demo_world)"
    by (simp add: request_id_def demo_transport_def MetadataKey_def)
  have tr: "server_tr (r_ctx demo_http_request) = Some demo_transport"
    by (simp add: demo_http_request_def demo_request)
  have "rw_sent (writers (demo_world :: unit world) 0) = None"
    by (simp add: demo_world_def new_response_def)
  then show ?thesis
    using raw_route_spec [OF ok tr id enc, of "\<lambda>wr r. io_panic ''boom''" 0]
    by (auto simp: io_panic_def encoded_def)
qed

text \<open>
  Registering routes: on a business server, every route registered through \<open>HandleFunc\<close> or
  \<open>Handle\<close> is wrapped in exactly the chain the server hands to kratos for generated handlers
  (default chain, then the extra middlewares), in registration order; nothing can be registered
  around it through these methods, and registering changes neither options nor chain.
\<close>

theorem biz_routes_share_chain:
  "let b = fold (\<lambda>(path, h). biz_HandleFunc chain encode path h) rs (NewBizHTTPServer rt cfg None extra)
   in ks_routes (biz_S b) = map (\<lambda>(path, h). (path, wrapHandler chain encode (defaultChain rt @ extra) h)) rs \<and>
      ks_options (biz_S b) = OptMiddleware (defaultChain rt @ extra) # baseHTTPOpts cfg \<and>
      biz_chain b = defaultChain rt @ extra \<and> biz_Handle chain encode = biz_HandleFunc chain encode"
proof -
  have "ks_routes (biz_S (fold (\<lambda>(path, h). biz_HandleFunc chain encode path h) rs b)) =
      ks_routes (biz_S b) @ map (\<lambda>(path, h). (path, wrapHandler chain encode (biz_chain b) h)) rs \<and>
    ks_options (biz_S (fold (\<lambda>(path, h). biz_HandleFunc chain encode path h) rs b)) = ks_options (biz_S b) \<and>
    biz_chain (fold (\<lambda>(path, h). biz_HandleFunc chain encode path h) rs b) = biz_chain b" for b
    by (induction rs arbitrary: b) (auto simp: biz_HandleFunc_def khttp_HandleFunc_def)
  then show ?thesis
    by (simp add: Let_def NewBizHTTPServer_def khttp_NewServer_def fun_eq_iff biz_Handle_def biz_HandleFunc_def)
qed

end
