(* ===== verification/Go_Json.thy ===== *)
theory Go_Json
  imports Go_Strings "HOL-Library.Char_ord" "HOL-Library.List_Lexorder" "HOL-Library.AList"
begin

text \<open>
  \<open>json.NewEncoder(w).Encode(v)\<close> of Go's standard library on maps with string keys: keys in byte
  order, strings escaped with HTML escaping on, invalid UTF-8 replaced, one newline at the end. The
  decoder \<open>json_unquote\<close> of string literals is the specification the encoder is checked against.
\<close>

section \<open>UTF-8\<close>

abbreviation byte :: "char \<Rightarrow> nat" where
  "byte c \<equiv> of_char c"

definition in_range :: "nat \<Rightarrow> nat \<Rightarrow> char \<Rightarrow> bool" where
  "in_range lo hi c \<longleftrightarrow> lo \<le> byte c \<and> byte c \<le> hi"

text \<open>The length of the multi-byte rune a string starts with; 0 when the encoding is invalid.\<close>

definition second_ok :: "char \<Rightarrow> char \<Rightarrow> bool" where
  "second_ok c d =
     (if byte c = 0xE0 then in_range 0xA0 0xBF d
      else if byte c = 0xED then in_range 0x80 0x9F d
      else if byte c = 0xF0 then in_range 0x90 0xBF d
      else if byte c = 0xF4 then in_range 0x80 0x8F d
      else in_range 0x80 0xBF d)"

definition rune_size :: "char \<Rightarrow> nat" where
  "rune_size c =
     (if in_range 0xC2 0xDF c then 2
      else if in_range 0xE0 0xEF c then 3
      else if in_range 0xF0 0xF4 c then 4
      else 0)"

definition utf8_len :: "string \<Rightarrow> nat" where
  "utf8_len s =
     (case s of
        c # d # rest \<Rightarrow>
          (let n = rune_size c in
           if n \<noteq> 0 \<and> n \<le> length s \<and> second_ok c d \<and> list_all (in_range 0x80 0xBF) (take (n - 2) rest)
           then n else 0)
      | _ \<Rightarrow> 0)"

lemma utf8_len_le: "utf8_len s \<le> length s"
  by (auto simp: utf8_len_def Let_def split: list.splits)

lemma in_range_high: "in_range lo hi c \<Longrightarrow> 0x80 \<le> lo \<Longrightarrow> \<not> is_ascii c"
  by (simp add: in_range_def is_ascii_def)

lemma utf8_len_high: "list_all (\<lambda>c. \<not> is_ascii c) (take (utf8_len s) s)"
proof (cases s rule: list.exhaust)
  case (Cons c s')
  show ?thesis
  proof (cases s')
    case (Cons d rest)
    have "rune_size c \<noteq> 0 \<Longrightarrow> \<not> is_ascii c"
      by (auto simp: rune_size_def in_range_def is_ascii_def split: if_splits)
    moreover have "second_ok c d \<Longrightarrow> \<not> is_ascii d"
      by (auto simp: second_ok_def in_range_def is_ascii_def split: if_splits)
    moreover have "2 \<le> n" if "n = rune_size c" "n \<noteq> 0" for n
      using that by (auto simp: rune_size_def split: if_splits)
    moreover have "take n (c # d # rest) = c # d # take (n - 2) rest" if "2 \<le> n" for n
      using that by (cases n; cases "n - 1") (auto simp: numeral_eq_Suc)
    ultimately show ?thesis
      using \<open>s = c # s'\<close> Cons
      by (auto simp: utf8_len_def Let_def list_all_iff dest: in_range_high)
  qed (simp add: \<open>s = c # s'\<close> utf8_len_def)
qed simp

section \<open>Encoding strings\<close>

definition hexdigit :: "nat \<Rightarrow> char" where
  "hexdigit n = (''0123456789abcdef'') ! (n mod 16)"

definition line_sep :: string where
  "line_sep = map char_of [0xE2, 0x80, 0xA8 :: nat]"

definition para_sep :: string where
  "para_sep = map char_of [0xE2, 0x80, 0xA9 :: nat]"

definition rune_error :: string where
  "rune_error = map char_of [0xEF, 0xBF, 0xBD :: nat]"

definition short_escapes :: "(char \<times> char) list" where
  "short_escapes = [(CHR 0x22, CHR 0x22), (CHR 0x5C, CHR 0x5C), (CHR 0x08, CHR ''b''), (CHR 0x0C, CHR ''f''),
     (CHR 0x0A, CHR ''n''), (CHR 0x0D, CHR ''r''), (CHR 0x09, CHR ''t'')]"

definition needs_hex :: "char \<Rightarrow> bool" where
  "needs_hex c \<longleftrightarrow> byte c < 0x20 \<or> c \<in> set ''<>&''"

definition esc_ascii :: "char \<Rightarrow> string" where
  "esc_ascii c =
     (case map_of short_escapes c of
        Some e \<Rightarrow> [CHR 0x5C, e]
      | None \<Rightarrow>
          if needs_hex c then CHR 0x5C # ''u00'' @ [hexdigit (byte c div 16), hexdigit (byte c)]
          else [c])"

function json_body :: "string \<Rightarrow> string" where
  "json_body [] = []"
| "json_body (c # cs) =
     (if is_ascii c then esc_ascii c @ json_body cs
      else
        (let n = utf8_len (c # cs) in
         if n = 0 then CHR 0x5C # ''ufffd'' @ json_body cs
         else if take n (c # cs) = line_sep then CHR 0x5C # ''u2028'' @ json_body (drop (n - 1) cs)
         else if take n (c # cs) = para_sep then CHR 0x5C # ''u2029'' @ json_body (drop (n - 1) cs)
         else take n (c # cs) @ json_body (drop (n - 1) cs)))"
  by pat_completeness auto
termination
  by (relation "measure length") auto

declare json_body.simps(2) [simp del]

definition json_string :: "string \<Rightarrow> string" where
  "json_string s = CHR 0x22 # json_body s @ [CHR 0x22]"

section \<open>The specification: reading a string literal\<close>

text \<open>What a string is after every invalid byte is replaced by U+FFFD.\<close>

function to_valid :: "string \<Rightarrow> string" where
  "to_valid [] = []"
| "to_valid (c # cs) =
     (if is_ascii c then c # to_valid cs
      else
        (let n = utf8_len (c # cs) in
         if n = 0 then rune_error @ to_valid cs
         else take n (c # cs) @ to_valid (drop (n - 1) cs)))"
  by pat_completeness auto
termination
  by (relation "measure length") auto

declare to_valid.simps(2) [simp del]

definition hexval :: "char \<Rightarrow> nat option" where
  "hexval c =
     (if in_range 0x30 0x39 c then Some (byte c - 0x30)
      else if in_range 0x61 0x66 c then Some (byte c - 0x61 + 10)
      else None)"

text \<open>UTF-8 of a code point below \<open>0x10000\<close>.\<close>

definition utf8_encode :: "nat \<Rightarrow> string" where
  "utf8_encode n =
     (if n < 0x80 then [char_of n]
      else if n < 0x800 then [char_of (0xC0 + n div 64), char_of (0x80 + n mod 64)]
      else [char_of (0xE0 + n div 4096), char_of (0x80 + n div 64 mod 64), char_of (0x80 + n mod 64)])"

definition unescape :: "char \<Rightarrow> char option" where
  "unescape = map_of (map prod.swap short_escapes)"

text \<open>The contents of a literal whose opening quote has been read, and what follows the literal.\<close>

fun json_read :: "string \<Rightarrow> (string \<times> string) option" where
  "json_read [] = None"
| "json_read (c # cs) =
     (if c = CHR 0x22 then Some ([], cs)
      else if c = CHR 0x5C then
        (case cs of
           [] \<Rightarrow> None
         | e # es \<Rightarrow>
             if e = CHR ''u'' then
               (case es of
                  a # b # d # f # rest \<Rightarrow>
                    (case (hexval a, hexval b, hexval d, hexval f) of
                       (Some x, Some y, Some z, Some u) \<Rightarrow>
                         map_option (map_prod (append (utf8_encode (((x * 16 + y) * 16 + z) * 16 + u))) (\<lambda>r. r))
                           (json_read rest)
                     | _ \<Rightarrow> None)
                | _ \<Rightarrow> None)
             else
               (case unescape e of
                  None \<Rightarrow> None
                | Some x \<Rightarrow> map_option (map_prod (Cons x) (\<lambda>r. r)) (json_read es)))
      else if byte c < 0x20 then None
      else map_option (map_prod (Cons c) (\<lambda>r. r)) (json_read cs))"

definition json_unquote :: "string \<Rightarrow> (string \<times> string) option" where
  "json_unquote s = (case s of c # cs \<Rightarrow> if c = CHR 0x22 then json_read cs else None | [] \<Rightarrow> None)"

section \<open>Encoding and reading\<close>

declare json_read.simps(2) [simp del]

lemma hexval_hexdigit [simp]: "hexval (hexdigit n) = Some (n mod 16)"
proof -
  have "list_all (\<lambda>k. hexval (''0123456789abcdef'' ! k) = Some k) [0..<16]"
    by (simp add: upt_rec hexval_def in_range_def)
  then have "hexval (''0123456789abcdef'' ! (n mod 16)) = Some (n mod 16)"
    by (simp add: list_all_iff)
  then show ?thesis
    by (simp add: hexdigit_def)
qed

lemma hexval_0: "hexval CHR ''0'' = Some 0"
  by (simp add: hexval_def in_range_def)

lemma json_read_u:
  assumes "hexval a = Some x" "hexval b = Some y" "hexval d = Some z" "hexval f = Some u"
  shows "json_read (CHR 0x5C # CHR ''u'' # a # b # d # f # rest) =
    map_option (map_prod (append (utf8_encode (((x * 16 + y) * 16 + z) * 16 + u))) (\<lambda>r. r)) (json_read rest)"
  using assms by (simp add: json_read.simps(2))

lemma json_read_plain:
  assumes "c \<noteq> CHR 0x22" "c \<noteq> CHR 0x5C" "0x20 \<le> byte c"
  shows "json_read (c # r) = map_option (map_prod (Cons c) (\<lambda>r. r)) (json_read r)"
  using assms by (simp add: json_read.simps(2))

lemma json_read_short:
  assumes "unescape e = Some x" and "e \<noteq> CHR ''u''"
  shows "json_read (CHR 0x5C # e # r) = map_option (map_prod (Cons x) (\<lambda>r. r)) (json_read r)"
  using assms by (simp add: json_read.simps(2))

lemma utf8_encode_byte:
  assumes "is_ascii c"
  shows "utf8_encode (((0 * 16 + 0) * 16 + byte c div 16 mod 16) * 16 + byte c mod 16) = [c]"
proof -
  have "byte c div 16 mod 16 = byte c div 16"
    using assms by (simp add: is_ascii_def)
  then have "((0 * 16 + 0) * 16 + byte c div 16 mod 16) * 16 + byte c mod 16 = byte c"
    by simp
  then show ?thesis
    using assms by (simp only: utf8_encode_def) (simp add: is_ascii_def)
qed

lemma short_escapes_Some:
  assumes "map_of short_escapes c = Some e"
  shows "unescape e = Some c" "e \<noteq> CHR ''u''" "0x20 \<le> byte e"
  using assms by (auto simp: short_escapes_def unescape_def split: if_splits)

lemma short_escapes_None:
  assumes "map_of short_escapes c = None"
  shows "c \<noteq> CHR 0x22" "c \<noteq> CHR 0x5C"
  using assms by (auto simp: short_escapes_def)

lemma json_read_esc:
  assumes "is_ascii c"
  shows "json_read (esc_ascii c @ r) = map_option (map_prod (Cons c) (\<lambda>r. r)) (json_read r)"
proof (cases "map_of short_escapes c")
  case (Some e)
  then show ?thesis
    using short_escapes_Some [OF Some] by (simp add: esc_ascii_def json_read_short)
next
  case None
  show ?thesis
  proof (cases "needs_hex c")
    case True
    have "json_read (esc_ascii c @ r) = json_read (CHR 0x5C # CHR ''u'' # CHR ''0'' # CHR ''0'' #
        hexdigit (byte c div 16) # hexdigit (byte c) # r)"
      using None True by (simp add: esc_ascii_def)
    also have "\<dots> = map_option (map_prod (append [c]) (\<lambda>r. r)) (json_read r)"
      by (subst json_read_u [OF hexval_0 hexval_0 hexval_hexdigit hexval_hexdigit])
         (simp only: utf8_encode_byte [OF assms])
    also have "append [c] = Cons c"
      by (simp add: fun_eq_iff)
    finally show ?thesis .
  next
    case False
    then have "0x20 \<le> byte c"
      by (simp add: needs_hex_def)
    with False None short_escapes_None [OF None] show ?thesis
      by (simp add: esc_ascii_def json_read_plain)
  qed
qed

lemma json_read_high:
  assumes "list_all (\<lambda>c. \<not> is_ascii c) xs"
  shows "json_read (xs @ r) = map_option (map_prod (append xs) (\<lambda>r. r)) (json_read r)"
  using assms
proof (induction xs)
  case Nil
  then show ?case by (cases "json_read r") auto
next
  case (Cons c cs)
  then have "json_read (c # cs @ r) = map_option (map_prod (Cons c) (\<lambda>r. r)) (json_read (cs @ r))"
    by (intro json_read_plain) (auto simp: is_ascii_def)
  with Cons show ?case
    by (cases "json_read r") auto
qed

lemma json_read_special:
  "json_read (CHR 0x5C # ''ufffd'' @ r) = map_option (map_prod (append rune_error) (\<lambda>r. r)) (json_read r)"
  "json_read (CHR 0x5C # ''u2028'' @ r) = map_option (map_prod (append line_sep) (\<lambda>r. r)) (json_read r)"
  "json_read (CHR 0x5C # ''u2029'' @ r) = map_option (map_prod (append para_sep) (\<lambda>r. r)) (json_read r)"
  by (simp_all add: json_read_u hexval_def in_range_def utf8_encode_def rune_error_def line_sep_def para_sep_def)

lemma json_read_body: "json_read (json_body s @ CHR 0x22 # rest) = Some (to_valid s, rest)"
proof (induction s rule: json_body.induct)
  case 1
  then show ?case by (simp add: json_read.simps(2))
next
  case (2 c cs)
  let ?n = "utf8_len (c # cs)"
  have high: "list_all (\<lambda>c. \<not> is_ascii c) (take ?n (c # cs))"
    by (rule utf8_len_high)
  show ?case
  proof (cases "is_ascii c")
    case True
    with 2 show ?thesis
      by (simp add: json_body.simps(2) to_valid.simps(2) json_read_esc)
  next
    case False
    consider "?n = 0" | "?n \<noteq> 0" "take ?n (c # cs) = line_sep"
      | "?n \<noteq> 0" "take ?n (c # cs) = para_sep"
      | "?n \<noteq> 0" "take ?n (c # cs) \<noteq> line_sep" "take ?n (c # cs) \<noteq> para_sep"
      by blast
    then show ?thesis
    proof cases
      case 1
      with 2 False json_read_special(1) show ?thesis
        by (simp add: json_body.simps(2) to_valid.simps(2))
    next
      case c2: 2
      with 2 False json_read_special(2) show ?thesis
        by (simp add: json_body.simps(2) to_valid.simps(2) Let_def)
    next
      case 3
      with 2 False json_read_special(3) show ?thesis
        by (simp add: json_body.simps(2) to_valid.simps(2) Let_def line_sep_def para_sep_def)
    next
      case 4
      with 2 False json_read_high [OF high] show ?thesis
        by (simp add: json_body.simps(2) to_valid.simps(2) Let_def)
    qed
  qed
qed

section \<open>Lines\<close>

lemma hexdigit_printable: "0x20 \<le> byte (hexdigit n)"
proof -
  have "list_all (\<lambda>k. 0x20 \<le> byte (''0123456789abcdef'' ! k)) [0..<16]"
    by (simp add: upt_rec)
  then show ?thesis
    by (simp add: list_all_iff hexdigit_def)
qed

lemma esc_ascii_printable:
  assumes "d \<in> set (esc_ascii c)"
  shows "0x20 \<le> byte d"
proof (cases "map_of short_escapes c")
  case (Some e)
  then show ?thesis
    using assms short_escapes_Some(3) [OF Some] by (auto simp: esc_ascii_def)
next
  case None
  then show ?thesis
    using assms hexdigit_printable
    by (cases "needs_hex c") (auto simp: esc_ascii_def needs_hex_def)
qed

lemma json_body_printable: "d \<in> set (json_body s) \<Longrightarrow> 0x20 \<le> byte d"
proof (induction s arbitrary: d rule: json_body.induct)
  case 1
  then show ?case by simp
next
  case (2 c cs)
  have high: "\<forall>d \<in> set (take (utf8_len (c # cs)) (c # cs)). 0x20 \<le> byte d"
    using utf8_len_high [of "c # cs"] by (auto simp: list_all_iff is_ascii_def)
  from "2.prems" show ?case
    using "2.IH" high esc_ascii_printable
    by (auto simp: json_body.simps(2) Let_def split: if_splits)
qed

lemma json_string_one_line: "CHR 0x0A \<notin> set (json_string s)"
  using json_body_printable [of "CHR 0x0A" s] by (auto simp: json_string_def)

section \<open>Objects\<close>

text \<open>Members with their values encoded; the keys of a Go map are distinct.\<close>

definition json_member :: "string \<times> string \<Rightarrow> string" where
  "json_member kv = json_string (fst kv) @ '':'' @ snd kv"

definition json_object :: "(string \<times> string) list \<Rightarrow> string" where
  "json_object kvs = ''{'' @ strings_Join (map json_member (sort_key fst kvs)) '','' @ ''}''"

definition json_line :: "(string \<times> string) list \<Rightarrow> string" where
  "json_line kvs = json_object kvs @ [CHR 0x0A]"

lemma set_strings_Join: "set (strings_Join xs sep) \<subseteq> (\<Union>x \<in> set xs. set x) \<union> set sep"
  by (induction xs sep rule: strings_Join.induct) auto

lemma json_object_one_line:
  assumes "\<And>k v. (k, v) \<in> set kvs \<Longrightarrow> CHR 0x0A \<notin> set v"
  shows "CHR 0x0A \<notin> set (json_object kvs)"
proof -
  have "CHR 0x0A \<notin> set (json_member kv)" if "kv \<in> set kvs" for kv
    using that assms [of "fst kv" "snd kv"] json_string_one_line [of "fst kv"]
    by (auto simp: json_member_def)
  then show ?thesis
    using set_strings_Join [of "map json_member (sort_key fst kvs)" "'',''"]
    by (auto simp: json_object_def)
qed

end
