(* ===== verification/Probe.thy ===== *)
theory Probe
  imports Server_Chain Go_Json
begin

text \<open>
  Package \<open>server\<close>, the sidecar listener (pkg/runtime/server/probe.go, drain.go, tls.go and
  \<open>NewOtherHTTPServer\<close> of http.go): liveness and readiness handlers, the drainer behind graceful
  shutdown, TLS configuration from files. The drainer's atomic flag is a cell of the world's \<open>flags\<close>.
  Parameters: \<open>err_text\<close> (\<open>Error()\<close> of dynamic error types), \<open>sel\<close> (how the \<open>select\<close> of \<open>BeforeStop\<close>
  ends, and what the rest of the process has done by then), the Prometheus and pprof handlers, and crypto/tls and the file
  system in \<open>TLSFromFiles\<close>.
\<close>

section \<open>Model\<close>

record 'l pinger =
  p_Name :: string
  p_Ping :: "ctx \<Rightarrow> ('l world, error option) io"

text \<open>A pointer to the list of probes, nil or not.\<close>

type_synonym 'l ReadinessProbes = "'l pinger list option"

definition json_content :: "nat \<Rightarrow> ('l world, unit) io" where
  "json_content wr = with_writer wr (rw_set_header ''Content-Type'' ''application/json'')"

definition health_body :: string where
  "health_body = ''{'' @ [CHR 0x22] @ ''status'' @ [CHR 0x22] @ '':'' @ [CHR 0x22] @ ''ok'' @ [CHR 0x22] @ ''}''"

definition healthHandler :: "'l http_handler" where
  "healthHandler wr r =
     io_then (json_content wr)
    (io_then (with_writer wr (rw_WriteHeader 200))
             (with_writer wr (rw_Write health_body)))"

text \<open>
  The loop over \<open>probes.All\<close>; every \<open>Ping\<close> gets a context of its own, with a two second deadline,
  cancelled when it returns. The contexts are named from \<open>fresh\<close> on.
\<close>

fun run_probes ::
  "(error \<Rightarrow> string) \<Rightarrow> nat \<Rightarrow> ctx \<Rightarrow> 'l pinger list \<Rightarrow> (string \<times> string) list \<Rightarrow> bool \<Rightarrow>
   ('l world, (string \<times> string) list \<times> bool) io" where
  "run_probes err_text fresh c [] result allOK = io_ret (result, allOK)"
| "run_probes err_text fresh c (p # ps) result allOK =
     io_bind (ctx_WithTimeout fresh (2 * 1000000000) c) (\<lambda>c'.
     io_bind (p_Ping p c') (\<lambda>err.
     io_bind (ctx_cancel c') (\<lambda>_.
       case err of
         Some e \<Rightarrow> run_probes err_text (Suc fresh) c ps (AList.update (p_Name p) (''fail: '' @ err_text e) result) False
       | None \<Rightarrow> run_probes err_text (Suc fresh) c ps (AList.update (p_Name p) ''ok'' result) allOK)))"

definition ready_body :: "bool \<Rightarrow> (string \<times> string) list \<Rightarrow> string" where
  "ready_body allOK result =
     json_line [(''ready'', if allOK then ''true'' else ''false''),
                (''checks'', json_object (map (\<lambda>(k, v). (k, json_string v)) result))]"

definition readyHandler ::
  "(error \<Rightarrow> string) \<Rightarrow> nat \<Rightarrow> 'l ReadinessProbes \<Rightarrow> 'l http_handler" where
  "readyHandler err_text fresh probes wr r =
     io_bind (case probes of
         Some ps \<Rightarrow> run_probes err_text fresh (r_ctx r) ps [] True
       | None \<Rightarrow> io_ret ([], True))
      (\<lambda>(result, allOK).
        io_then (json_content wr)
       (io_then (with_writer wr (rw_WriteHeader (if \<not> allOK then 503 else 200)))
                (with_writer wr (rw_Write (ready_body allOK result)))))"

text \<open>\<open>prom\<close> is \<open>promhttp.HandlerFor(prometheus.DefaultGatherer, promhttp.HandlerOpts{})\<close>.\<close>

definition metricsHandler :: "'l http_handler \<Rightarrow> 'l http_handler" where
  "metricsHandler prom wr r = prom wr r"

definition registerPprof ::
  "(string \<Rightarrow> 'l http_handler) \<Rightarrow> ('l, 'q, 'r) khttp_server \<Rightarrow> ('l, 'q, 'r) khttp_server" where
  "registerPprof pprof s =
     fold (\<lambda>name. khttp_HandleFunc (''/debug/pprof/'' @ name) (pprof name))
       ['''', ''cmdline'', ''profile'', ''symbol'', ''trace''] s"

definition buildHTTPNoMiddleware :: "'l HTTPConfig \<Rightarrow> ('l, 'q, 'r) khttp_server" where
  "buildHTTPNoMiddleware cfg = khttp_NewServer (baseHTTPOpts cfg)"

type_synonym ('l, 'q, 'r) OtherHTTPServer = "('l, 'q, 'r) khttp_server"

definition NewOtherHTTPServer ::
  "(error \<Rightarrow> string) \<Rightarrow> nat \<Rightarrow> 'l http_handler \<Rightarrow> (string \<Rightarrow> 'l http_handler) \<Rightarrow> 'l HTTPConfig \<Rightarrow>
   'l ReadinessProbes \<Rightarrow> ('l, 'q, 'r) OtherHTTPServer" where
  "NewOtherHTTPServer err_text fresh prom pprof cfg probes =
     registerPprof pprof
      (khttp_HandleFunc ''/metrics'' (metricsHandler prom)
      (khttp_HandleFunc ''/readyz'' (readyHandler err_text fresh probes)
      (khttp_HandleFunc ''/healthz'' healthHandler
      (buildHTTPNoMiddleware cfg))))"

section \<open>Draining\<close>

definition ErrDraining :: error where
  "ErrDraining = ErrorString ''draining''"

record Drainer =
  d_delay :: duration
  d_draining :: nat

text \<open>\<open>NewDrainer\<close> allocates the flag, cleared, at \<open>a\<close>.\<close>

definition NewDrainer :: "duration \<Rightarrow> nat \<Rightarrow> ('l world, Drainer) io" where
  "NewDrainer delay a =
     io_then (io_mod (\<lambda>w. w\<lparr>flags := (flags w)(a := False)\<rparr>)) (io_ret \<lparr>d_delay = delay, d_draining = a\<rparr>)"

definition Draining :: "Drainer \<Rightarrow> ('l world, bool) io" where
  "Draining d = io_get (\<lambda>w. flags w (d_draining d))"

text \<open>Both branches of the \<open>select\<close> are empty: the hook returns nil after the timer and after \<open>ctx.Done()\<close>.\<close>

definition BeforeStop ::
  "'l timer_select \<Rightarrow> Drainer \<Rightarrow> ctx \<Rightarrow> ('l world, error option) io" where
  "BeforeStop sel d c =
     io_then (io_mod (\<lambda>w. w\<lparr>flags := (flags w)(d_draining d := True)\<rparr>))
       (if sint (d_delay d) \<le> 0 then io_ret None
        else (\<lambda>w. case sel (cid c) (sint (d_delay d)) w of
                    (True, w') \<Rightarrow> (Ok None, w')
                  | (False, w') \<Rightarrow> (Ok None, w')))"

lemma BeforeStop_run:
  "BeforeStop sel d c w =
     (let w' = w\<lparr>flags := (flags w)(d_draining d := True)\<rparr>
      in (Ok None, if sint (d_delay d) \<le> 0 then w' else snd (sel (cid c) (sint (d_delay d)) w')))"
  by (simp add: BeforeStop_def io_simps Let_def split: prod.split bool.split)

text \<open>With the law of timers the hook takes the whole delay, unless its context ended.\<close>

lemma BeforeStop_waits:
  assumes "timer_law sel" and "BeforeStop sel d c w = (Ok e, w1)"
  shows "clock w + sint (d_delay d) \<le> clock w1 \<or> ctx_Err c w1 \<noteq> None"
proof (cases "sint (d_delay d) \<le> 0")
  case True
  with assms(2) show ?thesis
    by (auto simp: BeforeStop_run Let_def)
next
  case False
  let ?w = "w\<lparr>flags := (flags w)(d_draining d := True)\<rparr>"
  obtain fired where "sel (cid c) (sint (d_delay d)) ?w = (fired, w1)"
    using assms(2) False by (cases "sel (cid c) (sint (d_delay d)) ?w") (auto simp: BeforeStop_run Let_def)
  with assms(1) have "if fired then clock ?w + sint (d_delay d) \<le> clock w1 else ctx_errs w1 (cid c) \<noteq> None"
    unfolding timer_law_def by blast
  then show ?thesis
    by (auto simp: ctx_Err_def split: if_splits)
qed

definition ReadinessPinger :: "Drainer \<Rightarrow> 'l pinger" where
  "ReadinessPinger d = \<lparr>p_Name = ''drain'',
     p_Ping = (\<lambda>c. io_bind (io_get (\<lambda>w. flags w (d_draining d)))
       (\<lambda>draining. io_ret (if draining then Some ErrDraining else None)))\<rparr>"

section \<open>TLS\<close>

datatype client_auth = NoClientCert | RequireAndVerifyClientCert

record ('cert, 'pool) tls_config =
  Certificates :: "'cert list"
  MinVersion :: nat
  ClientCAs :: "'pool option"
  ClientAuth :: client_auth

definition VersionTLS12 :: nat where
  "VersionTLS12 = 0x0303"

text \<open>
  \<open>load\<close> is \<open>tls.LoadX509KeyPair\<close>, \<open>read_file\<close> is \<open>os.ReadFile\<close>, \<open>pool_from_pem\<close> a new pool with the
  certificates of a PEM text appended (\<open>None\<close> when none was parsed), \<open>quoted\<close> the verb \<open>%q\<close>.
\<close>

definition TLSFromFiles ::
  "(string \<Rightarrow> string \<Rightarrow> error + 'cert) \<Rightarrow> (string \<Rightarrow> error + string) \<Rightarrow> (string \<Rightarrow> 'pool option) \<Rightarrow>
   (string \<Rightarrow> string) \<Rightarrow> string \<Rightarrow> string \<Rightarrow> string \<Rightarrow> error + ('cert, 'pool) tls_config" where
  "TLSFromFiles load read_file pool_from_pem quoted certFile keyFile clientCAFile =
     (case load certFile keyFile of
        Inl e \<Rightarrow> Inl (WrapError (''tls: load cert/key '' @ quoted certFile @ '' + '' @ quoted keyFile) e)
      | Inr cert \<Rightarrow>
          (let conf = \<lparr>Certificates = [cert], MinVersion = VersionTLS12, ClientCAs = None,
                       ClientAuth = NoClientCert\<rparr> in
           if clientCAFile \<noteq> [] then
             (case read_file clientCAFile of
                Inl e \<Rightarrow> Inl (WrapError (''tls: read client CA '' @ quoted clientCAFile) e)
              | Inr ca \<Rightarrow>
                  (case pool_from_pem ca of
                     None \<Rightarrow> Inl (ErrorString (''tls: no certs parsed from '' @ quoted clientCAFile))
                   | Some pool \<Rightarrow>
                       Inr (conf\<lparr>ClientCAs := Some pool, ClientAuth := RequireAndVerifyClientCert\<rparr>)))
           else Inr conf))"

section \<open>What the readiness loop does\<close>

text \<open>The specification: ask every probe once, in order, and collect the answers.\<close>

fun ping_all :: "nat \<Rightarrow> ctx \<Rightarrow> 'l pinger list \<Rightarrow> ('l world, (string \<times> error option) list) io" where
  "ping_all fresh c [] = io_ret []"
| "ping_all fresh c (p # ps) =
     io_bind (ctx_WithTimeout fresh (2 * 1000000000) c) (\<lambda>c'.
     io_bind (p_Ping p c') (\<lambda>err.
     io_bind (ctx_cancel c') (\<lambda>_.
     io_bind (ping_all (Suc fresh) c ps) (\<lambda>rs. io_ret ((p_Name p, err) # rs)))))"

definition check_text :: "(error \<Rightarrow> string) \<Rightarrow> error option \<Rightarrow> string" where
  "check_text err_text err = (case err of Some e \<Rightarrow> ''fail: '' @ err_text e | None \<Rightarrow> ''ok'')"

definition checks ::
  "(error \<Rightarrow> string) \<Rightarrow> (string \<times> error option) list \<Rightarrow> (string \<times> string) list \<Rightarrow> (string \<times> string) list" where
  "checks err_text rs result =
     fold (\<lambda>(n, err) result. AList.update n (check_text err_text err) result) rs result"

definition all_ok :: "(string \<times> error option) list \<Rightarrow> bool" where
  "all_ok rs \<longleftrightarrow> (\<forall>r \<in> set rs. snd r = None)"

lemma run_probes_ping_all:
  "run_probes err_text fresh c ps result ok =
     io_bind (ping_all fresh c ps) (\<lambda>rs. io_ret (checks err_text rs result, ok \<and> all_ok rs))"
proof (induction ps arbitrary: fresh result ok)
  case Nil
  then show ?case by (simp add: io_monad checks_def all_ok_def)
next
  case (Cons p ps)
  have "(\<lambda>err. case err of
       Some e \<Rightarrow> run_probes err_text (Suc fresh) c ps (AList.update (p_Name p) (''fail: '' @ err_text e) result) False
     | None \<Rightarrow> run_probes err_text (Suc fresh) c ps (AList.update (p_Name p) ''ok'' result) ok) =
     (\<lambda>err. io_bind (ping_all (Suc fresh) c ps) (\<lambda>rs. io_ret (checks err_text ((p_Name p, err) # rs) result,
       ok \<and> all_ok ((p_Name p, err) # rs))))"
  proof (rule ext)
    show "(case err of
       Some e \<Rightarrow> run_probes err_text (Suc fresh) c ps (AList.update (p_Name p) (''fail: '' @ err_text e) result) False
     | None \<Rightarrow> run_probes err_text (Suc fresh) c ps (AList.update (p_Name p) ''ok'' result) ok) =
     io_bind (ping_all (Suc fresh) c ps) (\<lambda>rs. io_ret (checks err_text ((p_Name p, err) # rs) result,
       ok \<and> all_ok ((p_Name p, err) # rs)))" for err
      by (cases err) (simp_all add: Cons.IH checks_def check_text_def all_ok_def)
  qed
  then show ?case
    by (simp only: run_probes.simps ping_all.simps io_monad)
qed

lemma checks_lookup:
  "map_of (checks err_text rs result) n =
     (case map_of (rev rs) n of Some err \<Rightarrow> Some (check_text err_text err) | None \<Rightarrow> map_of result n)"
proof (induction rs arbitrary: result)
  case (Cons r rs)
  then show ?case
    by (cases r) (auto simp: checks_def update_conv' map_add_def split: option.splits)
qed (simp add: checks_def)

text \<open>What a finished handler has sent: status, content type and body.\<close>

definition answered :: "nat \<Rightarrow> string \<Rightarrow> response \<Rightarrow> response \<Rightarrow> bool" where
  "answered status body r0 r1 \<longleftrightarrow>
     rw_sent r1 = Some (status, header_Set (rw_header r0) ''Content-Type'' ''application/json'') \<and>
     rw_body r1 = rw_body r0 @ body"

lemma answer_run:
  assumes "rw_sent (writers w wr) = None"
  shows "\<exists>w'. io_then (json_content wr) (io_then (with_writer wr (rw_WriteHeader status))
      (with_writer wr (rw_Write body))) w = (Ok (), w') \<and>
    answered status body (writers w wr) (writers w' wr) \<and> flags w' = flags w \<and> trace w' = trace w"
  using assms
  by (simp add: json_content_def with_writer_def io_simps answered_def rw_set_header_def
      rw_WriteHeader_def rw_Write_def Let_def)

text \<open>Nobody but the drainer writes its flag: probes that return and leave a flag alone.\<close>

definition polite :: "nat \<Rightarrow> 'l pinger \<Rightarrow> bool" where
  "polite a p \<longleftrightarrow> (\<forall>c w. \<exists>err w'. p_Ping p c w = (Ok err, w') \<and> flags w' a = flags w a \<and> writers w' = writers w)"

lemma polite_drainer: "polite a (ReadinessPinger d)"
  by (simp add: polite_def ReadinessPinger_def io_simps)

lemma ping_all_polite:
  assumes "\<forall>p \<in> set ps. polite a p"
  obtains rs w' where "ping_all fresh c ps w = (Ok rs, w')" and "flags w' a = flags w a"
    and "writers w' = writers w" and "map fst rs = map p_Name ps"
    and "\<And>d. flags w a \<Longrightarrow> d_draining d = a \<Longrightarrow> ReadinessPinger d \<in> set ps \<Longrightarrow> \<not> all_ok rs"
  using assms
proof (induction ps arbitrary: fresh w thesis)
  case Nil
  show ?case
    by (rule Nil(1) [of "[]" w]) (simp_all add: io_simps)
next
  case (Cons p ps)
  let ?c = "c\<lparr>cid := fresh\<rparr>" and ?w = "ctx_start fresh (2 * 1000000000) c w"
  obtain err w0 where p0: "p_Ping p ?c ?w = (Ok err, w0)" "flags w0 a = flags ?w a" "writers w0 = writers ?w"
    using Cons.prems(2) unfolding polite_def by (metis list.set_intros(1))
  define w1 where "w1 = ctx_stop ?c w0"
  have p: "flags w1 a = flags w a" "writers w1 = writers w"
    using p0 by (simp_all add: w1_def)
  obtain rs w' where rs: "ping_all (Suc fresh) c ps w1 = (Ok rs, w')" "flags w' a = flags w1 a"
    "writers w' = writers w1" "map fst rs = map p_Name ps"
    "\<And>d. flags w1 a \<Longrightarrow> d_draining d = a \<Longrightarrow> ReadinessPinger d \<in> set ps \<Longrightarrow> \<not> all_ok rs"
    using Cons.IH Cons.prems(2) by (metis list.set_intros(2))
  have drain: "err = Some ErrDraining" if "flags w a" "d_draining d = a" "ReadinessPinger d = p" for d
    using p0(1) that by (auto simp: ReadinessPinger_def io_simps)
  show ?case
  proof (rule Cons.prems(1) [of "(p_Name p, err) # rs" w'])
    show "ping_all fresh c (p # ps) w = (Ok ((p_Name p, err) # rs), w')"
      using p0(1) rs(1) by (simp add: io_simps w1_def)
    show "\<not> all_ok ((p_Name p, err) # rs)"
      if "flags w a" "d_draining d = a" "ReadinessPinger d \<in> set (p # ps)" for d
      using that drain rs(5) p(1) by (auto simp: all_ok_def)
  qed (use p rs in simp_all)
qed

lemma ready_run:
  assumes "ping_all fresh (r_ctx r) ps w = (Ok rs, w1)" and "rw_sent (writers w1 wr) = None"
  shows "\<exists>w'. readyHandler err_text fresh (Some ps) wr r w = (Ok (), w') \<and>
    answered (if all_ok rs then 200 else 503) (ready_body (all_ok rs) (checks err_text rs []))
      (writers w1 wr) (writers w' wr) \<and> flags w' = flags w1"
  using answer_run [OF assms(2), of "if \<not> all_ok rs then 503 else 200"
      "ready_body (all_ok rs) (checks err_text rs [])"] assms(1)
  by (auto simp: readyHandler_def run_probes_ping_all io_simps)

section \<open>Properties\<close>

text \<open>
  C28. Readiness: when all probes return, each has been asked exactly once, in order, under a context of
  its own with a two second deadline that is cancelled when it has answered, and the answer
  is 200 exactly when none of them failed and 503 otherwise; under each probe's name the body
  reports \<open>ok\<close> or its error (the last one, where names repeat).
\<close>

theorem readyz_spec:
  assumes "ping_all fresh (r_ctx r) ps w = (Ok rs, w1)" and "rw_sent (writers w1 wr) = None"
  shows "\<exists>w' result. readyHandler err_text fresh (Some ps) wr r w = (Ok (), w') \<and>
    answered (if all_ok rs then 200 else 503) (ready_body (all_ok rs) result)
      (writers w1 wr) (writers w' wr) \<and>
    (\<forall>n. map_of result n = map_option (check_text err_text) (map_of (rev rs) n))"
proof -
  have "map_of (checks err_text rs []) n = map_option (check_text err_text) (map_of (rev rs) n)" for n
    by (simp add: checks_lookup split: option.splits)
  then show ?thesis
    using ready_run [OF assms, of err_text] by blast
qed

definition demo_pingers :: "unit pinger list" where
  "demo_pingers = [\<lparr>p_Name = ''db'', p_Ping = (\<lambda>c. io_ret None)\<rparr>,
     \<lparr>p_Name = ''cache'', p_Ping = (\<lambda>c. io_ret (Some Canceled))\<rparr>]"

definition demo_get :: http_request where
  "demo_get = \<lparr>r_method = ''GET'', r_path = ''/readyz'', r_header = Map.empty, r_ctx = Background\<rparr>"

theorem readyz_spec_witness:
  "\<exists>w' body. readyHandler (\<lambda>_. ''err'') 1 (Some demo_pingers) 0 demo_get demo_world = (Ok (), w') \<and>
    answered 503 body (writers (demo_world :: unit world) 0) (writers w' 0)"
proof -
  obtain w1 where ping: "ping_all 1 (r_ctx demo_get) demo_pingers demo_world = (Ok [(''db'', None), (''cache'', Some Canceled)], w1)"
    and same: "writers w1 0 = writers (demo_world :: unit world) 0"
    by (simp add: demo_pingers_def io_simps)
  have "rw_sent (writers w1 0) = None"
    by (simp add: same demo_world_def new_response_def)
  from readyz_spec [OF ping this, of "\<lambda>_. ''err''"] show ?thesis
    by (auto simp: all_ok_def same)
qed

text \<open>
  Once draining has begun, the pod is not ready: if the drainer's probe is among the readiness
  probes and \<open>BeforeStop\<close> has been called, then as long as the other probes return and nobody else
  writes the drainer's flag, every \<open>/readyz\<close> request is answered 503, whatever the other probes say.
\<close>

theorem draining_not_ready:
  assumes "BeforeStop sel d c w = (Ok e, w1)" and "flags (snd (sel (cid c) (sint (d_delay d))
      (w\<lparr>flags := (flags w)(d_draining d := True)\<rparr>))) (d_draining d)"
    and "ReadinessPinger d \<in> set ps" and "\<forall>p \<in> set ps. polite (d_draining d) p"
    and "rw_sent (writers w1 wr) = None"
  shows "e = None \<and> (\<exists>w' body. readyHandler err_text fresh (Some ps) wr r w1 = (Ok (), w') \<and>
    answered 503 body (writers w1 wr) (writers w' wr) \<and> flags w' (d_draining d))"
proof -
  have flag: "flags w1 (d_draining d)" and e: "e = None"
    using assms(1,2) by (auto simp: BeforeStop_run Let_def split: if_splits)
  obtain rs w2 where ping: "ping_all fresh (r_ctx r) ps w1 = (Ok rs, w2)"
    and keep: "flags w2 (d_draining d) = flags w1 (d_draining d)" "writers w2 = writers w1"
    and bad: "\<And>d'. flags w1 (d_draining d) \<Longrightarrow> d_draining d' = d_draining d \<Longrightarrow>
       ReadinessPinger d' \<in> set ps \<Longrightarrow> \<not> all_ok rs"
    using ping_all_polite [OF assms(4), of fresh "r_ctx r" w1] by blast
  have "\<not> all_ok rs"
    using bad [OF flag refl assms(3)] .
  then show ?thesis
    using ready_run [OF ping, of wr err_text] assms(5) keep flag e by auto
qed

definition demo_drainer :: Drainer where
  "demo_drainer = \<lparr>d_delay = 5, d_draining = 3\<rparr>"

definition demo_timer :: "unit timer_select" where
  "demo_timer n d w = (True, w\<lparr>clock := clock w + d\<rparr>)"

lemma demo_timer_law: "timer_law demo_timer"
  by (simp add: timer_law_def demo_timer_def)

theorem draining_not_ready_witness:
  "\<exists>w1 w' body. BeforeStop demo_timer demo_drainer Background demo_world = (Ok None, w1) \<and>
    readyHandler (\<lambda>_. ''err'') 1 (Some [ReadinessPinger demo_drainer]) 0 demo_get w1 = (Ok (), w') \<and>
    answered 503 body (writers w1 0) (writers w' 0)"
proof -
  obtain e w1 where run: "BeforeStop demo_timer demo_drainer Background demo_world = (Ok e, w1)"
    and fresh: "rw_sent (writers w1 0) = None"
    by (simp add: BeforeStop_run Let_def demo_drainer_def demo_timer_def demo_world_def new_response_def)
  have "flags (snd (demo_timer (cid Background) (sint (d_delay demo_drainer))
      (demo_world\<lparr>flags := (flags demo_world)(d_draining demo_drainer := True)\<rparr>))) (d_draining demo_drainer)"
    by (simp add: demo_timer_def)
  then show ?thesis
    using draining_not_ready [OF run, of "[ReadinessPinger demo_drainer]" 0 "\<lambda>_. ''err''" 1 demo_get]
      run fresh polite_drainer by auto
qed

text \<open>
  The grace period: \<open>BeforeStop\<close> never fails, and if it sleeps, then it returns no earlier than
  \<open>delay\<close> after it was called, unless its context ended; with a non-positive delay it returns at
  once, with the flag set and nothing else changed.
\<close>

theorem BeforeStop_grace:
  assumes "timer_law sel"
  shows "\<exists>w'. BeforeStop sel d c w = (Ok None, w') \<and>
    (clock w + sint (d_delay d) \<le> clock w' \<or> ctx_Err c w' \<noteq> None) \<and>
    (sint (d_delay d) \<le> 0 \<longrightarrow> w' = w\<lparr>flags := (flags w)(d_draining d := True)\<rparr>)"
proof -
  obtain w' where run: "BeforeStop sel d c w = (Ok None, w')"
    by (simp add: BeforeStop_run Let_def)
  moreover from this have "sint (d_delay d) \<le> 0 \<longrightarrow> w' = w\<lparr>flags := (flags w)(d_draining d := True)\<rparr>"
    by (auto simp: BeforeStop_run Let_def)
  ultimately show ?thesis
    using BeforeStop_waits [OF assms run] by blast
qed

theorem BeforeStop_grace_witness:
  "\<exists>w'. BeforeStop demo_timer demo_drainer Background demo_world = (Ok None, w') \<and>
    (clock (demo_world :: unit world) + 5 \<le> clock w' \<or> ctx_Err Background w' \<noteq> None)"
  using BeforeStop_grace [OF demo_timer_law, of demo_drainer Background demo_world]
  by (auto simp: demo_drainer_def)

text \<open>
  The sidecar listener cannot be gated: whatever its configuration, no middleware is installed
  on it, its routes are exactly the probe, metrics and pprof endpoints with their plain handlers,
  and \<open>/healthz\<close> answers 200 without asking anything, also while draining.
\<close>

theorem sidecar_ungated:
  "(\<forall>ms. OptMiddleware ms \<notin> set (ks_options (NewOtherHTTPServer err_text fresh prom pprof cfg probes))) \<and>
   ks_routes (NewOtherHTTPServer err_text fresh prom pprof cfg probes) =
     [(''/healthz'', healthHandler), (''/readyz'', readyHandler err_text fresh probes),
      (''/metrics'', metricsHandler prom), (''/debug/pprof/'', pprof []), (''/debug/pprof/cmdline'', pprof ''cmdline''),
      (''/debug/pprof/profile'', pprof ''profile''), (''/debug/pprof/symbol'', pprof ''symbol''),
      (''/debug/pprof/trace'', pprof ''trace'')] \<and>
   (rw_sent (writers w wr) = None \<longrightarrow>
     (\<exists>w'. healthHandler wr r w = (Ok (), w') \<and>
        answered 200 health_body (writers w wr) (writers w' wr) \<and> flags w' = flags w))"
  using answer_run [of w wr 200 health_body]
  by (auto simp: NewOtherHTTPServer_def registerPprof_def buildHTTPNoMiddleware_def khttp_NewServer_def
      khttp_HandleFunc_def baseHTTPOpts_def healthHandler_def split: if_splits option.splits)

theorem sidecar_ungated_witness:
  "\<exists>w'. healthHandler 0 demo_get (demo_world :: unit world) = (Ok (), w') \<and>
     answered 200 health_body (writers (demo_world :: unit world) 0) (writers w' 0)"
proof -
  have "rw_sent (writers (demo_world :: unit world) 0) = None"
    by (simp add: demo_world_def new_response_def)
  then show ?thesis
    using sidecar_ungated [of "\<lambda>_. ''err''" 1 "\<lambda>_ _. io_ret ()" "\<lambda>_ _ _. io_ret ()"
        "\<lparr>h_Network = [], h_Addr = [], h_Timeout = 0, h_Filters = [], h_TLSConfig = None\<rparr>" None
        "demo_world :: unit world" 0 demo_get, THEN conjunct2, THEN conjunct2]
    by blast
qed

text \<open>
  TLS configuration: a configuration is returned only with the loaded key pair, at least TLS 1.2,
  and client certificates required and verified against the given CA file exactly when one is
  given; an unreadable file or one without certificates is an error, never a weaker configuration.
\<close>

theorem TLSFromFiles_spec:
  "(\<forall>conf. TLSFromFiles load rd pem qt certFile keyFile ca = Inr conf \<longrightarrow>
      MinVersion conf = VersionTLS12 \<and> (\<exists>cert. load certFile keyFile = Inr cert \<and> Certificates conf = [cert]) \<and>
      (ca = [] \<longrightarrow> ClientAuth conf = NoClientCert \<and> ClientCAs conf = None) \<and>
      (ca \<noteq> [] \<longrightarrow> ClientAuth conf = RequireAndVerifyClientCert \<and>
         (\<exists>text pool. rd ca = Inr text \<and> pem text = Some pool \<and> ClientCAs conf = Some pool))) \<and>
   (\<forall>e. load certFile keyFile = Inl e \<or> (ca \<noteq> [] \<and> (rd ca = Inl e \<or>
        (\<exists>text. rd ca = Inr text \<and> pem text = None))) \<longrightarrow>
      (\<exists>e'. TLSFromFiles load rd pem qt certFile keyFile ca = Inl e'))"
  by (auto simp: TLSFromFiles_def Let_def split: sum.splits option.splits if_splits)

theorem TLSFromFiles_spec_witness:
  "\<exists>conf. TLSFromFiles (\<lambda>_ _. Inr ()) (\<lambda>_. Inr ''pem'') (\<lambda>_. Some ()) (\<lambda>s. s) ''c'' ''k'' ''ca'' = Inr conf \<and>
     ClientAuth conf = RequireAndVerifyClientCert"
proof -
  obtain conf where run: "TLSFromFiles (\<lambda>_ _. Inr ()) (\<lambda>_. Inr ''pem'') (\<lambda>_. Some ()) (\<lambda>s. s) ''c'' ''k'' ''ca'' =
      Inr conf"
    by (simp add: TLSFromFiles_def)
  then show ?thesis
    using TLSFromFiles_spec [of "\<lambda>_ _. Inr ()" "\<lambda>_. Inr ''pem''" "\<lambda>_. Some ()" "\<lambda>s. s" "''c''" "''k''" "''ca''",
        THEN conjunct1, rule_format, OF run] by simp
qed

end
