(* ===== verification/Cors.thy ===== *)
theory Cors
  imports Kratos
begin

text \<open>
  Package \<open>cors\<close> (pkg/middleware/cors/cors.go): a filter in front of the HTTP server that answers
  preflight requests and adds CORS headers. \<open>secs\<close> is \<open>int(d.Seconds())\<close>, whose float arithmetic is
  exact for durations below 2^53 nanoseconds.
\<close>

section \<open>Model\<close>

record cors_options =
  allowAnyOrigin :: bool
  allowedOrigins :: "string set"
  allowedMethods :: "string list"
  allowedHeaders :: "string list"
  exposedHeaders :: "string list"
  allowCredentials :: bool
  maxAge :: duration

definition defaultOptions :: cors_options where
  "defaultOptions = \<lparr>allowAnyOrigin = False, allowedOrigins = {},
     allowedMethods = [''GET'', ''POST'', ''PUT'', ''DELETE'', ''PATCH'', ''OPTIONS''],
     allowedHeaders = [''Content-Type'', ''Authorization'', ''X-Trace-Id''],
     exposedHeaders = [''X-Trace-Id''], allowCredentials = False, maxAge = 600000000000\<rparr>"

type_synonym cors_Option = "cors_options \<Rightarrow> cors_options"

definition WithAllowedOrigins :: "string list \<Rightarrow> cors_Option" where
  "WithAllowedOrigins origins o' =
     fold (\<lambda>origin o'. if origin = ''*'' then o'\<lparr>allowAnyOrigin := True\<rparr>
        else o'\<lparr>allowedOrigins := insert origin (allowedOrigins o')\<rparr>) origins o'"

definition WithAllowedMethods :: "string list \<Rightarrow> cors_Option" where
  "WithAllowedMethods methods o' = o'\<lparr>allowedMethods := methods\<rparr>"

definition WithAllowedHeaders :: "string list \<Rightarrow> cors_Option" where
  "WithAllowedHeaders headers o' = o'\<lparr>allowedHeaders := headers\<rparr>"

definition WithExposedHeaders :: "string list \<Rightarrow> cors_Option" where
  "WithExposedHeaders headers o' = o'\<lparr>exposedHeaders := headers\<rparr>"

definition WithAllowCredentials :: "bool \<Rightarrow> cors_Option" where
  "WithAllowCredentials b o' = o'\<lparr>allowCredentials := b\<rparr>"

definition WithMaxAge :: "duration \<Rightarrow> cors_Option" where
  "WithMaxAge d o' = o'\<lparr>maxAge := d\<rparr>"

definition originAllowed :: "cors_options \<Rightarrow> string \<Rightarrow> bool" where
  "originAllowed o' origin = (if allowAnyOrigin o' then True else origin \<in> allowedOrigins o')"

text \<open>The changes to the response header before the method is looked at, and for a preflight.\<close>

definition cors_headers :: "cors_options \<Rightarrow> string \<Rightarrow> response \<Rightarrow> response" where
  "cors_headers o' origin =
     (\<lambda>h. if strings_Join (exposedHeaders o') '', '' \<noteq> []
          then rw_set_header ''Access-Control-Expose-Headers'' (strings_Join (exposedHeaders o') '', '') h else h) \<circ>
     (\<lambda>h. if allowCredentials o' then rw_set_header ''Access-Control-Allow-Credentials'' ''true'' h else h) \<circ>
     (\<lambda>h. if allowAnyOrigin o' \<and> \<not> allowCredentials o'
          then rw_set_header ''Access-Control-Allow-Origin'' ''*'' h
          else rw_add_header ''Vary'' ''Origin'' (rw_set_header ''Access-Control-Allow-Origin'' origin h))"

definition preflight_headers :: "(duration \<Rightarrow> int) \<Rightarrow> cors_options \<Rightarrow> response \<Rightarrow> response" where
  "preflight_headers secs o' =
     (\<lambda>h. if 0 < sint (maxAge o')
          then rw_set_header ''Access-Control-Max-Age'' (Itoa (secs (maxAge o'))) h else h) \<circ>
     rw_set_header ''Access-Control-Allow-Headers'' (strings_Join (allowedHeaders o') '', '') \<circ>
     rw_set_header ''Access-Control-Allow-Methods'' (strings_Join (allowedMethods o') '', '')"

definition is_preflight :: "http_request \<Rightarrow> bool" where
  "is_preflight r \<longleftrightarrow> r_method r = ''OPTIONS'' \<and>
     header_Get (r_header r) ''Access-Control-Request-Method'' \<noteq> []"

definition cors_New ::
  "(duration \<Rightarrow> int) \<Rightarrow> cors_Option list \<Rightarrow> 'l http_filter" where
  "cors_New secs opts next wr r =
     (let o' = apply_opts defaultOptions opts;
          origin = header_Get (r_header r) ''Origin'' in
      if origin = [] then next wr r
      else if \<not> originAllowed o' origin then next wr r
      else
        io_then (with_writer wr (cors_headers o' origin))
          (if is_preflight r
           then io_then (with_writer wr (preflight_headers secs o'))
                        (with_writer wr (rw_WriteHeader 204))
           else next wr r))"

section \<open>Headers\<close>

lemma canonical_cors [simp]:
  "CanonicalHeaderKey ''Access-Control-Allow-Origin'' = ''Access-Control-Allow-Origin''"
  "CanonicalHeaderKey ''Access-Control-Allow-Credentials'' = ''Access-Control-Allow-Credentials''"
  "CanonicalHeaderKey ''Access-Control-Expose-Headers'' = ''Access-Control-Expose-Headers''"
  "CanonicalHeaderKey ''Access-Control-Allow-Methods'' = ''Access-Control-Allow-Methods''"
  "CanonicalHeaderKey ''Access-Control-Allow-Headers'' = ''Access-Control-Allow-Headers''"
  "CanonicalHeaderKey ''Access-Control-Max-Age'' = ''Access-Control-Max-Age''"
  "CanonicalHeaderKey ''Vary'' = ''Vary''"
  by code_simp+

lemma header_Get_set [simp]:
  "header_Get (rw_header (rw_set_header k v r)) k' =
     (if CanonicalHeaderKey k = CanonicalHeaderKey k' then v else header_Get (rw_header r) k')"
  by (simp add: rw_set_header_def http.get_set)

lemma header_Get_add_other [simp]:
  "CanonicalHeaderKey k \<noteq> CanonicalHeaderKey k' \<Longrightarrow>
     header_Get (rw_header (rw_add_header k v r)) k' = header_Get (rw_header r) k'"
  by (simp add: rw_add_header_def header_Add_def header_Get_def)

lemma rw_sent_headers [simp]:
  "rw_sent (rw_set_header k v r) = rw_sent r" "rw_sent (rw_add_header k v r) = rw_sent r"
  "rw_body (rw_set_header k v r) = rw_body r" "rw_body (rw_add_header k v r) = rw_body r"
  by (simp_all add: rw_set_header_def rw_add_header_def)

lemma cors_headers_sent [simp]:
  "rw_sent (cors_headers o' origin r) = rw_sent r" "rw_body (cors_headers o' origin r) = rw_body r"
  "rw_sent (preflight_headers secs o' r) = rw_sent r" "rw_body (preflight_headers secs o' r) = rw_body r"
  by (simp_all add: cors_headers_def preflight_headers_def)

lemma cors_headers_get:
  "header_Get (rw_header (cors_headers o' origin r)) ''Access-Control-Allow-Origin'' =
     (if allowAnyOrigin o' \<and> \<not> allowCredentials o' then ''*'' else origin)"
  "allowCredentials o' \<Longrightarrow>
     header_Get (rw_header (cors_headers o' origin r)) ''Access-Control-Allow-Credentials'' = ''true''"
  by (auto simp: cors_headers_def)

lemma preflight_headers_get:
  "header_Get (rw_header (preflight_headers secs o' r)) ''Access-Control-Allow-Methods'' =
     strings_Join (allowedMethods o') '', ''"
  "header_Get (rw_header (preflight_headers secs o' r)) ''Access-Control-Allow-Headers'' =
     strings_Join (allowedHeaders o') '', ''"
  "0 < sint (maxAge o') \<Longrightarrow>
     header_Get (rw_header (preflight_headers secs o' r)) ''Access-Control-Max-Age'' = Itoa (secs (maxAge o'))"
  "header_Get (rw_header (preflight_headers secs o' r)) ''Access-Control-Allow-Origin'' =
     header_Get (rw_header r) ''Access-Control-Allow-Origin''"
  "header_Get (rw_header (preflight_headers secs o' r)) ''Access-Control-Allow-Credentials'' =
     header_Get (rw_header r) ''Access-Control-Allow-Credentials''"
  by (auto simp: preflight_headers_def)

section \<open>Origins\<close>

lemma WithAllowedOrigins_effect:
  "allowAnyOrigin (WithAllowedOrigins origins o') \<longleftrightarrow> allowAnyOrigin o' \<or> ''*'' \<in> set origins"
  "allowedOrigins (WithAllowedOrigins origins o') = allowedOrigins o' \<union> (set origins - {''*''})"
  unfolding WithAllowedOrigins_def by (induction origins arbitrary: o') auto

lemma cors_New_unfold:
  assumes "origin = header_Get (r_header r) ''Origin''" and "origin \<noteq> []"
    and "originAllowed (apply_opts defaultOptions opts) origin"
  shows "cors_New secs opts next wr r w =
    (if is_preflight r
     then (Ok (), w\<lparr>writers := (writers w)(wr := rw_WriteHeader 204 (preflight_headers secs
        (apply_opts defaultOptions opts) (cors_headers (apply_opts defaultOptions opts) origin (writers w wr))))\<rparr>)
     else next wr r (w\<lparr>writers := (writers w)(wr :=
        cors_headers (apply_opts defaultOptions opts) origin (writers w wr))\<rparr>))"
  using assms by (simp add: cors_New_def Let_def io_simps with_writer_bind with_writer_def)

section \<open>Properties\<close>

text \<open>
  Which origins are allowed: exactly those listed in some \<open>WithAllowedOrigins\<close> call, or all of
  them when one of the lists contains \<open>*\<close>; calls accumulate. A request without an origin, or from
  one that is not allowed, reaches the next handler with request and response untouched.
\<close>

theorem cors_origins:
  "(originAllowed (apply_opts defaultOptions (map WithAllowedOrigins oss)) origin \<longleftrightarrow>
      ''*'' \<in> set (concat oss) \<or> origin \<in> set (concat oss)) \<and>
   (header_Get (r_header r) ''Origin'' = [] \<or>
      \<not> originAllowed (apply_opts defaultOptions opts) (header_Get (r_header r) ''Origin'') \<longrightarrow>
      cors_New secs opts next wr r = next wr r)"
proof -
  have "allowAnyOrigin (apply_opts o' (map WithAllowedOrigins oss)) \<longleftrightarrow>
      allowAnyOrigin o' \<or> ''*'' \<in> set (concat oss)"
    "allowedOrigins (apply_opts o' (map WithAllowedOrigins oss)) =
      allowedOrigins o' \<union> (set (concat oss) - {''*''})" for o'
    by (induction oss arbitrary: o') (auto simp: WithAllowedOrigins_effect)
  then show ?thesis
    by (auto simp: originAllowed_def defaultOptions_def cors_New_def Let_def)
qed

definition demo_req :: "string \<Rightarrow> http_header \<Rightarrow> http_request" where
  "demo_req m hdrs = \<lparr>r_method = m, r_path = ''/'', r_header = hdrs, r_ctx = Background\<rparr>"

definition demo_next :: "unit http_handler" where
  "demo_next wr r = with_writer wr (rw_WriteHeader 200)"

theorem cors_origins_witness:
  "cors_New (\<lambda>_. 600) [WithAllowedOrigins [''https://a'']] demo_next 0 (demo_req ''GET'' Map.empty) =
     demo_next 0 (demo_req ''GET'' Map.empty)"
proof -
  have "header_Get (r_header (demo_req ''GET'' Map.empty)) ''Origin'' = []"
    by (simp add: demo_req_def header_Get_def)
  then show ?thesis
    using cors_origins [of "[]" "[]" "demo_req ''GET'' Map.empty" "[WithAllowedOrigins [''https://a'']]"
        "\<lambda>_. 600" demo_next 0, THEN conjunct2]
    by blast
qed

definition demo_origin :: http_header where
  "demo_origin = [''Origin'' \<mapsto> [''https://a''], ''Access-Control-Request-Method'' \<mapsto> [''PUT'']]"

lemma demo_origin_get:
  "header_Get (r_header (demo_req m demo_origin)) ''Origin'' = ''https://a''"
  "is_preflight (demo_req ''OPTIONS'' demo_origin)" "\<not> is_preflight (demo_req ''PUT'' demo_origin)"
proof -
  have canon: "CanonicalHeaderKey ''Origin'' = ''Origin''"
    "CanonicalHeaderKey ''Access-Control-Request-Method'' = ''Access-Control-Request-Method''"
    by code_simp+
  show "header_Get (r_header (demo_req m demo_origin)) ''Origin'' = ''https://a''"
    "is_preflight (demo_req ''OPTIONS'' demo_origin)" "\<not> is_preflight (demo_req ''PUT'' demo_origin)"
    by (simp_all add: demo_req_def demo_origin_def header_Get_def is_preflight_def canon)
qed

lemma demo_allowed: "originAllowed (apply_opts defaultOptions [WithAllowedOrigins [''https://a'']]) ''https://a''"
  by (simp add: originAllowed_def WithAllowedOrigins_effect)

text \<open>
  C22. A preflight from an allowed origin never reaches the wrapped handler (and so neither
  authentication nor rate limiting): it is answered 204 with the configured methods and headers,
  with the cache lifetime when it is positive, and with the allowed origin.
\<close>

theorem cors_preflight:
  assumes "origin = header_Get (r_header r) ''Origin''" and "origin \<noteq> []" and "is_preflight r"
    and "originAllowed (apply_opts defaultOptions opts) origin" and "rw_sent (writers w wr) = None"
  defines "o' \<equiv> apply_opts defaultOptions opts"
  shows "\<exists>w' hdr. (\<forall>next. cors_New secs opts next wr r w = (Ok (), w')) \<and>
    rw_sent (writers w' wr) = Some (204, hdr) \<and> rw_body (writers w' wr) = rw_body (writers w wr) \<and>
    header_Get hdr ''Access-Control-Allow-Origin'' = (if allowAnyOrigin o' \<and> \<not> allowCredentials o' then ''*'' else origin) \<and>
    header_Get hdr ''Access-Control-Allow-Methods'' = strings_Join (allowedMethods o') '', '' \<and>
    header_Get hdr ''Access-Control-Allow-Headers'' = strings_Join (allowedHeaders o') '', '' \<and>
    (0 < sint (maxAge o') \<longrightarrow> header_Get hdr ''Access-Control-Max-Age'' = Itoa (secs (maxAge o')))"
proof -
  define r1 where "r1 = preflight_headers secs o' (cors_headers o' origin (writers w wr))"
  define w' where "w' = w\<lparr>writers := (writers w)(wr := rw_WriteHeader 204 r1)\<rparr>"
  have "cors_New secs opts next wr r w = (Ok (), w')" for "next"
    using assms(3) cors_New_unfold [OF assms(1,2,4)] by (simp add: w'_def r1_def o'_def)
  moreover have "rw_sent (writers w' wr) = Some (204, rw_header r1)"
    and "rw_body (writers w' wr) = rw_body (writers w wr)"
    using assms(5) by (simp_all add: w'_def r1_def rw_WriteHeader_def)
  ultimately show ?thesis
    by (intro exI [of _ w'] exI [of _ "rw_header r1"])
       (simp add: r1_def preflight_headers_get cors_headers_get)
qed

theorem cors_preflight_witness:
  "\<exists>w' hdr. (\<forall>next. cors_New (\<lambda>_. 600) [WithAllowedOrigins [''https://a'']] next 0
      (demo_req ''OPTIONS'' demo_origin) (demo_world :: unit world) = (Ok (), w')) \<and>
    rw_sent (writers w' 0) = Some (204, hdr) \<and> header_Get hdr ''Access-Control-Allow-Origin'' = ''https://a''"
proof -
  have "rw_sent (writers (demo_world :: unit world) 0) = None"
    by (simp add: demo_world_def new_response_def)
  moreover have "\<not> allowAnyOrigin (apply_opts defaultOptions [WithAllowedOrigins [''https://a'']])"
    by (simp add: WithAllowedOrigins_effect defaultOptions_def)
  ultimately show ?thesis
    using cors_preflight [OF demo_origin_get(1) [symmetric] _ demo_origin_get(2) demo_allowed,
        of demo_world 0 "\<lambda>_. 600"]
    by auto
qed

text \<open>
  An actual request from an allowed origin runs the handler exactly once, with the allowed origin
  already in the response header; unless the answer is the wildcard, \<open>Vary\<close> names the origin, so
  that caches keep answers to different origins apart.
\<close>

theorem cors_actual_request:
  assumes "origin = header_Get (r_header r) ''Origin''" and "origin \<noteq> []" and "\<not> is_preflight r"
    and "originAllowed (apply_opts defaultOptions opts) origin"
  defines "o' \<equiv> apply_opts defaultOptions opts"
  shows "\<exists>rw. cors_New secs opts next wr r w = next wr r (w\<lparr>writers := (writers w)(wr := rw)\<rparr>) \<and>
    rw_sent rw = rw_sent (writers w wr) \<and> rw_body rw = rw_body (writers w wr) \<and>
    (header_Get (rw_header rw) ''Access-Control-Allow-Origin'' = ''*'' \<and> allowAnyOrigin o' \<and> \<not> allowCredentials o' \<or>
     header_Get (rw_header rw) ''Access-Control-Allow-Origin'' = origin \<and>
       (\<exists>vs. rw_header rw ''Vary'' = Some (vs @ [''Origin''])))"
proof -
  let ?rw = "cors_headers o' origin (writers w wr)"
  have "rw_header ?rw ''Vary'' = Some ((case rw_header (writers w wr) ''Vary'' of None \<Rightarrow> [] | Some vs \<Rightarrow> vs) @ [''Origin''])"
    if "\<not> (allowAnyOrigin o' \<and> \<not> allowCredentials o')"
    using that by (auto simp: cors_headers_def rw_set_header_def rw_add_header_def header_Set_def header_Add_def)
  then show ?thesis
    using cors_New_unfold [OF assms(1,2,4), of secs "next" wr w] assms(3)
    by (intro exI [of _ ?rw]) (auto simp: o'_def cors_headers_get)
qed

theorem cors_actual_request_witness:
  "\<exists>rw. cors_New (\<lambda>_. 600) [WithAllowedOrigins [''https://a'']] demo_next 0 (demo_req ''PUT'' demo_origin) demo_world =
      demo_next 0 (demo_req ''PUT'' demo_origin) (demo_world\<lparr>writers := (writers (demo_world :: unit world))(0 := rw)\<rparr>) \<and>
    (\<exists>vs. rw_header rw ''Vary'' = Some (vs @ [''Origin'']))"
proof -
  have "\<not> allowAnyOrigin (apply_opts defaultOptions [WithAllowedOrigins [''https://a'']])"
    by (simp add: WithAllowedOrigins_effect defaultOptions_def)
  then show ?thesis
    using cors_actual_request [OF demo_origin_get(1) [symmetric] _ demo_origin_get(3) demo_allowed,
        of "\<lambda>_. 600" demo_next 0 demo_world]
    by auto
qed

text \<open>
  A handler that does not touch the two CORS headers: if it is the one that sends the response, they
  are sent as it found them.
\<close>

definition leaves_cors_headers :: "'l http_handler \<Rightarrow> bool" where
  "leaves_cors_headers h \<longleftrightarrow> (\<forall>wr r w w' status hdr.
     h wr r w = (Ok (), w') \<and> rw_sent (writers w wr) = None \<and> rw_sent (writers w' wr) = Some (status, hdr) \<longrightarrow>
     (\<forall>k \<in> {''Access-Control-Allow-Origin'', ''Access-Control-Allow-Credentials''}.
        header_Get hdr k = header_Get (rw_header (writers w wr)) k))"

lemma demo_next_leaves: "leaves_cors_headers demo_next"
  by (auto simp: leaves_cors_headers_def demo_next_def with_writer_def io_simps rw_WriteHeader_def)

text \<open>
  C29. The wildcard with credentials reflects every origin: with \<open>WithAllowedOrigins("*")\<close> and
  \<open>WithAllowCredentials(true)\<close> a request with any origin is a preflight answered 204 by the filter, or
  reaches the next handler, and in both cases the response header names the request's own origin
  instead of the wildcard, and allows credentials. So every answer, not begun before, that is sent to a preflight or by
  a next handler that leaves these two headers alone, does both: browsers accept it, and every site
  may make credentialed requests, where the comment says that browsers will reject the response.
\<close>

theorem cors_wildcard_with_credentials:
  fixes secs :: "duration \<Rightarrow> int"
  assumes "origin = header_Get (r_header r) ''Origin''" and "origin \<noteq> []"
  defines "f \<equiv> cors_New secs [WithAllowedOrigins [''*''], WithAllowCredentials True]"
  shows "\<exists>rw. f next wr r w =
      (if is_preflight r then (Ok (), w\<lparr>writers := (writers w)(wr := rw_WriteHeader 204 rw)\<rparr>)
       else next wr r (w\<lparr>writers := (writers w)(wr := rw)\<rparr>)) \<and>
    header_Get (rw_header rw) ''Access-Control-Allow-Origin'' = origin \<and>
    header_Get (rw_header rw) ''Access-Control-Allow-Credentials'' = ''true'' \<and>
    (\<forall>w' status hdr. leaves_cors_headers next \<and> rw_sent (writers w wr) = None \<and> f next wr r w = (Ok (), w') \<and>
       rw_sent (writers w' wr) = Some (status, hdr) \<longrightarrow>
       header_Get hdr ''Access-Control-Allow-Origin'' = origin \<and>
       header_Get hdr ''Access-Control-Allow-Credentials'' = ''true'' \<and> (is_preflight r \<longrightarrow> status = 204))"
proof -
  let ?o = "apply_opts defaultOptions [WithAllowedOrigins [''*''], WithAllowCredentials True]"
  have o: "allowAnyOrigin ?o" "allowCredentials ?o"
    by (simp_all add: WithAllowCredentials_def WithAllowedOrigins_effect)
  then have "originAllowed ?o origin"
    by (simp add: originAllowed_def)
  note run = cors_New_unfold [OF assms(1,2) this, of secs "next" wr w, folded f_def]
  define rw where "rw = (if is_preflight r then preflight_headers secs ?o (cors_headers ?o origin (writers w wr))
    else cors_headers ?o origin (writers w wr))"
  have run': "f next wr r w =
      (if is_preflight r then (Ok (), w\<lparr>writers := (writers w)(wr := rw_WriteHeader 204 rw)\<rparr>)
       else next wr r (w\<lparr>writers := (writers w)(wr := rw)\<rparr>))"
    using run by (simp add: rw_def)
  have hdrs: "header_Get (rw_header rw) ''Access-Control-Allow-Origin'' = origin"
    "header_Get (rw_header rw) ''Access-Control-Allow-Credentials'' = ''true''" "rw_sent rw = rw_sent (writers w wr)"
    using o by (simp_all add: rw_def cors_headers_get preflight_headers_get)
  have sent: "header_Get hdr ''Access-Control-Allow-Origin'' = origin \<and>
       header_Get hdr ''Access-Control-Allow-Credentials'' = ''true'' \<and> (is_preflight r \<longrightarrow> status = 204)"
    if asm: "leaves_cors_headers next" "rw_sent (writers w wr) = None" "f next wr r w = (Ok (), w')"
      "rw_sent (writers w' wr) = Some (status, hdr)" for w' status hdr
  proof (cases "is_preflight r")
    case True
    with asm hdrs run' show ?thesis
      by (auto simp: rw_WriteHeader_def)
  next
    case False
    then have "next wr r (w\<lparr>writers := (writers w)(wr := rw)\<rparr>) = (Ok (), w')"
      using asm(3) run' by simp
    moreover have "rw_sent (writers (w\<lparr>writers := (writers w)(wr := rw)\<rparr>) wr) = None"
      using asm(2) hdrs by simp
    ultimately have "header_Get hdr k = header_Get (rw_header rw) k"
      if "k \<in> {''Access-Control-Allow-Origin'', ''Access-Control-Allow-Credentials''}" for k
      using asm(1,4) that unfolding leaves_cors_headers_def by fastforce
    with False hdrs show ?thesis
      by simp
  qed
  show ?thesis
    by (rule exI [of _ rw], rule conjI [OF run' conjI [OF hdrs(1) conjI [OF hdrs(2)]]]) (use sent in blast)
qed

theorem cors_wildcard_with_credentials_witness:
  "\<exists>w' hdr. cors_New (\<lambda>_. 600) [WithAllowedOrigins [''*''], WithAllowCredentials True] demo_next 0
      (demo_req ''OPTIONS'' demo_origin) (demo_world :: unit world) = (Ok (), w') \<and>
    rw_sent (writers w' 0) = Some (204, hdr) \<and>
    header_Get hdr ''Access-Control-Allow-Origin'' = ''https://a'' \<and>
    header_Get hdr ''Access-Control-Allow-Credentials'' = ''true''"
proof -
  have unsent: "rw_sent (writers (demo_world :: unit world) 0) = None"
    by (simp add: demo_world_def new_response_def)
  from cors_wildcard_with_credentials [OF demo_origin_get(1) [symmetric] list.distinct(2), of "\<lambda>_. 600" demo_next 0
      "''OPTIONS''" "demo_world :: unit world"]
  show ?thesis
  proof (elim exE conjE, goal_cases)
    case (1 rw)
    let ?w = "(demo_world :: unit world)\<lparr>writers := (writers (demo_world :: unit world))(0 := rw_WriteHeader 204 rw)\<rparr>"
    have run: "cors_New (\<lambda>_. 600) [WithAllowedOrigins [''*''], WithAllowCredentials True] demo_next 0
        (demo_req ''OPTIONS'' demo_origin) demo_world = (Ok (), ?w)"
      using 1(1) demo_origin_get(2) by simp
    obtain status hdr where sent: "rw_sent (writers ?w 0) = Some (status, hdr)"
      by (cases "rw_sent rw") (auto simp: rw_WriteHeader_def)
    have "header_Get hdr ''Access-Control-Allow-Origin'' = ''https://a'' \<and>
        header_Get hdr ''Access-Control-Allow-Credentials'' = ''true'' \<and> status = 204"
      using 1(4) [rule_format, OF conjI, OF demo_next_leaves conjI, OF unsent conjI, OF run sent] demo_origin_get(2)
      by blast
    with run sent show ?case
      by (intro exI [of _ ?w] exI [of _ hdr]) simp
  qed
qed

end
