(* ===== verification/Go_Time.thy ===== *)
theory Go_Time
  imports Go_Strings
begin

text \<open>
  \<open>time.ParseDuration\<close> of the standard library, which the configuration getters and the flags of the
  services rely on: a sign, then numbers with units, as in \<open>1h30m\<close> or \<open>250ms\<close>. Numbers are \<open>uint64\<close>,
  with the overflow checks of the library. A number may have a fraction; what it contributes is
  computed in \<open>float64\<close>, which is the parameter \<open>float_part f unit k\<close> for
  \<open>uint64(float64(f) * (float64(unit) / 10^k))\<close>.
\<close>

section \<open>Model\<close>

definition is_digit :: "char \<Rightarrow> bool" where
  "is_digit c \<longleftrightarrow> 48 \<le> (of_char c :: nat) \<and> (of_char c :: nat) \<le> 57"

definition digit_val :: "char \<Rightarrow> nat" where
  "digit_val c = of_char c - 48"

fun leadingInt :: "nat \<Rightarrow> string \<Rightarrow> (nat \<times> string) option" where
  "leadingInt x [] = Some (x, [])"
| "leadingInt x (c # s) =
     (if \<not> is_digit c then Some (x, c # s)
      else if x > 2 ^ 63 div 10 then None
      else
        (let x' = x * 10 + digit_val c in
         if x' > 2 ^ 63 then None else leadingInt x' s))"

text \<open>The digits after the point and how many of them fit; further digits are skipped.\<close>

fun leadingFraction :: "nat \<Rightarrow> nat \<Rightarrow> bool \<Rightarrow> string \<Rightarrow> nat \<times> nat \<times> string" where
  "leadingFraction x k overflow [] = (x, k, [])"
| "leadingFraction x k overflow (c # s) =
     (if \<not> is_digit c then (x, k, c # s)
      else if overflow then leadingFraction x k True s
      else if x > (2 ^ 63 - 1) div 10 then leadingFraction x k True s
      else
        (let y = x * 10 + digit_val c in
         if y > 2 ^ 63 then leadingFraction x k True s else leadingFraction y (k + 1) False s))"

definition unitMap :: "(string \<times> nat) list" where
  "unitMap =
     [(''ns'', 1), (''us'', 1000), ([CHR 0xC2, CHR 0xB5, CHR ''s''], 1000),
      ([CHR 0xCE, CHR 0xBC, CHR ''s''], 1000), (''ms'', 1000000), (''s'', 1000000000),
      (''m'', 60000000000), (''h'', 3600000000000)]"

definition unit_end :: "char \<Rightarrow> bool" where
  "unit_end c \<longleftrightarrow> c = CHR ''.'' \<or> is_digit c"

text \<open>A number: the integers before and after the point, how many digits the latter has, and what follows.\<close>

definition duration_number :: "string \<Rightarrow> (nat \<times> nat \<times> nat \<times> string) option" where
  "duration_number s =
     (if s = [] \<or> \<not> unit_end (hd s) then None
      else case leadingInt 0 s of
        None \<Rightarrow> None
      | Some (v, s1) \<Rightarrow>
          (let pre = (length s \<noteq> length s1) in
           if s1 \<noteq> [] \<and> hd s1 = CHR ''.''
           then (case leadingFraction 0 0 False (tl s1) of
                   (f, k, s2) \<Rightarrow> if \<not> pre \<and> length (tl s1) = length s2 then None else Some (v, f, k, s2))
           else if \<not> pre then None else Some (v, 0, 0, s1)))"

text \<open>One number with its unit: the nanoseconds, and what follows.\<close>

definition duration_part :: "(nat \<Rightarrow> nat \<Rightarrow> nat \<Rightarrow> nat) \<Rightarrow> string \<Rightarrow> (nat \<times> string) option" where
  "duration_part float_part s =
     (case duration_number s of
        None \<Rightarrow> None
      | Some (v, f, k, s2) \<Rightarrow>
          (let u = takeWhile (\<lambda>c. \<not> unit_end c) s2; rest = dropWhile (\<lambda>c. \<not> unit_end c) s2
           in if u = [] then None
              else case map_of unitMap u of
                None \<Rightarrow> None
              | Some unit \<Rightarrow>
                  if v > 2 ^ 63 div unit then None
                  else if f > 0 then
                    (let v' = (v * unit + float_part f unit k) mod 2 ^ 64 in
                     if v' > 2 ^ 63 then None else Some (v', rest))
                  else Some (v * unit, rest)))"

lemma leadingInt_length: "leadingInt x s = Some (v, s') \<Longrightarrow> length s' \<le> length s"
  by (induction x s rule: leadingInt.induct) (auto simp: Let_def split: if_splits)

lemma leadingFraction_length: "leadingFraction x k b s = (v, k', s') \<Longrightarrow> length s' \<le> length s"
  by (induction x k b s rule: leadingFraction.induct) (auto simp: Let_def split: if_splits)

lemma duration_number_length:
  assumes "duration_number s = Some (v, f, k, s2)"
  shows "length s2 \<le> length s"
proof -
  obtain x s1 where 1: "leadingInt 0 s = Some (x, s1)"
    using assms by (auto simp: duration_number_def split: if_splits option.splits)
  then have "s2 = s1 \<or> leadingFraction 0 0 False (tl s1) = (f, k, s2)"
    using assms by (auto simp: duration_number_def Let_def split: if_splits prod.splits)
  then show ?thesis
    using leadingInt_length [OF 1] leadingFraction_length [of 0 0 False "tl s1" f k s2] by auto
qed

lemma duration_part_length:
  assumes "duration_part fp s = Some (v, rest)"
  shows "length rest < length s"
proof -
  obtain x f k s2 where n: "duration_number s = Some (x, f, k, s2)"
    and u: "takeWhile (\<lambda>c. \<not> unit_end c) s2 \<noteq> []" "rest = dropWhile (\<lambda>c. \<not> unit_end c) s2"
    using assms by (auto simp: duration_part_def Let_def split: if_splits option.splits)
  have "length s2 = length (takeWhile (\<lambda>c. \<not> unit_end c) s2) + length rest"
    unfolding u(2) by (metis length_append takeWhile_dropWhile_id)
  moreover have "0 < length (takeWhile (\<lambda>c. \<not> unit_end c) s2)"
    using u(1) by blast
  ultimately show ?thesis
    using duration_number_length [OF n] by linarith
qed

function parse_parts :: "(nat \<Rightarrow> nat \<Rightarrow> nat \<Rightarrow> nat) \<Rightarrow> nat \<Rightarrow> string \<Rightarrow> nat option" where
  "parse_parts float_part d s =
     (if s = [] then Some d
      else case duration_part float_part s of
        None \<Rightarrow> None
      | Some (v, rest) \<Rightarrow>
          (let d' = (d + v) mod 2 ^ 64 in
           if d' > 2 ^ 63 then None else parse_parts float_part d' rest))"
  by pat_completeness auto
termination
  by (relation "measure (\<lambda>(fp, d, s). length s)") (auto dest: duration_part_length)

declare parse_parts.simps [simp del]

definition ParseDuration :: "(nat \<Rightarrow> nat \<Rightarrow> nat \<Rightarrow> nat) \<Rightarrow> string \<Rightarrow> duration option" where
  "ParseDuration float_part s =
     (let signed = (s \<noteq> [] \<and> hd s \<in> set [CHR ''-'', CHR ''+'']);
          neg = (signed \<and> hd s = CHR ''-'');
          s1 = (if signed then tl s else s)
      in if s1 = ''0'' then Some 0
         else if s1 = [] then None
         else case parse_parts float_part 0 s1 of
           None \<Rightarrow> None
         | Some d \<Rightarrow>
             if neg then Some (- word_of_int (int d))
             else if d > 2 ^ 63 - 1 then None
             else Some (word_of_int (int d)))"

section \<open>What it reads\<close>

text \<open>Numbers with units, as people write them.\<close>

definition spell :: "(nat \<times> string) list \<Rightarrow> string" where
  "spell parts = concat (map (\<lambda>(n, u). digits_of n @ u) parts)"

definition spelled :: "(nat \<times> string) list \<Rightarrow> nat" where
  "spelled parts = sum_list (map (\<lambda>(n, u). n * the (map_of unitMap u)) parts)"

definition units_ok :: "(nat \<times> string) list \<Rightarrow> bool" where
  "units_ok parts \<longleftrightarrow> (\<forall>(n, u) \<in> set parts. u \<in> fst ` set unitMap)"

lemma digit_char [simp]:
  assumes "n < 10"
  shows "is_digit (char_of (48 + n))" and "digit_val (char_of (48 + n)) = n"
  using assms by (simp_all add: is_digit_def digit_val_def)

lemma digits_of_digits: "c \<in> set (digits_of n) \<Longrightarrow> is_digit c"
proof (induction n rule: digits_of.induct)
  case (1 n)
  then show ?case
    unfolding digits_of.simps [of n] by (cases "n < 10") auto
qed

lemma digits_of_nonempty [simp]: "digits_of n \<noteq> []"
  by (subst digits_of.simps) simp

lemma leadingInt_append:
  assumes "\<And>c. c \<in> set ds \<Longrightarrow> is_digit c"
    and "leadingInt x ds = Some (y, [])"
  shows "leadingInt x (ds @ s) = leadingInt y s"
  using assms by (induction x ds rule: leadingInt.induct) (auto simp: Let_def split: if_splits)

lemma leadingInt_digits:
  assumes "n \<le> 2 ^ 63"
  shows "leadingInt 0 (digits_of n) = Some (n, [])"
  using assms
proof (induction n rule: digits_of.induct)
  case (1 n)
  show ?case
  proof (cases "n < 10")
    case True
    then show ?thesis
      by (subst digits_of.simps) (simp add: Let_def)
  next
    case False
    then have "leadingInt 0 (digits_of (n div 10)) = Some (n div 10, [])"
      using 1 by simp
    then have "leadingInt 0 (digits_of (n div 10) @ [char_of (48 + n mod 10)]) =
        leadingInt (n div 10) [char_of (48 + n mod 10)]"
      by (intro leadingInt_append) (auto dest: digits_of_digits)
    also have "\<dots> = Some (n, [])"
      using 1(2) by (auto simp: Let_def)
    finally show ?thesis
      using False by (subst digits_of.simps) simp
  qed
qed

lemma unit_chars:
  assumes "u \<in> fst ` set unitMap"
  shows "u \<noteq> []" and "c \<in> set u \<Longrightarrow> \<not> unit_end c" and "map_of unitMap u \<noteq> None"
    and "0 < the (map_of unitMap u)"
  using assms by (auto simp: unitMap_def unit_end_def is_digit_def)

lemma duration_number_digits:
  assumes "n \<le> 2 ^ 63" and "s = [] \<or> \<not> unit_end (hd s)"
  shows "duration_number (digits_of n @ s) = Some (n, 0, 0, s)"
proof -
  have "leadingInt 0 (digits_of n @ s) = leadingInt n s"
    by (rule leadingInt_append [OF digits_of_digits leadingInt_digits [OF assms(1)]])
  also have "\<dots> = Some (n, s)"
    using assms(2) by (cases s) (auto simp: unit_end_def)
  finally have "leadingInt 0 (digits_of n @ s) = Some (n, s)" .
  moreover have "unit_end (hd (digits_of n @ s))"
    using digits_of_digits [of "hd (digits_of n)" n] by (simp add: unit_end_def)
  ultimately show ?thesis
    using assms(2) by (auto simp: duration_number_def unit_end_def)
qed

lemma duration_part_spelled:
  assumes "u \<in> fst ` set unitMap" and "n * the (map_of unitMap u) \<le> 2 ^ 63" and "s = [] \<or> unit_end (hd s)"
  shows "duration_part fp (digits_of n @ u @ s) = Some (n * the (map_of unitMap u), s)"
proof -
  obtain k where k: "map_of unitMap u = Some k" "0 < k"
    using unit_chars [OF assms(1)] by auto
  have le: "n \<le> 2 ^ 63 div k"
    using assms(2) k by (simp add: less_eq_div_iff_mult_less_eq)
  then have "n \<le> 2 ^ 63"
    using div_le_dividend le_trans by blast
  moreover have "u @ s = [] \<or> \<not> unit_end (hd (u @ s))"
    using unit_chars(1,2) [OF assms(1)] by simp
  ultimately have "duration_number (digits_of n @ u @ s) = Some (n, 0, 0, u @ s)"
    by (rule duration_number_digits)
  moreover have "takeWhile (\<lambda>c. \<not> unit_end c) (u @ s) = u" "dropWhile (\<lambda>c. \<not> unit_end c) (u @ s) = s"
    using unit_chars(2) [OF assms(1)] assms(3) by (cases s; simp add: takeWhile_append dropWhile_append)+
  ultimately show ?thesis
    using k le unit_chars(1) [OF assms(1)] by (simp add: duration_part_def Let_def)
qed

lemma spell_Cons: "spell ((n, u) # parts) = digits_of n @ u @ spell parts"
  by (simp add: spell_def)

lemma spell_hd: "spell parts = [] \<or> unit_end (hd (spell parts))"
proof (cases parts)
  case (Cons p ps)
  obtain n u where "p = (n, u)"
    by (cases p)
  then show ?thesis
    using Cons digits_of_digits [of "hd (digits_of n)" n] by (simp add: spell_Cons unit_end_def)
qed (simp add: spell_def)

lemma parse_parts_spelled:
  assumes "units_ok parts" and "d + spelled parts \<le> 2 ^ 63"
  shows "parse_parts fp d (spell parts) = Some (d + spelled parts)"
  using assms
proof (induction parts arbitrary: d)
  case Nil
  then show ?case
    by (simp add: spell_def spelled_def parse_parts.simps)
next
  case (Cons p parts)
  obtain n u where p: "p = (n, u)"
    by (cases p)
  let ?v = "n * the (map_of unitMap u)"
  have u: "u \<in> fst ` set unitMap" and ok: "units_ok parts"
    using Cons.prems(1) p by (auto simp: units_ok_def)
  have sum: "d + ?v + spelled parts \<le> 2 ^ 63"
    using Cons.prems(2) p by (simp add: spelled_def)
  then have "?v \<le> 2 ^ 63"
    by linarith
  then have "duration_part fp (digits_of n @ u @ spell parts) = Some (?v, spell parts)"
    by (rule duration_part_spelled [OF u _ spell_hd])
  moreover have "(d + ?v) mod 2 ^ 64 = d + ?v" "\<not> d + ?v > 2 ^ 63"
    using sum by simp_all
  ultimately have "parse_parts fp d (spell (p # parts)) = parse_parts fp (d + ?v) (spell parts)"
    by (subst parse_parts.simps) (simp add: p spell_Cons Let_def)
  then show ?case
    using Cons.IH [OF ok sum] p by (simp add: spelled_def)
qed

lemma ParseDuration_spelled:
  assumes "units_ok parts" and "parts \<noteq> []" and "spelled parts < 2 ^ 63"
  shows "ParseDuration fp (spell parts) = Some (word_of_int (int (spelled parts)))"
    and "ParseDuration fp (CHR ''-'' # spell parts) = Some (- word_of_int (int (spelled parts)))"
proof -
  obtain n u ps where parts: "parts = (n, u) # ps"
    using assms(2) by (metis list.exhaust surj_pair)
  have "u \<noteq> []"
    using assms(1) unit_chars(1) [of u] by (auto simp: parts units_ok_def)
  then have "length (spell parts) \<noteq> 1"
    by (cases "digits_of n"; cases u) (auto simp: parts spell_Cons)
  then have long: "spell parts \<noteq> ''0''"
    by auto
  have "unit_end (hd (spell parts))" "spell parts \<noteq> []"
    using spell_hd [of parts] by (auto simp: parts spell_Cons)
  then have sign: "hd (spell parts) \<notin> {CHR ''-'', CHR ''+''}" "spell parts \<noteq> []"
    by (auto simp: unit_end_def is_digit_def)
  have "parse_parts fp 0 (spell parts) = Some (spelled parts)"
    using parse_parts_spelled [OF assms(1), of 0] assms(3) by simp
  with long sign assms(3) show "ParseDuration fp (spell parts) = Some (word_of_int (int (spelled parts)))"
    and "ParseDuration fp (CHR ''-'' # spell parts) = Some (- word_of_int (int (spelled parts)))"
    by (simp_all add: ParseDuration_def Let_def)
qed

text \<open>A number without a unit is refused, except zero.\<close>

lemma leadingInt_all_digits:
  assumes "\<And>c. c \<in> set ds \<Longrightarrow> is_digit c" and "leadingInt x ds = Some (y, s)"
  shows "s = []"
  using assms by (induction x ds rule: leadingInt.induct) (auto simp: Let_def split: if_splits)

lemma ParseDuration_bare:
  assumes "0 < n"
  shows "ParseDuration fp (digits_of n) = None"
proof -
  have "duration_part fp (digits_of n) = None"
  proof (cases "duration_number (digits_of n)")
    case (Some a)
    obtain v f k s where a: "a = (v, f, k, s)"
      by (cases a)
    obtain y s1 where "leadingInt 0 (digits_of n) = Some (y, s1)"
      using Some by (auto simp: duration_number_def split: if_splits option.splits)
    moreover from this have "s1 = []"
      using leadingInt_all_digits digits_of_digits by blast
    ultimately have "s = []"
      using Some a by (auto simp: duration_number_def Let_def split: if_splits)
    then show ?thesis
      using Some a by (simp add: duration_part_def Let_def)
  qed (simp add: duration_part_def)
  moreover have "hd (digits_of n) \<notin> {CHR ''-'', CHR ''+''}"
    using digits_of_digits [of "hd (digits_of n)" n] by (auto simp: is_digit_def)
  moreover have "digits_of n \<noteq> ''0''"
  proof
    assume zero: "digits_of n = ''0''"
    show False
    proof (cases "n < 10")
      case True
      then have "char_of (48 + n) = CHR ''0''"
        using zero by (subst (asm) digits_of.simps) simp
      then have "digit_val (char_of (48 + n)) = digit_val CHR ''0''"
        by simp
      with True assms show False
        by (simp add: digit_val_def)
    next
      case False
      then show False
        using zero by (subst (asm) digits_of.simps) simp
    qed
  qed
  ultimately show ?thesis
    by (simp add: ParseDuration_def Let_def parse_parts.simps)
qed

end
