(* ===== verification/Config.thy ===== *)
theory Config
  imports Go_Time Go_Errors "HOL-Library.AList"
begin

text \<open>
  Package \<open>config\<close> (pkg/config/loader.go and secret.go): discovery of .env files and typed access to
  the environment. The environment is a map; the file system is a record of what \<open>os.Getwd\<close>,
  \<open>os.Stat\<close> and \<open>os.ReadFile\<close> answer. Paths are kept as the elements \<open>filepath.Join\<close> and
  \<open>filepath.Dir\<close> work on: a path is absolute or relative, with clean elements, and \<open>Rel []\<close> is ".".
  Parameters: \<open>float_part\<close> (see \<open>Go_Time\<close>), \<open>quoted\<close> (the verb \<open>%q\<close>).
\<close>

section \<open>Paths, files, environment\<close>

datatype path = Abs "string list" | Rel "string list"

text \<open>One more element of a clean path: empty and \<open>.\<close> elements vanish, \<open>..\<close> goes up where it can.\<close>

definition path_push :: "bool \<Rightarrow> string \<Rightarrow> string list \<Rightarrow> string list" where
  "path_push rooted e ds =
     (if e = [] \<or> e = ''.'' then ds
      else if e = ''..'' then
        (if ds = [] then (if rooted then [] else [e])
         else if last ds = ''..'' then ds @ [e] else butlast ds)
      else ds @ [e])"

lemma path_push_plain [simp]: "e \<noteq> [] \<Longrightarrow> e \<noteq> ''.'' \<Longrightarrow> e \<noteq> ''..'' \<Longrightarrow> path_push rooted e ds = ds @ [e]"
  by (simp add: path_push_def)

fun filepath_Join :: "path \<Rightarrow> string \<Rightarrow> path" where
  "filepath_Join (Abs ds) name = Abs (fold (path_push True) (strings_Split name (CHR ''/'')) ds)"
| "filepath_Join (Rel ds) name = Rel (fold (path_push False) (strings_Split name (CHR ''/'')) ds)"

fun filepath_Dir :: "path \<Rightarrow> path" where
  "filepath_Dir (Abs ds) = Abs (butlast ds)"
| "filepath_Dir (Rel ds) = Rel (butlast ds)"

record file_system =
  fs_Getwd :: "error + string list"
  fs_Stat :: "path \<Rightarrow> bool"
  fs_ReadFile :: "path \<Rightarrow> error + string"

type_synonym env = "string \<Rightarrow> string option"

text \<open>\<open>os.Setenv\<close> refuses an empty key, a key with \<open>=\<close> or NUL, and a value with NUL.\<close>

definition setenv_ok :: "string \<Rightarrow> string \<Rightarrow> bool" where
  "setenv_ok k v \<longleftrightarrow> k \<noteq> [] \<and> CHR ''='' \<notin> set k \<and> CHR 0x00 \<notin> set k \<and> CHR 0x00 \<notin> set v"

definition os_Setenv :: "string \<Rightarrow> string \<Rightarrow> env \<Rightarrow> env" where
  "os_Setenv k v env = (if setenv_ok k v then env(k \<mapsto> v) else env)"

definition os_Getenv :: "env \<Rightarrow> string \<Rightarrow> string" where
  "os_Getenv env k = (case env k of Some v \<Rightarrow> v | None \<Rightarrow> [])"

section \<open>Model\<close>

record Loader =
  serviceName :: string
  searchPaths :: "path list"

definition has_marker :: "file_system \<Rightarrow> path \<Rightarrow> bool" where
  "has_marker fs dir \<longleftrightarrow> (\<exists>marker \<in> set [''.git'', ''go.work'']. fs_Stat fs (filepath_Join dir marker))"

function walk_up :: "file_system \<Rightarrow> path \<Rightarrow> path" where
  "walk_up fs dir =
     (if has_marker fs dir then dir
      else
        (let parent = filepath_Dir dir in
         if parent = dir then Rel [] else walk_up fs parent))"
  by pat_completeness auto
termination
proof (relation "measure (\<lambda>(fs, p). case p of Abs ds \<Rightarrow> length ds | Rel ds \<Rightarrow> length ds)", goal_cases)
  case (2 fs dir x)
  have "length (butlast ds) < length ds" if "butlast ds \<noteq> ds" for ds :: "string list"
    using that by (cases ds) auto
  with 2 show ?case by (cases dir) auto
qed simp

declare walk_up.simps [simp del]

definition findProjectRoot :: "file_system \<Rightarrow> path" where
  "findProjectRoot fs = (case fs_Getwd fs of Inl e \<Rightarrow> Rel [] | Inr ds \<Rightarrow> walk_up fs (Abs ds))"

definition NewLoader :: "file_system \<Rightarrow> string \<Rightarrow> Loader" where
  "NewLoader fs name =
     (let projectRoot = findProjectRoot fs; serviceDir = filepath_Join projectRoot name
      in \<lparr>serviceName = name, searchPaths = [serviceDir, projectRoot, filepath_Dir serviceDir]\<rparr>)"

fun findFile_in :: "file_system \<Rightarrow> path list \<Rightarrow> string \<Rightarrow> path option" where
  "findFile_in fs [] filename = None"
| "findFile_in fs (dir # dirs) filename =
     (let path = filepath_Join dir filename in
      if fs_Stat fs path then Some path else findFile_in fs dirs filename)"

definition findFile :: "file_system \<Rightarrow> Loader \<Rightarrow> string \<Rightarrow> path option" where
  "findFile fs l filename = findFile_in fs (searchPaths l) filename"

text \<open>One line of a .env file: \<open>None\<close> when it is skipped.\<close>

definition parse_line :: "string \<Rightarrow> (string \<times> string) option" where
  "parse_line raw =
     (let line = TrimSpace raw in
      if line = [] \<or> HasPrefix line ''#'' then None
      else case IndexByte line (CHR ''='') of
             None \<Rightarrow> None
           | Some eq \<Rightarrow>
               if eq = 0 then None
               else
                 (let key = TrimSpace (take eq line);
                      val = TrimSpace (drop (eq + 1) line)
                  in Some (key, strings_Trim val [CHR 0x22, CHR 0x27])))"

definition load_line :: "string \<Rightarrow> env \<Rightarrow> env" where
  "load_line raw env =
     (case parse_line raw of
        None \<Rightarrow> env
      | Some (key, val) \<Rightarrow> if env key = None then os_Setenv key val env else env)"

definition loadDotEnv :: "file_system \<Rightarrow> path \<Rightarrow> env \<Rightarrow> error option \<times> env" where
  "loadDotEnv fs path env =
     (case fs_ReadFile fs path of
        Inl e \<Rightarrow> (Some e, env)
      | Inr data \<Rightarrow> (None, fold load_line (strings_Split data (CHR 0x0A)) env))"

text \<open>One stanza of \<open>Load\<close>: find a file, load it, wrap its error.\<close>

definition load_found ::
  "file_system \<Rightarrow> Loader \<Rightarrow> string \<Rightarrow> string \<Rightarrow> env \<Rightarrow> error option \<times> env" where
  "load_found fs l filename what env =
     (case findFile fs l filename of
        None \<Rightarrow> (None, env)
      | Some path \<Rightarrow>
          (case loadDotEnv fs path env of
             (Some e, env') \<Rightarrow> (Some (WrapError what e), env')
           | (None, env') \<Rightarrow> (None, env')))"

definition Loader_Load :: "file_system \<Rightarrow> Loader \<Rightarrow> env \<Rightarrow> error option \<times> env" where
  "Loader_Load fs l env =
     (case load_found fs l ''.env.global'' ''load global config'' env of
        (Some e, env1) \<Rightarrow> (Some e, env1)
      | (None, env1) \<Rightarrow>
          (case load_found fs l ''.env.example'' ''load service example'' env1 of
             (Some e, env2) \<Rightarrow> (Some e, env2)
           | (None, env2) \<Rightarrow> load_found fs l ''.env'' ''load service config'' env2))"

definition GetEnv :: "env \<Rightarrow> string \<Rightarrow> string \<Rightarrow> string" where
  "GetEnv env key defaultValue = (let v = os_Getenv env key in if v \<noteq> [] then v else defaultValue)"

text \<open>\<open>strconv.ParseBool\<close>.\<close>

definition ParseBool :: "string \<Rightarrow> bool option" where
  "ParseBool s =
     (if s \<in> set [''1'', ''t'', ''T'', ''true'', ''TRUE'', ''True''] then Some True
      else if s \<in> set [''0'', ''f'', ''F'', ''false'', ''FALSE'', ''False''] then Some False
      else None)"

definition GetEnvBool :: "env \<Rightarrow> string \<Rightarrow> bool \<Rightarrow> bool" where
  "GetEnvBool env key defaultValue =
     (let v = os_Getenv env key in
      if v = [] then defaultValue
      else case ParseBool v of None \<Rightarrow> defaultValue | Some b \<Rightarrow> b)"

definition GetEnvDuration ::
  "(nat \<Rightarrow> nat \<Rightarrow> nat \<Rightarrow> nat) \<Rightarrow> env \<Rightarrow> string \<Rightarrow> duration \<Rightarrow> duration" where
  "GetEnvDuration float_part env key defaultValue =
     (let v = os_Getenv env key in
      if v = [] then defaultValue
      else case ParseDuration float_part v of None \<Rightarrow> defaultValue | Some d \<Rightarrow> d)"

text \<open>The bytes of the dash in the panic message.\<close>

definition em_dash :: string where
  "em_dash = map char_of [0xE2, 0x80, 0x94 :: nat]"

definition MustGetSecret :: "(string \<Rightarrow> string) \<Rightarrow> env \<Rightarrow> string \<Rightarrow> string res" where
  "MustGetSecret quoted env key =
     (let v = os_Getenv env key in
      if v = []
      then Panic (''config: required secret '' @ quoted key @ '' is unset '' @ em_dash @ '' refusing to start'')
      else Ok v)"

definition GetSecret :: "env \<Rightarrow> string \<Rightarrow> string" where
  "GetSecret env key = os_Getenv env key"

section \<open>Files as bindings\<close>

text \<open>The bindings a file text makes, in order.\<close>

definition bindings :: "string \<Rightarrow> (string \<times> string) list" where
  "bindings data =
     filter (\<lambda>(k, v). setenv_ok k v) (List.map_filter parse_line (strings_Split data (CHR 0x0A)))"

lemma load_line_lookup:
  "load_line raw env k =
     (case env k of
        Some v \<Rightarrow> Some v
      | None \<Rightarrow> (case parse_line raw of
            Some (k', v) \<Rightarrow> if k' = k \<and> setenv_ok k' v then Some v else None
          | None \<Rightarrow> None))"
  by (auto simp: load_line_def os_Setenv_def split: option.splits)

lemma load_lines_lookup:
  "fold load_line ls env k =
     (case env k of
        Some v \<Rightarrow> Some v
      | None \<Rightarrow> map_of (filter (\<lambda>(k, v). setenv_ok k v) (List.map_filter parse_line ls)) k)"
proof (induction ls arbitrary: env)
  case Nil
  then show ?case by (simp add: List.map_filter_def split: option.splits)
next
  case (Cons l ls)
  then show ?case
    by (auto simp: load_line_lookup map_filter_simps split: option.splits)
qed

lemma loadDotEnv_lookup:
  assumes "fs_ReadFile fs path = Inr data"
  shows "snd (loadDotEnv fs path env) k =
    (case env k of Some v \<Rightarrow> Some v | None \<Rightarrow> map_of (bindings data) k)"
  using assms unfolding bindings_def by (simp add: loadDotEnv_def load_lines_lookup)

text \<open>What a file of a given name contributes: nothing when it is not found.\<close>

definition file_bindings :: "file_system \<Rightarrow> Loader \<Rightarrow> string \<Rightarrow> env" where
  "file_bindings fs l filename =
     (case findFile fs l filename of
        None \<Rightarrow> Map.empty
      | Some path \<Rightarrow> (case fs_ReadFile fs path of Inl e \<Rightarrow> Map.empty | Inr data \<Rightarrow> map_of (bindings data)))"

lemma load_found_lookup:
  assumes "load_found fs l filename what env = (err, env')"
  shows "env' k = (case env k of Some v \<Rightarrow> Some v | None \<Rightarrow> file_bindings fs l filename k)"
  using assms loadDotEnv_lookup [of fs _ _ env k]
  by (auto simp: load_found_def file_bindings_def loadDotEnv_def split: option.splits sum.splits prod.splits)

text \<open>The first of several sources that binds a key.\<close>

fun first_of :: "env list \<Rightarrow> env" where
  "first_of [] k = None"
| "first_of (m # ms) k = (case m k of Some v \<Rightarrow> Some v | None \<Rightarrow> first_of ms k)"

section \<open>Lines\<close>

definition quotes :: string where
  "quotes = [CHR 0x22, CHR 0x27]"

lemma plain_not_in_space:
  "not_in_space CHR ''=''" "not_in_space CHR 0x22" "not_in_space CHR 0x27"
  "not_in_space CHR ''P''" "not_in_space CHR ''O''" "not_in_space CHR ''R''" "not_in_space CHR ''T''"
  "not_in_space CHR ''1''" "not_in_space CHR ''2''" "not_in_space CHR ''3''"
  by (simp_all add: not_in_space_def space_encodings_def char_of_def)

lemma Trim_quoted:
  assumes "val \<noteq> []" and "hd val \<notin> set quotes" and "last val \<notin> set quotes"
    and "set qt \<subseteq> set quotes"
  shows "strings_Trim (qt @ val @ qt) quotes = val"
proof -
  have pre: "dropWhile (\<lambda>c. c \<in> set quotes) (qt @ xs) = dropWhile (\<lambda>c. c \<in> set quotes) xs" for xs
    using assms(4) by (simp add: dropWhile_append subset_iff)
  have pre': "dropWhile (\<lambda>c. c \<in> set quotes) (rev qt @ xs) = dropWhile (\<lambda>c. c \<in> set quotes) xs" for xs
    using assms(4) by (simp add: dropWhile_append subset_iff)
  have "dropWhile (\<lambda>c. c \<in> set quotes) (val @ qt) = val @ qt"
    using assms(1,2) by (cases val) auto
  moreover have "dropWhile (\<lambda>c. c \<in> set quotes) (rev val) = rev val"
    using assms(1,3) by (cases val rule: rev_cases) auto
  ultimately show ?thesis
    by (simp add: strings_Trim_def pre pre')
qed

lemma parse_line_plain:
  assumes "no_space_edges key" and "key \<noteq> []" and "CHR ''='' \<notin> set key" and "hd key \<noteq> CHR ''#''"
    and "no_space_edges val" and "val \<noteq> []" and "hd val \<notin> set quotes" and "last val \<notin> set quotes"
    and "qt \<in> {[], [CHR 0x22], [CHR 0x27]}"
  shows "parse_line (key @ ''='' @ qt @ val @ qt) = Some (key, val)"
proof -
  let ?v = "qt @ val @ qt"
  have v: "no_space_edges ?v"
    using assms(5,9) no_space_edges_snoc plain_not_in_space by auto
  have "no_space_edges (key @ CHR ''='' # ?v)"
    using no_space_edges_append [OF plain_not_in_space(1)] no_space_edges_snoc [OF plain_not_in_space(1)]
      assms(1) v by blast
  then have line: "TrimSpace (key @ ''='' @ ?v) = key @ CHR ''='' # ?v"
    by (simp add: TrimSpace_id)
  have "\<not> HasPrefix (key @ CHR ''='' # ?v) ''#''"
    using assms(2,4) by (cases key) (auto simp: HasPrefix_iff)
  moreover have "strings_Trim ?v [CHR 0x22, CHR 0x27] = val"
    using Trim_quoted [of val qt] assms(6-9) by (auto simp: quotes_def)
  ultimately show ?thesis
    using assms(2,3) v TrimSpace_id [OF assms(1)] TrimSpace_id [OF v]
    unfolding parse_line_def line Let_def by simp
qed

section \<open>Properties\<close>

text \<open>
  C20. The order in which \<open>Load\<close> resolves a key, when it succeeds: the environment, then .env.global,
  then .env.example, then .env. (The package documents .env before .env.global before
  .env.example.)
\<close>

theorem Load_resolution_order:
  assumes "Loader_Load fs l env = (None, env')"
  shows "env' k = first_of [env, file_bindings fs l ''.env.global'', file_bindings fs l ''.env.example'',
    file_bindings fs l ''.env''] k"
proof -
  obtain env1 where 1: "load_found fs l ''.env.global'' ''load global config'' env = (None, env1)"
    using assms by (auto simp: Loader_Load_def split: prod.splits option.splits)
  moreover obtain env2 where 2: "load_found fs l ''.env.example'' ''load service example'' env1 = (None, env2)"
    using assms 1 by (auto simp: Loader_Load_def split: prod.splits option.splits)
  moreover have "load_found fs l ''.env'' ''load service config'' env2 = (None, env')"
    using assms 1 2 by (simp add: Loader_Load_def)
  ultimately show ?thesis
    by (auto simp: load_found_lookup [of fs l _ _ _ _ _ k] split: option.splits)
qed

text \<open>A service directory with all three files, each binding PORT differently.\<close>

definition demo_fs :: file_system where
  "demo_fs = \<lparr>fs_Getwd = Inr [''repo'', ''svc''],
     fs_Stat = (\<lambda>p. p \<in> set [Abs [''repo'', ''.git''], Abs [''repo'', ''.env.global''],
       Abs [''repo'', ''svc'', ''.env.example''], Abs [''repo'', ''svc'', ''.env'']]),
     fs_ReadFile = (\<lambda>p. if p = Abs [''repo'', ''.env.global''] then Inr ''PORT=1''
       else if p = Abs [''repo'', ''svc'', ''.env.example''] then Inr ''PORT=2''
       else if p = Abs [''repo'', ''svc'', ''.env''] then Inr ''PORT=3'' else Inl Canceled)\<rparr>"

lemma demo_loader:
  "NewLoader demo_fs ''svc'' = \<lparr>serviceName = ''svc'',
     searchPaths = [Abs [''repo'', ''svc''], Abs [''repo''], Abs [''repo'']]\<rparr>"
proof -
  have "findProjectRoot demo_fs = Abs [''repo'']"
    by (simp add: findProjectRoot_def demo_fs_def walk_up.simps has_marker_def)
  then show ?thesis
    by (simp add: NewLoader_def Let_def)
qed

lemma demo_bindings: "bindings (''PORT='' @ [d]) = [(''PORT'', [d])]" if "d \<in> {CHR ''1'', CHR ''2'', CHR ''3''}"
proof -
  have "no_space_edges ''PORT''"
    using no_space_edges_snoc(2) no_space_edges_single plain_not_in_space
    by simp
  moreover have "no_space_edges [d]"
    using that no_space_edges_single plain_not_in_space by auto
  ultimately have "parse_line (''PORT'' @ ''='' @ [] @ [d] @ []) = Some (''PORT'', [d])"
    using that by (intro parse_line_plain) (auto simp: quotes_def)
  then have "parse_line (''PORT='' @ [d]) = Some (''PORT'', [d])"
    by simp
  moreover have "strings_Split (''PORT='' @ [d]) (CHR 0x0A) = [''PORT='' @ [d]]"
    using that by (intro strings_Split_atom) auto
  moreover have "setenv_ok ''PORT'' [d]"
    using that by (auto simp: setenv_ok_def)
  ultimately show ?thesis
    unfolding bindings_def by (simp only: map_filter_simps) simp
qed

lemma demo_files:
  "file_bindings demo_fs (NewLoader demo_fs ''svc'') ''.env.global'' ''PORT'' = Some ''1''"
  "file_bindings demo_fs (NewLoader demo_fs ''svc'') ''.env.example'' ''PORT'' = Some ''2''"
  "file_bindings demo_fs (NewLoader demo_fs ''svc'') ''.env'' ''PORT'' = Some ''3''"
  unfolding demo_loader
  using demo_bindings [of "CHR ''1''"] demo_bindings [of "CHR ''2''"] demo_bindings [of "CHR ''3''"]
  by (simp_all add: file_bindings_def findFile_def demo_fs_def)

lemma demo_load: "fst (Loader_Load demo_fs (NewLoader demo_fs ''svc'') Map.empty) = None"
  unfolding demo_loader
  by (simp add: Loader_Load_def load_found_def findFile_def loadDotEnv_def demo_fs_def)

theorem Load_resolution_order_witness:
  "snd (Loader_Load demo_fs (NewLoader demo_fs ''svc'') Map.empty) ''PORT'' = Some ''1''"
proof -
  have "Loader_Load demo_fs (NewLoader demo_fs ''svc'') Map.empty =
      (None, snd (Loader_Load demo_fs (NewLoader demo_fs ''svc'') Map.empty))"
    using demo_load by (metis prod.collapse)
  from Load_resolution_order [OF this, of "''PORT''"] show ?thesis
    by (simp add: demo_files)
qed

text \<open>
  Loading one file: variables that exist, also empty ones, are kept; a new variable gets the
  value of the first line that binds it; nothing is ever unset. When the file cannot be read the
  error is returned and the environment is untouched.
\<close>

theorem loadDotEnv_spec:
  "(case fs_ReadFile fs path of
      Inl e \<Rightarrow> loadDotEnv fs path env = (Some e, env)
    | Inr data \<Rightarrow> fst (loadDotEnv fs path env) = None \<and>
        snd (loadDotEnv fs path env) = map_of (bindings data) ++ env)"
proof (cases "fs_ReadFile fs path")
  case (Inr data)
  then have "snd (loadDotEnv fs path env) k = (map_of (bindings data) ++ env) k" for k
    by (simp add: loadDotEnv_lookup map_add_def)
  with Inr show ?thesis
    by (auto simp: loadDotEnv_def)
qed (simp add: loadDotEnv_def)

text \<open>
  C35. What a line means: \<open>KEY=VALUE\<close>, bare or with the value in single or double quotes, is read back
  exactly for every key that is not empty, contains no \<open>=\<close>, does not start with \<open>#\<close> and has no white
  space at its ends, and every value that is not empty and has neither white space nor a quote at its
  ends; what else the value contains is kept (further \<open>=\<close> signs, inner quotes, a \<open>#\<close>).
\<close>

theorem parse_line_roundtrip:
  assumes "no_space_edges key" and "key \<noteq> []" and "CHR ''='' \<notin> set key" and "hd key \<noteq> CHR ''#''"
    and "no_space_edges val" and "val \<noteq> []" and "hd val \<notin> set quotes" and "last val \<notin> set quotes"
    and "qt \<in> {[], [CHR 0x22], [CHR 0x27]}"
  shows "parse_line (key @ ''='' @ qt @ val @ qt) = Some (key, val)"
  using assms by (rule parse_line_plain)

theorem parse_line_roundtrip_witness:
  "parse_line (''PORT'' @ ''='' @ [CHR 0x22] @ ''1=2'' @ [CHR 0x22]) = Some (''PORT'', ''1=2'')"
proof (rule parse_line_roundtrip)
  show "no_space_edges ''PORT''"
    using no_space_edges_snoc(2) no_space_edges_single plain_not_in_space by simp
  show "no_space_edges ''1=2''"
    using no_space_edges_snoc(2) no_space_edges_single plain_not_in_space by simp
qed (simp_all add: quotes_def)

text \<open>
  C36. The project root: the walk ends for every starting directory, at the nearest enclosing directory
  that contains a marker, or at "." when there is none up to the root of the file system.
\<close>

theorem findProjectRoot_spec:
  assumes "fs_Getwd fs = Inr ds"
  shows "(findProjectRoot fs = Rel [] \<and> (\<forall>n \<le> length ds. \<not> has_marker fs (Abs (take n ds)))) \<or>
    (\<exists>n \<le> length ds. findProjectRoot fs = Abs (take n ds) \<and> has_marker fs (Abs (take n ds)) \<and>
      (\<forall>m. n < m \<and> m \<le> length ds \<longrightarrow> \<not> has_marker fs (Abs (take m ds))))"
proof -
  have "(walk_up fs (Abs ds) = Rel [] \<and> (\<forall>n \<le> length ds. \<not> has_marker fs (Abs (take n ds)))) \<or>
    (\<exists>n \<le> length ds. walk_up fs (Abs ds) = Abs (take n ds) \<and> has_marker fs (Abs (take n ds)) \<and>
      (\<forall>m. n < m \<and> m \<le> length ds \<longrightarrow> \<not> has_marker fs (Abs (take m ds))))"
  proof (induction ds rule: rev_induct)
    case Nil
    then show ?case by (simp add: walk_up.simps [of fs "Abs []"])
  next
    case (snoc d ds)
    show ?case
    proof (cases "has_marker fs (Abs (ds @ [d]))")
      case True
      then show ?thesis
        by (intro disjI2 exI [of _ "length (ds @ [d])"]) (auto simp: walk_up.simps [of fs "Abs (ds @ [d])"])
    next
      case False
      then have step: "walk_up fs (Abs (ds @ [d])) = walk_up fs (Abs ds)"
        by (simp add: walk_up.simps [of fs "Abs (ds @ [d])"])
      have take_snoc: "take n (ds @ [d]) = (if n \<le> length ds then take n ds else ds @ [d])" for n
        by simp
      from snoc False show ?thesis
        unfolding step take_snoc by (auto simp: le_Suc_eq)
    qed
  qed
  then show ?thesis
    using assms by (simp add: findProjectRoot_def)
qed

theorem findProjectRoot_spec_witness:
  "\<exists>n \<le> length [''repo'', ''svc'']. findProjectRoot demo_fs = Abs (take n [''repo'', ''svc'']) \<and>
     has_marker demo_fs (Abs (take n [''repo'', ''svc'']))"
proof -
  have wd: "fs_Getwd demo_fs = Inr [''repo'', ''svc'']" and mark: "has_marker demo_fs (Abs (take 1 [''repo'', ''svc'']))"
    by (simp_all add: demo_fs_def has_marker_def)
  have one: "1 \<le> length [''repo'', ''svc'']"
    by simp
  from findProjectRoot_spec [OF wd] show ?thesis
  proof
    assume "findProjectRoot demo_fs = Rel [] \<and>
      (\<forall>n \<le> length [''repo'', ''svc'']. \<not> has_marker demo_fs (Abs (take n [''repo'', ''svc''])))"
    then have "\<not> has_marker demo_fs (Abs (take 1 [''repo'', ''svc'']))"
      using one by (elim conjE allE [of _ 1] impE)
    then show ?thesis
      using mark by (rule notE)
  qed (elim exE conjE, intro exI conjI)
qed

text \<open>
  Required secrets: \<open>MustGetSecret\<close> panics, naming the key, exactly when the variable is unset or
  empty, and otherwise returns its value, which is never empty; \<open>GetSecret\<close> never panics and agrees
  with it on every secret that is set.
\<close>

theorem secrets_spec:
  "(os_Getenv env key = [] \<longrightarrow> (\<exists>msg. MustGetSecret quoted env key = Panic msg)) \<and>
   (os_Getenv env key \<noteq> [] \<longrightarrow> MustGetSecret quoted env key = Ok (GetSecret env key)) \<and>
   (MustGetSecret quoted env key = Ok v \<longrightarrow> v \<noteq> [] \<and> env key = Some v)"
  by (auto simp: MustGetSecret_def GetSecret_def os_Getenv_def Let_def split: option.splits if_splits)

theorem secrets_spec_witness:
  "MustGetSecret (\<lambda>s. s) [''DSN'' \<mapsto> ''x''] ''DSN'' = Ok (GetSecret [''DSN'' \<mapsto> ''x''] ''DSN'')"
  using secrets_spec [of "[''DSN'' \<mapsto> ''x'']" "''DSN''" "\<lambda>s. s" "''x''"] by (simp add: os_Getenv_def)

text \<open>
  Typed access with a default: the default is returned when the variable is unset, empty or
  malformed, and the parsed value otherwise.
\<close>

theorem typed_getters_spec:
  "GetEnv env key d = (case env key of Some v \<Rightarrow> if v = [] then d else v | None \<Rightarrow> d) \<and>
   GetEnvBool env key b = (case Option.bind (env key) ParseBool of Some x \<Rightarrow> x | None \<Rightarrow> b) \<and>
   GetEnvDuration fp env key t = (case Option.bind (env key) (ParseDuration fp) of Some x \<Rightarrow> x | None \<Rightarrow> t)"
proof -
  have "ParseBool [] = None" "ParseDuration fp [] = None"
    by (simp_all add: ParseBool_def ParseDuration_def)
  then show ?thesis
    by (cases "env key") (simp_all add: GetEnv_def GetEnvBool_def GetEnvDuration_def os_Getenv_def Let_def)
qed

text \<open>
  C38. Durations are read as written: a value made of whole numbers with units, such as \<open>1h30m\<close> or
  \<open>-250ms\<close>, is the sum of its parts in nanoseconds, whatever the number of parts, as long as the sum
  fits. A positive number without a unit is silently replaced by the default; the number \<open>0\<close>, which
  needs no unit, is read as zero.
\<close>

theorem GetEnvDuration_reads:
  assumes "units_ok parts" and "parts \<noteq> []" and "spelled parts < 2 ^ 63"
  shows "sint (GetEnvDuration fp [key \<mapsto> spell parts] key d) = int (spelled parts) \<and>
    sint (GetEnvDuration fp [key \<mapsto> CHR ''-'' # spell parts] key d) = - int (spelled parts) \<and>
    (\<forall>n > 0. GetEnvDuration fp [key \<mapsto> digits_of n] key d = d) \<and>
    GetEnvDuration fp [key \<mapsto> ''0''] key d = 0"
proof -
  have "sint (word_of_int (int (spelled parts)) :: int64) = int (spelled parts)"
    using assms(3) by (intro sint_word_of_int64) (simp add: in_int64_def)
  moreover have "sint (word_of_int (- int (spelled parts)) :: int64) = - int (spelled parts)"
    using assms(3) by (intro sint_word_of_int64) (simp add: in_int64_def)
  moreover have "spell parts \<noteq> []"
    using ParseDuration_spelled(1) [OF assms, of fp] by (auto simp: ParseDuration_def)
  moreover have "GetEnvDuration fp [key \<mapsto> ''0''] key d = 0"
    by (simp add: GetEnvDuration_def os_Getenv_def ParseDuration_def)
  ultimately show ?thesis
    by (simp add: GetEnvDuration_def os_Getenv_def Let_def ParseDuration_spelled [OF assms] ParseDuration_bare
        word_of_int_minus)
qed

theorem GetEnvDuration_reads_witness:
  "sint (GetEnvDuration (\<lambda>_ _ _. 0) [''TTL'' \<mapsto> spell [(1, ''h''), (30, ''m'')]] ''TTL'' 0) = 5400000000000"
  using GetEnvDuration_reads [of "[(1, ''h''), (30, ''m'')]" "\<lambda>_ _ _. 0" "''TTL''" 0]
  by (simp add: units_ok_def spelled_def unitMap_def)

end
