(* ===== verification/Log.thy ===== *)
theory Log
  imports Kratos Go_Json
begin

text \<open>
  Package \<open>log\<close> (pkg/log): the JSON sink, redaction of headers, and the adapter from log/slog.
  Parameters: \<open>level_String\<close>, kratos's names of its levels; \<open>marshal\<close>, the JSON encoding of values
  that are not nil, a string, an integer or a boolean (an error when the type is unsupported);
  \<open>fold_rest\<close>, Unicode folding in \<open>strings.EqualFold\<close> beyond ASCII.
\<close>

section \<open>The JSON sink\<close>

definition pad_keyvals :: "gval list \<Rightarrow> gval list" where
  "pad_keyvals kvs = (if length kvs mod 2 \<noteq> 0 then kvs @ [VStr ''MISSING_VALUE''] else kvs)"

fun put_all :: "gval list \<Rightarrow> (string \<times> gval) list \<Rightarrow> (string \<times> gval) list" where
  "put_all (k # v # rest) obj =
     put_all rest (case k of VStr s \<Rightarrow> AList.update s v obj | _ \<Rightarrow> obj)"
| "put_all _ obj = obj"

definition sink_object :: "(log_level \<Rightarrow> string) \<Rightarrow> log_level \<Rightarrow> gval list \<Rightarrow> (string \<times> gval) list" where
  "sink_object level_String level kvs =
     put_all (pad_keyvals kvs) [(''level'', VStr (level_String level))]"

definition json_value :: "(nat \<Rightarrow> error + string) \<Rightarrow> gval \<Rightarrow> error + string" where
  "json_value marshal v =
     (case v of
        VNil \<Rightarrow> Inr ''null''
      | VStr s \<Rightarrow> Inr (json_string s)
      | VInt i \<Rightarrow> Inr (Itoa i)
      | VBool b \<Rightarrow> Inr (if b then ''true'' else ''false'')
      | VOther n \<Rightarrow> marshal n)"

fun encode_members ::
  "(nat \<Rightarrow> error + string) \<Rightarrow> (string \<times> gval) list \<Rightarrow> error + (string \<times> string) list" where
  "encode_members marshal [] = Inr []"
| "encode_members marshal ((k, v) # kvs) =
     (case json_value marshal v of
        Inl e \<Rightarrow> Inl e
      | Inr t \<Rightarrow> (case encode_members marshal kvs of Inl e \<Rightarrow> Inl e | Inr ts \<Rightarrow> Inr ((k, t) # ts)))"

text \<open>
  \<open>Encode\<close> builds the whole line first and hands it to the writer in one call; on an encoding error
  nothing is written. \<open>write\<close> is the sink's \<open>io.Writer\<close>.
\<close>

definition jsonSink_Log ::
  "(string \<Rightarrow> 'w \<Rightarrow> error option \<times> 'w) \<Rightarrow> (nat \<Rightarrow> error + string) \<Rightarrow> (log_level \<Rightarrow> string) \<Rightarrow>
   log_level \<Rightarrow> gval list \<Rightarrow> 'w \<Rightarrow> error option \<times> 'w" where
  "jsonSink_Log write marshal level_String level kvs w =
     (if kvs = [] then (None, w)
      else case encode_members marshal (sort_key fst (sink_object level_String level kvs)) of
             Inl e \<Rightarrow> (Some e, w)
           | Inr ts \<Rightarrow> write (json_line ts) w)"

text \<open>
  A logger is its method \<open>Log\<close>. What is bound by kratos's \<open>log.With\<close> (the parameter \<open>log_With\<close>) is a
  value or one of kratos's valuers; \<open>NewStdLogger\<close>, on the standard output, is the parameter \<open>std\<close>.
\<close>

type_synonym 'w logger = "log_level \<Rightarrow> gval list \<Rightarrow> 'w \<Rightarrow> error option \<times> 'w"

datatype bound_value = DefaultTimestamp | DefaultCaller | Bound gval

definition service_fields :: "string \<Rightarrow> string \<Rightarrow> string \<Rightarrow> bound_value list" where
  "service_fields serviceName version instanceID =
     [Bound (VStr ''ts''), DefaultTimestamp, Bound (VStr ''caller''), DefaultCaller,
      Bound (VStr ''service.id''), Bound (VStr instanceID),
      Bound (VStr ''service.name''), Bound (VStr serviceName),
      Bound (VStr ''service.version''), Bound (VStr version)]"

definition log_New ::
  "('w logger \<Rightarrow> bound_value list \<Rightarrow> 'w logger) \<Rightarrow> 'w logger \<Rightarrow> string \<Rightarrow> string \<Rightarrow> string \<Rightarrow> 'w logger" where
  "log_New log_With std serviceName version instanceID =
     log_With std (service_fields serviceName version instanceID)"

definition NewJSONTo ::
  "('w logger \<Rightarrow> bound_value list \<Rightarrow> 'w logger) \<Rightarrow> (nat \<Rightarrow> error + string) \<Rightarrow> (log_level \<Rightarrow> string) \<Rightarrow>
   (string \<Rightarrow> 'w \<Rightarrow> error option \<times> 'w) \<Rightarrow> string \<Rightarrow> string \<Rightarrow> string \<Rightarrow> 'w logger" where
  "NewJSONTo log_With marshal level_String write serviceName version instanceID =
     log_With (jsonSink_Log write marshal level_String) (service_fields serviceName version instanceID)"

text \<open>\<open>stdout\<close> writes to the standard output.\<close>

definition NewJSON ::
  "('w logger \<Rightarrow> bound_value list \<Rightarrow> 'w logger) \<Rightarrow> (nat \<Rightarrow> error + string) \<Rightarrow> (log_level \<Rightarrow> string) \<Rightarrow>
   (string \<Rightarrow> 'w \<Rightarrow> error option \<times> 'w) \<Rightarrow> string \<Rightarrow> string \<Rightarrow> string \<Rightarrow> 'w logger" where
  "NewJSON log_With marshal level_String stdout serviceName version instanceID =
     log_With (jsonSink_Log stdout marshal level_String) (service_fields serviceName version instanceID)"

text \<open>
  What is relied on of \<open>log.With\<close>: a call of the bound logger is a call of the underlying one with the
  bound values first, each valuer evaluated.
\<close>

fun resolve :: "gval \<Rightarrow> gval \<Rightarrow> bound_value \<Rightarrow> gval" where
  "resolve ts caller DefaultTimestamp = ts"
| "resolve ts caller DefaultCaller = caller"
| "resolve ts caller (Bound v) = v"

definition binds_first :: "('w logger \<Rightarrow> bound_value list \<Rightarrow> 'w logger) \<Rightarrow> bool" where
  "binds_first log_With \<longleftrightarrow>
     (\<forall>l bvs level kvs w. \<exists>ts caller.
        log_With l bvs level kvs w = l level (map (resolve ts caller) bvs @ kvs) w)"

section \<open>Redaction\<close>

definition SensitiveHeaders :: "string list" where
  "SensitiveHeaders = [''Authorization'', ''Proxy-Authorization'', ''Cookie'', ''Set-Cookie'',
     ''X-Auth-Token'', ''X-Api-Key'', ''X-Csrf-Token'']"

definition RedactionMask :: string where
  "RedactionMask = ''***''"

text \<open>
  The input map in the order in which \<open>range\<close> visits it, which Go leaves open: \<open>entries\<close> lists
  its keys (as stored, canonical or not) and values.
\<close>

definition redact_entry :: "string set \<Rightarrow> string \<times> string list \<Rightarrow> http_header \<Rightarrow> http_header" where
  "redact_entry sensitive kv out =
     (let canon = CanonicalHeaderKey (fst kv) in
      if canon \<in> sensitive then out(canon \<mapsto> map (\<lambda>_. RedactionMask) (snd kv))
      else out(canon \<mapsto> snd kv))"

definition RedactHeaders :: "(string \<times> string list) list \<Rightarrow> string list \<Rightarrow> http_header" where
  "RedactHeaders entries extra =
     (if entries = [] then Map.empty
      else
        (let sensitive = set (map CanonicalHeaderKey SensitiveHeaders) \<union> set (map CanonicalHeaderKey extra)
         in fold (redact_entry sensitive) entries Map.empty))"

fun redact_scan :: "(string \<Rightarrow> string \<Rightarrow> bool) \<Rightarrow> string list \<Rightarrow> string \<Rightarrow> string \<Rightarrow> string" where
  "redact_scan fold_rest [] key value = value"
| "redact_scan fold_rest (s # ss) key value =
     (if EqualFold fold_rest s key then RedactionMask else redact_scan fold_rest ss key value)"

definition RedactValue :: "(string \<Rightarrow> string \<Rightarrow> bool) \<Rightarrow> string \<Rightarrow> string \<Rightarrow> string" where
  "RedactValue fold_rest key value = redact_scan fold_rest SensitiveHeaders key value"

section \<open>The slog handler\<close>

record 'w slogHandler =
  sh_logger :: "'w logger"
  sh_attrs :: "gval list"
  sh_groups :: "string list"

record slog_record =
  rec_level :: int
  rec_message :: string
  rec_attrs :: "(string \<times> gval) list"

definition SlogHandler :: "'w logger \<Rightarrow> 'w slogHandler" where
  "SlogHandler logger = \<lparr>sh_logger = logger, sh_attrs = [], sh_groups = []\<rparr>"

definition slog_Enabled :: "'w slogHandler \<Rightarrow> int \<Rightarrow> bool" where
  "slog_Enabled h level = True"

definition slog_prefix :: "'w slogHandler \<Rightarrow> string \<Rightarrow> string" where
  "slog_prefix h key =
     (if sh_groups h = [] then key else strings_Join (sh_groups h) ''.'' @ ''.'' @ key)"

definition slogToKratos :: "int \<Rightarrow> log_level" where
  "slogToKratos l =
     (if l < 0 then LevelDebug else if l < 4 then LevelInfo else if l < 8 then LevelWarn else LevelError)"

definition slog_Handle :: "'w slogHandler \<Rightarrow> slog_record \<Rightarrow> 'w \<Rightarrow> error option \<times> 'w" where
  "slog_Handle h r =
     sh_logger h (slogToKratos (rec_level r))
       ([VStr ''msg'', VStr (rec_message r)] @ sh_attrs h @
        concat (map (\<lambda>(k, v). [VStr (slog_prefix h k), v]) (rec_attrs r)))"

definition slog_WithAttrs :: "(string \<times> gval) list \<Rightarrow> 'w slogHandler \<Rightarrow> 'w slogHandler" where
  "slog_WithAttrs attrs h =
     h\<lparr>sh_attrs := fold (\<lambda>(k, v) acc. acc @ [VStr (slog_prefix h k), v]) attrs (sh_attrs h)\<rparr>"

definition slog_WithGroup :: "string \<Rightarrow> 'w slogHandler \<Rightarrow> 'w slogHandler" where
  "slog_WithGroup name h = (if name = [] then h else h\<lparr>sh_groups := sh_groups h @ [name]\<rparr>)"

section \<open>Fields of a JSON line\<close>

text \<open>The bindings of a key/value list whose keys are strings, in order.\<close>

fun kv_pairs :: "gval list \<Rightarrow> (string \<times> gval) list" where
  "kv_pairs (k # v # rest) = (case k of VStr s \<Rightarrow> [(s, v)] | _ \<Rightarrow> []) @ kv_pairs rest"
| "kv_pairs _ = []"

lemma put_all_lookup:
  "map_of (put_all kvs obj) k =
     (case map_of (rev (kv_pairs kvs)) k of Some v \<Rightarrow> Some v | None \<Rightarrow> map_of obj k)"
proof (induction kvs obj rule: put_all.induct)
  case (1 k' v rest obj)
  then show ?case
    by (cases k') (auto simp: update_conv' map_add_def split: option.splits)
qed simp_all

lemma put_all_distinct: "distinct (map fst obj) \<Longrightarrow> distinct (map fst (put_all kvs obj))"
  by (induction kvs obj rule: put_all.induct) (auto simp: distinct_update split: gval.splits)

lemma sink_object_distinct: "distinct (map fst (sink_object ls l kvs))"
  by (simp add: sink_object_def put_all_distinct)

lemma sink_object_lookup:
  "map_of (sink_object ls l kvs) k =
     (case map_of (rev (kv_pairs (pad_keyvals kvs))) k of
        Some v \<Rightarrow> Some v | None \<Rightarrow> if k = ''level'' then Some (VStr (ls l)) else None)"
  by (simp add: sink_object_def put_all_lookup split: option.splits)

lemma kv_pairs_values: "(k, v) \<in> set (kv_pairs kvs) \<Longrightarrow> v \<in> set kvs"
  by (induction kvs rule: kv_pairs.induct) (auto split: gval.splits)

lemma sink_object_values:
  assumes "(k, v) \<in> set (sink_object ls l kvs)"
  shows "v \<in> set kvs \<or> (\<exists>s. v = VStr s)"
proof -
  have "map_of (sink_object ls l kvs) k = Some v"
    using assms sink_object_distinct by (simp add: map_of_is_SomeI)
  then have "(k, v) \<in> set (kv_pairs (pad_keyvals kvs)) \<or> v = VStr (ls l)"
    by (auto simp: sink_object_lookup dest: map_of_SomeD split: option.splits if_splits)
  then show ?thesis
    by (auto simp: pad_keyvals_def dest: kv_pairs_values split: if_splits)
qed

text \<open>
  The call's own view of its key/value list, by position: a key stands at even positions, and the
  last occurrence of a string key is the one that counts.
\<close>

definition key_at :: "gval list \<Rightarrow> string \<Rightarrow> nat \<Rightarrow> bool" where
  "key_at kvs k i \<longleftrightarrow> even i \<and> i < length kvs \<and> kvs ! i = VStr k"

definition last_key_at :: "gval list \<Rightarrow> string \<Rightarrow> nat \<Rightarrow> bool" where
  "last_key_at kvs k i \<longleftrightarrow> key_at kvs k i \<and> (\<forall>j < length kvs. i < j \<longrightarrow> \<not> key_at kvs k j)"

definition value_at :: "gval list \<Rightarrow> nat \<Rightarrow> gval" where
  "value_at kvs i = (if Suc i < length kvs then kvs ! Suc i else VStr ''MISSING_VALUE'')"

lemma key_at_Cons:
  "key_at (a # b # kvs) k i \<longleftrightarrow> (i = 0 \<and> a = VStr k) \<or> (\<exists>j. i = Suc (Suc j) \<and> key_at kvs k j)"
  by (cases i; cases "i - 1") (auto simp: key_at_def)

lemma key_at_pad: "key_at (pad_keyvals kvs) k i \<longleftrightarrow> key_at kvs k i"
  by (auto simp: key_at_def pad_keyvals_def nth_append less_Suc_eq split: if_splits)

lemma even_length_pad: "even (length (pad_keyvals kvs))"
  by (auto simp: pad_keyvals_def even_iff_mod_2_eq_zero [symmetric])

lemma kv_pairs_keys: "even (length kvs) \<Longrightarrow> k \<in> fst ` set (kv_pairs kvs) \<longleftrightarrow> (\<exists>i. key_at kvs k i)"
proof (induction kvs rule: kv_pairs.induct)
  case (1 a b rest)
  have "k \<in> fst ` set (kv_pairs (a # b # rest)) \<longleftrightarrow> a = VStr k \<or> k \<in> fst ` set (kv_pairs rest)"
    by (cases a) auto
  with 1 show ?case
    by (auto simp: key_at_Cons)
qed (simp_all add: key_at_def)

lemma kv_pairs_last:
  assumes "even (length kvs)" and "last_key_at kvs k i"
  shows "map_of (rev (kv_pairs kvs)) k = Some (kvs ! Suc i)"
  using assms
proof (induction kvs arbitrary: i rule: kv_pairs.induct)
  case (1 a b rest)
  have at: "key_at (a # b # rest) k i" and later: "\<not> key_at (a # b # rest) k j" if "i < j" for j
    using "1.prems"(2) that by (auto simp: last_key_at_def key_at_def)
  show ?case
  proof (cases "\<exists>j. key_at rest k j")
    case False
    then have "k \<notin> fst ` set (kv_pairs rest)"
      using "1.prems"(1) by (simp add: kv_pairs_keys)
    moreover have "i = 0" "a = VStr k"
      using False "1.prems"(2) by (auto simp: last_key_at_def key_at_Cons)
    ultimately show ?thesis
      by (simp add: map_add_def map_of_eq_None_iff [THEN iffD2] split: option.split)
  next
    case True
    then obtain j where j: "i = Suc (Suc j)" "key_at rest k j"
      using "1.prems"(2) later by (auto simp: last_key_at_def key_at_Cons)
    moreover have "\<not> key_at rest k j'" if "j < j'" for j'
      using later [of "Suc (Suc j')"] that j(1) by (auto simp: key_at_Cons)
    ultimately have "map_of (rev (kv_pairs rest)) k = Some (rest ! Suc j)"
      using "1.IH" [of j] "1.prems"(1) by (auto simp: last_key_at_def)
    with j(1) show ?thesis
      by (simp add: map_add_def)
  qed
qed (simp_all add: last_key_at_def key_at_def)

text \<open>What the object holds, in terms of the call.\<close>

lemma sink_object_bound:
  assumes "last_key_at kvs k i"
  shows "map_of (sink_object ls level kvs) k = Some (value_at kvs i)"
proof -
  have "last_key_at (pad_keyvals kvs) k i"
    using assms key_at_pad [of kvs k] by (auto simp: last_key_at_def key_at_def)
  moreover have "pad_keyvals kvs ! Suc i = value_at kvs i"
  proof (cases "Suc i < length kvs")
    case False
    with assms have "length kvs = Suc i" "even i"
      by (simp_all add: last_key_at_def key_at_def)
    then show ?thesis
      using odd_iff_mod_2_eq_one [of "Suc i"] by (simp add: pad_keyvals_def value_at_def nth_append)
  qed (simp add: pad_keyvals_def value_at_def nth_append)
  ultimately show ?thesis
    by (simp add: sink_object_lookup kv_pairs_last [OF even_length_pad])
qed

lemma sink_object_keys:
  "fst ` set (sink_object ls level kvs) = insert ''level'' {k. \<exists>i. key_at kvs k i}"
proof -
  have "k \<in> fst ` set (kv_pairs (pad_keyvals kvs)) \<longleftrightarrow> (\<exists>i. key_at kvs k i)" for k
    by (simp add: kv_pairs_keys [OF even_length_pad] key_at_pad)
  moreover have "k \<in> fst ` set (sink_object ls level kvs) \<longleftrightarrow>
      k \<in> fst ` set (kv_pairs (pad_keyvals kvs)) \<or> k = ''level''" for k
    using map_of_eq_None_iff [of "sink_object ls level kvs" k]
      map_of_eq_None_iff [of "rev (kv_pairs (pad_keyvals kvs))" k]
    by (simp add: sink_object_lookup split: option.splits if_splits)
  ultimately show ?thesis
    by (intro set_eqI) (simp, blast)
qed

lemma sink_object_level:
  assumes "\<And>i. \<not> key_at kvs ''level'' i"
  shows "map_of (sink_object ls level kvs) ''level'' = Some (VStr (ls level))"
  using assms kv_pairs_keys [OF even_length_pad, of "''level''" kvs]
  by (simp add: sink_object_lookup key_at_pad map_of_eq_None_iff [THEN iffD2])

lemma encode_members_Inl:
  assumes "encode_members marshal kvs = Inl e"
  shows "\<exists>k n. (k, VOther n) \<in> set kvs \<and> marshal n = Inl e"
  using assms
proof (induction kvs)
  case (Cons kv kvs)
  obtain k v where [simp]: "kv = (k, v)"
    by (cases kv)
  from Cons show ?case
    by (cases v) (auto simp: json_value_def split: sum.splits)
qed simp

lemma encode_members_Inr:
  assumes "encode_members marshal kvs = Inr ts"
  shows "ts = map (\<lambda>(k, v). (k, projr (json_value marshal v))) kvs"
    and "(k, v) \<in> set kvs \<Longrightarrow> json_value marshal v = Inr (projr (json_value marshal v))"
  using assms by (induction kvs arbitrary: ts) (auto split: sum.splits)

lemma digits_of_printable: "c \<in> set (digits_of n) \<Longrightarrow> c \<noteq> CHR 0x0A"
proof (induction n rule: digits_of.induct)
  case (1 n)
  have "char_of (48 + k) \<noteq> CHR 0x0A" if "k < 10" for k :: nat
  proof
    assume "char_of (48 + k) = CHR 0x0A"
    then have "(of_char (char_of (48 + k)) :: nat) = of_char CHR 0x0A"
      by simp
    with that show False by simp
  qed
  then have "char_of (48 + n mod 10) \<noteq> CHR 0x0A" "n < 10 \<Longrightarrow> char_of (48 + n) \<noteq> CHR 0x0A"
    by simp_all
  with 1 show ?case
    unfolding digits_of.simps [of n] by (cases "n < 10") auto
qed

lemma json_value_one_line:
  assumes "\<And>n t. marshal n = Inr t \<Longrightarrow> CHR 0x0A \<notin> set t" and "json_value marshal v = Inr t"
  shows "CHR 0x0A \<notin> set t"
  using assms
  by (cases v) (auto simp: json_value_def json_string_one_line Itoa_def
      dest: digits_of_printable split: if_splits)

lemma Join_member: "x \<in> set xs \<Longrightarrow> \<exists>pre post. strings_Join xs sep = pre @ x @ post"
proof (induction xs sep rule: strings_Join.induct)
  case (2 y sep)
  then show ?case
    by (intro exI [of _ "[]"]) simp
next
  case (3 y z zs sep)
  show ?case
  proof (cases "x = y")
    case True
    then show ?thesis
      by (intro exI [of _ "[]"] exI [of _ "sep @ strings_Join (z # zs) sep"]) simp
  next
    case False
    then obtain pre post where "strings_Join (z # zs) sep = pre @ x @ post"
      using 3 by auto
    then show ?thesis
      by (intro exI [of _ "y @ sep @ pre"] exI [of _ post]) simp
  qed
qed simp

text \<open>An \<open>io.Writer\<close> that appends to a buffer and never fails.\<close>

definition buffer_write :: "string \<Rightarrow> string \<Rightarrow> error option \<times> string" where
  "buffer_write s buf = (None, buf @ s)"

section \<open>Properties of the JSON sink\<close>

text \<open>
  A call with at least one key appends exactly one line to the output, whatever control characters or
  newlines its keys and values contain, unless some value has a type JSON cannot encode; then that
  error is returned and nothing at all is written.
\<close>

lemma jsonSink_one_line_or_error:
  assumes "kvs \<noteq> []" and "\<And>n t. marshal n = Inr t \<Longrightarrow> CHR 0x0A \<notin> set t"
  shows "(\<exists>line. jsonSink_Log buffer_write marshal ls level kvs buf = (None, buf @ line @ [CHR 0x0A]) \<and>
      line \<noteq> [] \<and> CHR 0x0A \<notin> set line) \<or>
    (\<exists>n e. VOther n \<in> set kvs \<and> marshal n = Inl e \<and>
      jsonSink_Log buffer_write marshal ls level kvs buf = (Some e, buf))"
proof (cases "encode_members marshal (sort_key fst (sink_object ls level kvs))")
  case (Inl e)
  then obtain k n where "(k, VOther n) \<in> set (sink_object ls level kvs)" and "marshal n = Inl e"
    using encode_members_Inl by fastforce
  with Inl assms(1) show ?thesis
    using sink_object_values [of k "VOther n" ls level kvs] by (auto simp: jsonSink_Log_def)
next
  case (Inr ts)
  have "CHR 0x0A \<notin> set t" if mem: "(k, t) \<in> set ts" for k t
  proof -
    obtain v where "t = projr (json_value marshal v)" and "(k, v) \<in> set (sort_key fst (sink_object ls level kvs))"
      using mem unfolding encode_members_Inr(1) [OF Inr] by auto
    then have "json_value marshal v = Inr t"
      using encode_members_Inr(2) [OF Inr, of k v] by simp
    then show ?thesis
      by (rule json_value_one_line [of marshal v t, rotated]) (rule assms(2))
  qed
  then have "CHR 0x0A \<notin> set (json_object ts)"
    by (rule json_object_one_line)
  with Inr assms(1) show ?thesis
    by (intro disjI1 exI [of _ "json_object ts"])
       (simp add: jsonSink_Log_def buffer_write_def json_line_def json_object_def)
qed

text \<open>
  Which fields a line has: the last binding of each string key wins, a dangling key gets
  MISSING_VALUE, keys that are not strings are dropped, and \<open>level\<close> is there unless the caller
  bound that key; then the caller's value replaces the level. Every key occurs once.
\<close>

theorem sink_object_spec:
  "distinct (map fst (sink_object ls l kvs)) \<and>
   map_of (sink_object ls l kvs) k =
     (case map_of (rev (kv_pairs (if even (length kvs) then kvs else kvs @ [VStr ''MISSING_VALUE'']))) k of
        Some v \<Rightarrow> Some v
      | None \<Rightarrow> if k = ''level'' then Some (VStr (ls l)) else None)"
  using sink_object_distinct [of ls l kvs]
  by (simp add: sink_object_lookup pad_keyvals_def even_iff_mod_2_eq_zero split: option.splits)

text \<open>
  C19. What a reader gets back, in terms of the call's own arguments. A written line is one object
  whose members are, each once, \<open>level\<close> and the string keys of the call: nothing else, so values cannot
  forge fields. If the last occurrence of a string key is bound to a string value (or dangles, which
  stands for the value MISSING_VALUE), or if the call does not bind \<open>level\<close>, whose value is then the name
  of the call's level, the line contains that member, and reading its value as a JSON string literal
  yields the value again (with invalid UTF-8 replaced), ending exactly at the member's end.
\<close>

theorem jsonSink_string_roundtrip:
  assumes "jsonSink_Log buffer_write marshal ls level kvs buf = (None, buf @ line @ [CHR 0x0A])"
    and "kvs \<noteq> []"
    and "(\<exists>i. last_key_at kvs k i \<and> value_at kvs i = VStr s) \<or>
      (k = ''level'' \<and> (\<forall>i. \<not> key_at kvs k i) \<and> s = ls level)"
  shows "(\<exists>ms. line = json_object ms \<and> distinct (map fst ms) \<and>
      fst ` set ms = insert ''level'' {k. \<exists>i. key_at kvs k i} \<and> (k, json_string s) \<in> set ms) \<and>
    (\<exists>pre post. line = pre @ json_string k @ '':'' @ json_string s @ post \<and>
      json_unquote (json_string k @ '':'' @ json_string s @ post) = Some (to_valid k, '':'' @ json_string s @ post) \<and>
      json_unquote (json_string s @ post) = Some (to_valid s, post))"
proof -
  let ?obj = "sink_object ls level kvs"
  obtain ts where ts: "encode_members marshal (sort_key fst ?obj) = Inr ts" and line: "line = json_object ts"
    using assms(1,2)
    by (auto simp: jsonSink_Log_def buffer_write_def json_line_def split: sum.splits)
  have keys: "map fst ts = map fst (sort_key fst ?obj)"
    unfolding encode_members_Inr(1) [OF ts] by auto
  then have "distinct (map fst ts)"
    using sink_object_distinct [of ls level kvs] by (simp add: distinct_map)
  moreover have "fst ` set ts = fst ` set ?obj"
    using keys by (metis list.set_map set_sort)
  moreover have "map_of ?obj k = Some (VStr s)"
    using assms(3) sink_object_bound [of kvs k _ ls level] sink_object_level [of kvs ls level] by auto
  then have "(k, VStr s) \<in> set (sort_key fst ?obj)"
    by (auto dest: map_of_SomeD)
  then have mem: "(k, json_string s) \<in> set ts"
    unfolding encode_members_Inr(1) [OF ts] by (force simp: json_value_def)
  ultimately have members: "\<exists>ms. line = json_object ms \<and> distinct (map fst ms) \<and>
      fst ` set ms = insert ''level'' {k. \<exists>i. key_at kvs k i} \<and> (k, json_string s) \<in> set ms"
    by (intro exI [of _ ts]) (simp add: line sink_object_keys)
  have "json_member (k, json_string s) \<in> set (map json_member (sort_key fst ts))"
    using mem by auto
  then obtain pre post where "line = pre @ json_member (k, json_string s) @ post"
    using Join_member unfolding line json_object_def by (metis append.assoc)
  moreover have "json_unquote (json_string x @ post') = Some (to_valid x, post')" for x post'
    by (simp add: json_unquote_def json_string_def json_read_body)
  ultimately show ?thesis
    using members by (intro conjI exI [of _ pre] exI [of _ post]) (simp_all add: json_member_def)
qed

theorem jsonSink_string_roundtrip_witness:
  "\<exists>pre post. (''{'' @ json_string ''level'' @ '':'' @ json_string ''INFO'' @ '','' @ json_string ''user'' @ '':'' @
      json_string ''a,b'' @ ''}'') = pre @ json_string ''user'' @ '':'' @ json_string ''a,b'' @ post \<and>
    json_unquote (json_string ''user'' @ '':'' @ json_string ''a,b'' @ post) =
      Some (to_valid ''user'', '':'' @ json_string ''a,b'' @ post) \<and>
    json_unquote (json_string ''a,b'' @ post) = Some (to_valid ''a,b'', post)"
proof (rule jsonSink_string_roundtrip [of "\<lambda>_. Inl Canceled" "\<lambda>_. ''INFO''" LevelInfo
      "[VStr ''user'', VStr ''old'', VStr ''user'', VStr ''a,b'']" "[]", THEN conjunct2])
  have obj: "sort_key fst (sink_object (\<lambda>_. ''INFO'') LevelInfo [VStr ''user'', VStr ''old'', VStr ''user'', VStr ''a,b'']) =
      [(''level'', VStr ''INFO''), (''user'', VStr ''a,b'')]"
    by code_simp
  show "jsonSink_Log buffer_write (\<lambda>_. Inl Canceled) (\<lambda>_. ''INFO'') LevelInfo [VStr ''user'', VStr ''old'', VStr ''user'', VStr ''a,b''] [] =
    (None, [] @ (''{'' @ json_string ''level'' @ '':'' @ json_string ''INFO'' @ '','' @ json_string ''user'' @ '':'' @
      json_string ''a,b'' @ ''}'') @ [CHR 0x0A])"
    by (simp add: jsonSink_Log_def obj json_value_def buffer_write_def json_line_def json_object_def
        json_member_def)
  have "last_key_at [VStr ''user'', VStr ''old'', VStr ''user'', VStr ''a,b''] ''user'' 2"
    by (auto simp: last_key_at_def key_at_def less_Suc_eq)
  then show "(\<exists>i. last_key_at [VStr ''user'', VStr ''old'', VStr ''user'', VStr ''a,b''] ''user'' i \<and>
      value_at [VStr ''user'', VStr ''old'', VStr ''user'', VStr ''a,b''] i = VStr ''a,b'') \<or>
    (''user'' = ''level'' \<and> (\<forall>i. \<not> key_at [VStr ''user'', VStr ''old'', VStr ''user'', VStr ''a,b''] ''user'' i) \<and> ''a,b'' = ''INFO'')"
    by (intro disjI1 exI [of _ 2]) (simp add: value_at_def)
qed simp

lemma kv_pairs_append: "even (length xs) \<Longrightarrow> kv_pairs (xs @ ys) = kv_pairs xs @ kv_pairs ys"
  by (induction xs rule: kv_pairs.induct) auto

text \<open>
  Every line names the service: a call of the JSON logger is one call of the sink, and the object
  it writes carries the service's id, name and version as configured, and the level of the call, for
  every one of these keys the caller did not bind again.
\<close>

theorem NewJSONTo_identity:
  assumes "binds_first log_With"
  shows "\<exists>all. NewJSONTo log_With marshal ls write name version inst level kvs w =
      jsonSink_Log write marshal ls level all w \<and>
    (case map_of (rev (kv_pairs (pad_keyvals kvs))) k of
       Some v \<Rightarrow> map_of (sink_object ls level all) k = Some v
     | None \<Rightarrow>
         (k = ''service.id'' \<longrightarrow> map_of (sink_object ls level all) k = Some (VStr inst)) \<and>
         (k = ''service.name'' \<longrightarrow> map_of (sink_object ls level all) k = Some (VStr name)) \<and>
         (k = ''service.version'' \<longrightarrow> map_of (sink_object ls level all) k = Some (VStr version)) \<and>
         (k = ''level'' \<longrightarrow> map_of (sink_object ls level all) k = Some (VStr (ls level))))"
proof -
  let ?bvs = "service_fields name version inst"
  obtain ts caller where run: "NewJSONTo log_With marshal ls write name version inst level kvs w =
      jsonSink_Log write marshal ls level (map (resolve ts caller) ?bvs @ kvs) w"
    using assms unfolding binds_first_def NewJSONTo_def by blast
  have even: "even (length (map (resolve ts caller) ?bvs))"
    by (simp add: service_fields_def)
  have "pad_keyvals (map (resolve ts caller) ?bvs @ kvs) = map (resolve ts caller) ?bvs @ pad_keyvals kvs"
    by (simp add: pad_keyvals_def service_fields_def)
  then have "map_of (sink_object ls level (map (resolve ts caller) ?bvs @ kvs)) k =
      (case map_of (rev (kv_pairs (pad_keyvals kvs))) k of
         Some v \<Rightarrow> Some v
       | None \<Rightarrow> (case map_of (rev (kv_pairs (map (resolve ts caller) ?bvs))) k of
           Some v \<Rightarrow> Some v | None \<Rightarrow> if k = ''level'' then Some (VStr (ls level)) else None))"
    by (simp add: sink_object_lookup kv_pairs_append [OF even] map_add_def split: option.splits)
  then show ?thesis
    by (intro exI [of _ "map (resolve ts caller) ?bvs @ kvs"] conjI run)
       (auto simp: service_fields_def split: option.split)
qed

text \<open>A \<open>log.With\<close> that behaves as relied on.\<close>

definition demo_With :: "string logger \<Rightarrow> bound_value list \<Rightarrow> string logger" where
  "demo_With l bvs level kvs = l level (map (resolve (VStr ''t'') (VStr ''c'')) bvs @ kvs)"

theorem NewJSONTo_identity_witness:
  "\<exists>all. NewJSONTo demo_With (\<lambda>_. Inl Canceled) (\<lambda>_. ''INFO'') buffer_write ''svc'' ''v1'' ''pod'' LevelInfo [] [] =
      jsonSink_Log buffer_write (\<lambda>_. Inl Canceled) (\<lambda>_. ''INFO'') LevelInfo all [] \<and>
    map_of (sink_object (\<lambda>_. ''INFO'') LevelInfo all) ''service.name'' = Some (VStr ''svc'')"
proof -
  have "binds_first demo_With"
    by (auto simp: binds_first_def demo_With_def)
  from NewJSONTo_identity [OF this, of "\<lambda>_. Inl Canceled" "\<lambda>_. ''INFO''" buffer_write "''svc''" "''v1''" "''pod''"
      LevelInfo "[]" "[]" "''service.name''"]
  show ?thesis by (auto simp: pad_keyvals_def)
qed

section \<open>Properties of redaction\<close>

lemma redact_fold_other:
  assumes "\<And>kv. kv \<in> set entries \<Longrightarrow> CanonicalHeaderKey (fst kv) \<noteq> k"
  shows "fold (redact_entry sens) entries out k = out k"
  using assms by (induction entries arbitrary: out) (auto simp: redact_entry_def Let_def)

lemma redact_fold_sensitive:
  assumes "k \<in> sens" and "\<And>vs. out k = Some vs \<Longrightarrow> set vs \<subseteq> {RedactionMask}"
    and "fold (redact_entry sens) entries out k = Some vs"
  shows "set vs \<subseteq> {RedactionMask}"
  using assms
proof (induction entries arbitrary: out)
  case (Cons kv entries)
  show ?case
    by (rule Cons.IH [OF Cons.prems(1) _ Cons.prems(3) [unfolded fold.simps comp_apply]])
       (use Cons.prems(1,2) in \<open>auto simp: redact_entry_def Let_def split: if_splits\<close>)
qed simp

lemma redact_fold_plain:
  assumes "distinct (map (CanonicalHeaderKey \<circ> fst) entries)" and "(k, vs) \<in> set entries"
    and "CanonicalHeaderKey k \<notin> sens"
  shows "fold (redact_entry sens) entries out (CanonicalHeaderKey k) = Some vs"
  using assms
proof (induction entries arbitrary: out)
  case (Cons kv entries)
  show ?case
  proof (cases "kv = (k, vs)")
    case True
    have "fold (redact_entry sens) entries (redact_entry sens kv out) (CanonicalHeaderKey k) =
        redact_entry sens kv out (CanonicalHeaderKey k)"
      using Cons.prems(1) True by (intro redact_fold_other) (auto simp: image_iff)
    moreover have "redact_entry sens kv out (CanonicalHeaderKey k) = Some vs"
      using True Cons.prems(3) by (simp add: redact_entry_def Let_def)
    ultimately show ?thesis
      by simp
  qed (use Cons in auto)
qed simp

lemma redact_fold_dom:
  "dom (fold (redact_entry sens) entries out) = (CanonicalHeaderKey \<circ> fst) ` set entries \<union> dom out"
  by (induction entries arbitrary: out) (auto simp: redact_entry_def Let_def)

text \<open>
  C21. No sensitive value gets through \<open>RedactHeaders\<close>: whatever the casing of the stored keys and
  whatever order the map is visited in, under every key of the result, in any casing, that stands for
  a default or extra sensitive name, every value is the mask; and every key of the result is
  canonical.
\<close>

theorem RedactHeaders_masks:
  assumes "RedactHeaders entries extra k = Some vs"
  shows "CanonicalHeaderKey k = k \<and>
    (CanonicalHeaderKey k \<in> CanonicalHeaderKey ` set (SensitiveHeaders @ extra) \<longrightarrow> (\<forall>v \<in> set vs. v = RedactionMask))"
proof (cases "entries = []")
  case False
  let ?sens = "set (map CanonicalHeaderKey SensitiveHeaders) \<union> set (map CanonicalHeaderKey extra)"
  have out: "fold (redact_entry ?sens) entries Map.empty k = Some vs"
    using assms False by (simp add: RedactHeaders_def)
  then have "k \<in> dom (fold (redact_entry ?sens) entries Map.empty)"
    by (rule domI)
  then have canon: "CanonicalHeaderKey k = k"
    unfolding redact_fold_dom by auto
  moreover have "set vs \<subseteq> {RedactionMask}" if "k \<in> CanonicalHeaderKey ` set (SensitiveHeaders @ extra)"
    using that redact_fold_sensitive [OF _ _ out] by auto
  ultimately show ?thesis
    by auto
qed (use assms in \<open>simp add: RedactHeaders_def\<close>)

theorem RedactHeaders_masks_witness:
  "RedactHeaders [(''AUTHORIZATION'', [''Bearer x''])] [] (CanonicalHeaderKey ''Authorization'') = Some [''***''] \<and>
   ''***'' = RedactionMask"
proof
  show "RedactHeaders [(''AUTHORIZATION'', [''Bearer x''])] [] (CanonicalHeaderKey ''Authorization'') = Some [''***'']"
    by code_simp
  then show "''***'' = RedactionMask"
    using RedactHeaders_masks [of "[(''AUTHORIZATION'', [''Bearer x''])]" "[]" "CanonicalHeaderKey ''Authorization''" "[''***'']"]
    by (simp add: SensitiveHeaders_def)
qed

text \<open>
  Nothing else is touched: when no two stored keys have the same canonical form, every entry
  that is not sensitive appears in the result under its canonical key with all its values, and the
  result has no other keys.
\<close>

theorem RedactHeaders_keeps:
  assumes "distinct (map (CanonicalHeaderKey \<circ> fst) entries)"
  shows "(\<forall>k vs. (k, vs) \<in> set entries \<longrightarrow>
      CanonicalHeaderKey k \<notin> CanonicalHeaderKey ` set (SensitiveHeaders @ extra) \<longrightarrow>
      RedactHeaders entries extra (CanonicalHeaderKey k) = Some vs) \<and>
    dom (RedactHeaders entries extra) = (CanonicalHeaderKey \<circ> fst) ` set entries"
proof -
  have "set (map CanonicalHeaderKey SensitiveHeaders) \<union> set (map CanonicalHeaderKey extra) =
      CanonicalHeaderKey ` set (SensitiveHeaders @ extra)"
    by auto
  then show ?thesis
    using redact_fold_plain [OF assms] by (auto simp: RedactHeaders_def redact_fold_dom)
qed

theorem RedactHeaders_keeps_witness:
  "RedactHeaders [(''content-type'', [''a'', ''b''])] [] ''Content-Type'' = Some [''a'', ''b'']"
proof -
  have canon: "CanonicalHeaderKey ''content-type'' = ''Content-Type''"
    by code_simp
  have "CanonicalHeaderKey ''content-type'' \<notin> CanonicalHeaderKey ` set (SensitiveHeaders @ [])"
    by code_simp
  then show ?thesis
    using RedactHeaders_keeps [of "[(''content-type'', [''a'', ''b''])]" "[]"] by (simp add: canon)
qed

text \<open>
  \<open>RedactValue\<close> masks a value when the key is, up to ASCII case, one of the sensitive names, and
  for ASCII keys only then; otherwise the value is returned unchanged. On such keys it agrees with
  \<open>RedactHeaders\<close>.
\<close>

theorem RedactValue_spec:
  assumes "list_all is_ascii key"
  shows "RedactValue fold_rest key value =
    (if map to_lower key \<in> map to_lower ` set SensitiveHeaders then RedactionMask else value)"
proof -
  have ascii: "\<forall>s \<in> set SensitiveHeaders. list_all is_ascii s"
    by code_simp
  have "redact_scan fold_rest names key value =
      (if map to_lower key \<in> map to_lower ` set names then RedactionMask else value)"
    if "\<forall>s \<in> set names. list_all is_ascii s" for names
    using that by (induction names) (auto simp: EqualFold_ascii [OF _ assms])
  then show ?thesis
    using ascii by (simp add: RedactValue_def)
qed

theorem RedactValue_spec_witness:
  "RedactValue (\<lambda>_ _. False) ''set-COOKIE'' ''v'' = ''***'' \<and> RedactValue (\<lambda>_ _. False) ''host'' ''v'' = ''v''"
proof -
  have "list_all is_ascii ''set-COOKIE''" "list_all is_ascii ''host''"
    and "map to_lower ''set-COOKIE'' \<in> map to_lower ` set SensitiveHeaders"
    and "map to_lower ''host'' \<notin> map to_lower ` set SensitiveHeaders"
    by code_simp+
  then show ?thesis
    using RedactValue_spec [of "''set-COOKIE''" "\<lambda>_ _. False" "''v''"]
      RedactValue_spec [of "''host''" "\<lambda>_ _. False" "''v''"]
    by (simp add: RedactionMask_def)
qed

section \<open>Properties of the slog adapter\<close>

text \<open>
  The specification: a logger derived by a sequence of \<open>With\<close> and \<open>WithGroup\<close> calls carries
  attributes qualified by the groups that were open when they were added.
\<close>

datatype slog_op = OpWith "(string \<times> gval) list" | OpGroup string

fun slog_apply :: "slog_op \<Rightarrow> 'w slogHandler \<Rightarrow> 'w slogHandler" where
  "slog_apply (OpWith attrs) h = slog_WithAttrs attrs h"
| "slog_apply (OpGroup name) h = slog_WithGroup name h"

definition qualify :: "string list \<Rightarrow> string \<times> gval \<Rightarrow> gval list" where
  "qualify path kv = [VStr (strings_Join (path @ [fst kv]) ''.''), snd kv]"

fun open_groups :: "slog_op list \<Rightarrow> string list" where
  "open_groups [] = []"
| "open_groups (OpWith _ # ops) = open_groups ops"
| "open_groups (OpGroup name # ops) = (if name = [] then [] else [name]) @ open_groups ops"

fun bound_attrs :: "string list \<Rightarrow> slog_op list \<Rightarrow> gval list" where
  "bound_attrs path [] = []"
| "bound_attrs path (OpWith attrs # ops) = concat (map (qualify path) attrs) @ bound_attrs path ops"
| "bound_attrs path (OpGroup name # ops) = bound_attrs (path @ (if name = [] then [] else [name])) ops"

lemma Join_snoc:
  "xs \<noteq> [] \<Longrightarrow> strings_Join (xs @ [y]) sep = strings_Join xs sep @ sep @ y"
  by (induction xs sep rule: strings_Join.induct) auto

lemma prefix_qualify: "[VStr (slog_prefix h k), v] = qualify (sh_groups h) (k, v)"
  by (cases "sh_groups h = []") (simp_all add: slog_prefix_def qualify_def Join_snoc)

lemma fold_append_concat: "fold (\<lambda>x acc. acc @ f x) xs acc = acc @ concat (map f xs)"
  by (induction xs arbitrary: acc) auto

lemma slog_WithAttrs_qualify:
  "slog_WithAttrs attrs h = h\<lparr>sh_attrs := sh_attrs h @ concat (map (qualify (sh_groups h)) attrs)\<rparr>"
  using fold_append_concat [of "qualify (sh_groups h)" attrs "sh_attrs h"]
  by (simp add: slog_WithAttrs_def prefix_qualify case_prod_unfold)

lemma slog_run:
  "fold slog_apply ops h =
     \<lparr>sh_logger = sh_logger h, sh_attrs = sh_attrs h @ bound_attrs (sh_groups h) ops, sh_groups = sh_groups h @ open_groups ops\<rparr>"
proof (induction ops arbitrary: h)
  case (Cons op ops)
  then show ?case
    by (cases op) (simp_all add: slog_WithAttrs_qualify slog_WithGroup_def)
qed simp

text \<open>
  C25. The slog adapter implements slog's semantics of derived loggers: for any sequence of \<open>With\<close>
  and \<open>WithGroup\<close> calls, a record is one call of the underlying logger, whose result is returned: at the
  mapped level, with the message first,
  then the bound attributes, then its own, each key prefixed by exactly the groups open when it was
  added, joined with dots.
\<close>

theorem slog_handler_refines:
  "slog_Handle (fold slog_apply ops (SlogHandler logger)) r w =
     logger (slogToKratos (rec_level r))
       ([VStr ''msg'', VStr (rec_message r)] @ bound_attrs [] ops @
        concat (map (qualify (open_groups ops)) (rec_attrs r))) w"
  by (simp add: slog_Handle_def slog_run SlogHandler_def prefix_qualify case_prod_unfold)

text \<open>
  Level mapping: monotone, exact on the four named slog levels, and a custom level between two
  named ones (or above ERROR) gets the lower one; everything below INFO is DEBUG.
\<close>

theorem slogToKratos_spec:
  "(l \<le> l' \<longrightarrow> slogToKratos l \<le> slogToKratos l') \<and>
   map slogToKratos [-4, 0, 4, 8] = [LevelDebug, LevelInfo, LevelWarn, LevelError] \<and>
   (-4 \<le> l \<longrightarrow> (\<exists>n \<in> {-4, 0, 4, 8}. n \<le> l \<and> slogToKratos l = slogToKratos n \<and>
      (\<forall>m \<in> {-4, 0, 4, 8}. m \<le> l \<longrightarrow> m \<le> n)))"
  by (auto simp: slogToKratos_def less_eq_log_level_def)

theorem slogToKratos_spec_witness: "slogToKratos 2 \<le> slogToKratos 6"
  by (rule slogToKratos_spec [THEN conjunct1, THEN mp]) simp

end
