(* ===== verification/Data.thy ===== *)
theory Data
  imports Metric
begin

text \<open>
  Packages \<open>data\<close> and \<open>metric\<close> (pkg/data, pkg/metric): the factories of MySQL, Redis and Mongo clients
  with their pool collectors and pool event counters. The drivers and the Prometheus registry are
  the parameter \<open>data_env\<close>; \<open>env_law\<close> states what they are documented to do to the three things a
  \<open>pool_world\<close> tracks: which client handles are open, which collectors are registered (under the set
  of descriptors they describe), and what was logged.
\<close>

section \<open>Collectors\<close>

definition descSQL :: "string list" where
  "descSQL = [''kris_db_pool_open_connections'', ''kris_db_pool_in_use'', ''kris_db_pool_idle'',
     ''kris_db_pool_wait_count_total'', ''kris_db_pool_wait_seconds_total'']"

definition descRedis :: "string list" where
  "descRedis = [''kris_redis_pool_total_connections'', ''kris_redis_pool_idle_connections'',
     ''kris_redis_pool_stale_connections'', ''kris_redis_pool_hits_total'', ''kris_redis_pool_misses_total'',
     ''kris_redis_pool_timeouts_total'']"

datatype value_kind = GaugeValue | CounterValue

datatype 'h collector = SQLCollector 'h string | RedisCollector 'h string | VecCollector string "string list"

definition NewSQLCollector :: "'h \<Rightarrow> string \<Rightarrow> 'h collector" where
  "NewSQLCollector db name = SQLCollector db (if name = [] then ''default'' else name)"

definition NewRedisCollector :: "'h \<Rightarrow> string \<Rightarrow> 'h collector" where
  "NewRedisCollector cli name = RedisCollector cli (if name = [] then ''default'' else name)"

definition SQL_Describe :: "string list" where
  "SQL_Describe = descSQL"

definition Redis_Describe :: "string list" where
  "Redis_Describe = descRedis"

text \<open>
  \<open>stats\<close> are the figures of \<open>db.Stats()\<close> (open, in use, idle, wait count, wait nanoseconds) or of
  \<open>cli.PoolStats()\<close> (total, idle, stale, hits, misses, timeouts), in the order they are reported.
\<close>

definition SQL_Collect :: "int list \<Rightarrow> string \<Rightarrow> (string \<times> value_kind \<times> int \<times> string) list" where
  "SQL_Collect stats name =
     map (\<lambda>(d, k, v). (d, k, v, name))
       (zip descSQL (zip [GaugeValue, GaugeValue, GaugeValue, CounterValue, CounterValue] stats))"

definition Redis_Collect :: "int list \<Rightarrow> string \<Rightarrow> (string \<times> value_kind \<times> int \<times> string) list" where
  "Redis_Collect stats name =
     map (\<lambda>(d, k, v). (d, k, v, name))
       (zip descRedis (zip [GaugeValue, GaugeValue, GaugeValue, CounterValue, CounterValue, CounterValue] stats))"

text \<open>
  The methods of the interface \<open>prometheus.Collector\<close>, by dynamic type. A vector describes its name;
  what it collects (\<open>samples\<close>) is Prometheus's business.
\<close>

fun Describe :: "'h collector \<Rightarrow> string list" where
  "Describe (SQLCollector _ _) = SQL_Describe"
| "Describe (RedisCollector _ _) = Redis_Describe"
| "Describe (VecCollector name labels) = [name]"

fun Collect ::
  "(string \<Rightarrow> (string \<times> value_kind \<times> int \<times> string) list) \<Rightarrow> ('h \<Rightarrow> int list) \<Rightarrow> 'h collector \<Rightarrow>
   (string \<times> value_kind \<times> int \<times> string) list" where
  "Collect samples stats (SQLCollector db name) = SQL_Collect (stats db) name"
| "Collect samples stats (RedisCollector cli name) = Redis_Collect (stats cli) name"
| "Collect samples stats (VecCollector name labels) = samples name"

lemmas [simp] = SQL_Describe_def Redis_Describe_def SQL_Collect_def Redis_Collect_def

section \<open>The world of the factories\<close>

datatype pool_setting = MaxOpenConnsSet int64 | MaxIdleConnsSet int64 | ConnMaxLifetimeSet duration

record 'h pool_world =
  pw_open :: "'h set"
  pw_reg :: "string set \<Rightarrow> 'h collector option"
  pw_log :: "(log_level \<times> string) list"
  pw_set :: "('h \<times> pool_setting) list"

record redis_options =
  ro_Addr :: string
  ro_Username :: string
  ro_Password :: string
  ro_DB :: int64
  ro_DialTimeout :: duration
  ro_ReadTimeout :: duration
  ro_WriteTimeout :: duration

text \<open>
  \<open>close_handle\<close> is \<open>db.Close()\<close>, \<open>cli.Close()\<close> or \<open>client.Disconnect(ctx)\<close>, the last without (\<open>None\<close>)
  or with a time limit on its context.
\<close>

record 'h data_env =
  sql_Open :: "string \<Rightarrow> 'h pool_world \<Rightarrow> (error + 'h) \<times> 'h pool_world"
  redis_NewClient :: "redis_options \<Rightarrow> 'h pool_world \<Rightarrow> 'h \<times> 'h pool_world"
  mongo_Connect :: "duration \<Rightarrow> string \<Rightarrow> string \<Rightarrow> 'h pool_world \<Rightarrow> (error + 'h) \<times> 'h pool_world"
  ping :: "duration \<Rightarrow> 'h \<Rightarrow> 'h pool_world \<Rightarrow> error option \<times> 'h pool_world"
  close_handle :: "duration option \<Rightarrow> 'h \<Rightarrow> 'h pool_world \<Rightarrow> error option \<times> 'h pool_world"
  prom_Register :: "'h collector \<Rightarrow> 'h pool_world \<Rightarrow> error option \<times> 'h pool_world"
  prom_Unregister :: "'h collector \<Rightarrow> 'h pool_world \<Rightarrow> 'h pool_world"
  de_text :: "error \<Rightarrow> string"

definition pool_logf :: "log_level \<Rightarrow> string \<Rightarrow> 'h pool_world \<Rightarrow> 'h pool_world" where
  "pool_logf level msg w = w\<lparr>pw_log := pw_log w @ [(level, msg)]\<rparr>"

definition apply_setting :: "'h \<Rightarrow> pool_setting \<Rightarrow> 'h pool_world \<Rightarrow> 'h pool_world" where
  "apply_setting h s w = w\<lparr>pw_set := pw_set w @ [(h, s)]\<rparr>"

text \<open>A factory returns an error, or what it made (a handle, or a record with one) and its cleanup function.\<close>

type_synonym ('h, 'a) made_of = "(error + 'a \<times> ('h pool_world \<Rightarrow> 'h pool_world)) \<times> 'h pool_world"
type_synonym 'h made = "('h, 'h) made_of"

section \<open>The factories\<close>

definition defaultInt :: "int64 \<Rightarrow> int64 \<Rightarrow> int64" where
  "defaultInt v d = (if v = 0 then d else v)"

definition defaultDuration :: "duration \<Rightarrow> duration \<Rightarrow> duration" where
  "defaultDuration v d = (if v = 0 then d else v)"

definition second :: duration where
  "second = 1000000000"

record MySQLConfig =
  my_Name :: string
  my_DSN :: string
  my_MaxOpenConns :: int64
  my_MaxIdleConns :: int64
  my_ConnMaxLifetime :: duration
  my_PingTimeout :: duration

definition mysql_cleanup :: "'h data_env \<Rightarrow> 'h \<Rightarrow> 'h collector \<Rightarrow> 'h pool_world \<Rightarrow> 'h pool_world" where
  "mysql_cleanup env db collector w =
     (case close_handle env None db (prom_Unregister env collector w) of
        (Some e, w1) \<Rightarrow> pool_logf LevelError (''mysql close: '' @ de_text env e) w1
      | (None, w1) \<Rightarrow> pool_logf LevelInfo ''mysql closed'' w1)"

definition NewMySQL :: "'h data_env \<Rightarrow> MySQLConfig \<Rightarrow> 'h pool_world \<Rightarrow> 'h made" where
  "NewMySQL env cfg w =
     (if my_DSN cfg = [] then (Inl (ErrorString ''mysql: empty DSN''), w)
      else case sql_Open env (my_DSN cfg) w of
        (Inl e, w1) \<Rightarrow> (Inl (WrapError ''mysql: open'' e), w1)
      | (Inr db, w1) \<Rightarrow>
          (let w2 = apply_setting db (ConnMaxLifetimeSet (defaultDuration (my_ConnMaxLifetime cfg) (1800 * second)))
                   (apply_setting db (MaxIdleConnsSet (defaultInt (my_MaxIdleConns cfg) 5))
                   (apply_setting db (MaxOpenConnsSet (defaultInt (my_MaxOpenConns cfg) 10)) w1)) in
           case ping env (defaultDuration (my_PingTimeout cfg) (3 * second)) db w2 of
             (Some e, w3) \<Rightarrow> (Inl (WrapError ''mysql: ping'' e), snd (close_handle env None db w3))
           | (None, w3) \<Rightarrow>
               (let w4 = pool_logf LevelInfo ''mysql connected'' w3;
                    collector = NewSQLCollector db (my_Name cfg);
                    w6 = (case prom_Register env collector w4 of
                       (Some e, w5) \<Rightarrow> pool_logf LevelWarn (''mysql pool collector register: '' @ de_text env e) w5
                     | (None, w5) \<Rightarrow> w5)
                in (Inr (db, mysql_cleanup env db collector), w6))))"

record RedisConfig =
  rc_Name :: string
  rc_Addr :: string
  rc_Username :: string
  rc_Password :: string
  rc_DB :: int64
  rc_DialTimeout :: duration
  rc_ReadTimeout :: duration
  rc_WriteTimeout :: duration
  rc_PingTimeout :: duration

definition redis_cleanup :: "'h data_env \<Rightarrow> 'h \<Rightarrow> 'h collector \<Rightarrow> 'h pool_world \<Rightarrow> 'h pool_world" where
  "redis_cleanup env cli collector w =
     (case close_handle env None cli (prom_Unregister env collector w) of
        (Some e, w1) \<Rightarrow> pool_logf LevelError (''redis close: '' @ de_text env e) w1
      | (None, w1) \<Rightarrow> pool_logf LevelInfo ''redis closed'' w1)"

definition NewRedis :: "'h data_env \<Rightarrow> RedisConfig \<Rightarrow> 'h pool_world \<Rightarrow> 'h made" where
  "NewRedis env cfg w =
     (if rc_Addr cfg = [] then (Inl (ErrorString ''redis: empty Addr''), w)
      else
        (let (cli, w1) = redis_NewClient env
               \<lparr>ro_Addr = rc_Addr cfg, ro_Username = rc_Username cfg, ro_Password = rc_Password cfg,
                ro_DB = rc_DB cfg,
                ro_DialTimeout = defaultDuration (rc_DialTimeout cfg) (3 * second),
                ro_ReadTimeout = defaultDuration (rc_ReadTimeout cfg) second,
                ro_WriteTimeout = defaultDuration (rc_WriteTimeout cfg) second\<rparr> w in
         case ping env (defaultDuration (rc_PingTimeout cfg) (3 * second)) cli w1 of
           (Some e, w2) \<Rightarrow> (Inl (WrapError ''redis: ping'' e), snd (close_handle env None cli w2))
         | (None, w2) \<Rightarrow>
             (let w3 = pool_logf LevelInfo ''redis connected'' w2;
                  collector = NewRedisCollector cli (rc_Name cfg);
                  w5 = (case prom_Register env collector w3 of
                     (Some e, w4) \<Rightarrow> pool_logf LevelWarn (''redis pool collector register: '' @ de_text env e) w4
                   | (None, w4) \<Rightarrow> w4)
              in (Inr (cli, redis_cleanup env cli collector), w5))))"

record MongoConfig =
  mc_Name :: string
  mc_URI :: string
  mc_Database :: string
  mc_ConnectTimeout :: duration
  mc_PingTimeout :: duration

definition mongo_cleanup :: "'h data_env \<Rightarrow> 'h \<Rightarrow> 'h pool_world \<Rightarrow> 'h pool_world" where
  "mongo_cleanup env client w =
     (case close_handle env (Some (5 * second)) client w of
        (Some e, w1) \<Rightarrow> pool_logf LevelError (''mongo disconnect: '' @ de_text env e) w1
      | (None, w1) \<Rightarrow> pool_logf LevelInfo ''mongo disconnected'' w1)"

text \<open>
  The bundle's database handle is \<open>client.Database(cfg.Database)\<close>, a view of the client under the
  database's name; the pool monitor is bound to the configured name.
\<close>

record 'h MongoBundle =
  Client :: 'h
  Database :: "'h \<times> string"

definition NewMongo :: "'h data_env \<Rightarrow> MongoConfig \<Rightarrow> 'h pool_world \<Rightarrow> ('h, 'h MongoBundle) made_of" where
  "NewMongo env cfg w =
     (if mc_URI cfg = [] then (Inl (ErrorString ''mongo: empty URI''), w)
      else
        (let name = (if mc_Name cfg = [] then ''default'' else mc_Name cfg) in
         case mongo_Connect env (defaultDuration (mc_ConnectTimeout cfg) (10 * second)) (mc_URI cfg) name w of
           (Inl e, w1) \<Rightarrow> (Inl (WrapError ''mongo: connect'' e), w1)
         | (Inr client, w1) \<Rightarrow>
             (case ping env (defaultDuration (mc_PingTimeout cfg) (3 * second)) client w1 of
                (Some e, w2) \<Rightarrow> (Inl (WrapError ''mongo: ping'' e), snd (close_handle env None client w2))
              | (None, w2) \<Rightarrow>
                  (Inr (\<lparr>Client = client, Database = (client, mc_Database cfg)\<rparr>, mongo_cleanup env client),
                   pool_logf LevelInfo ''mongo connected'' w2))))"

datatype pool_event_type =
    ConnectionCreated | ConnectionClosed | GetStarted | GetFailed | GetSucceeded | ConnectionReturned
  | OtherPoolEvent

definition unknown_reason :: "string \<Rightarrow> string" where
  "unknown_reason reason = (if reason = [] then ''unknown'' else reason)"

definition mongoEventHandler :: "string \<Rightarrow> pool_event_type \<Rightarrow> string \<Rightarrow> ('l world, unit) io" where
  "mongoEventHandler name ty reason =
     (case ty of
        ConnectionCreated \<Rightarrow> vec_Inc MongoConnectionsCreated [name]
      | ConnectionClosed \<Rightarrow> vec_Inc MongoConnectionsClosed [name, unknown_reason reason]
      | GetStarted \<Rightarrow> vec_Inc MongoCheckoutsStarted [name]
      | GetFailed \<Rightarrow> vec_Inc MongoCheckoutsFailed [name, unknown_reason reason]
      | GetSucceeded \<Rightarrow> vec_Inc MongoCheckoutsSucceeded [name]
      | ConnectionReturned \<Rightarrow> vec_Inc MongoCheckins [name]
      | OtherPoolEvent \<Rightarrow> io_ret ())"

section \<open>Registration of the vectors\<close>

definition vec_collector :: "'v vec_scheme \<Rightarrow> 'h collector" where
  "vec_collector v = VecCollector (v_name v) (v_labels v)"

text \<open>\<open>prometheus.MustRegister\<close>: register one after the other, panic at the first error.\<close>

fun MustRegister :: "'h data_env \<Rightarrow> 'h collector list \<Rightarrow> ('h pool_world, unit) io" where
  "MustRegister env [] = io_ret ()"
| "MustRegister env (c # cs) =
     io_bind (io_call (prom_Register env c)) (\<lambda>err.
       case err of Some e \<Rightarrow> io_panic (de_text env e) | None \<Rightarrow> MustRegister env cs)"

definition mongo_vecs :: "'h collector list" where
  "mongo_vecs = [vec_collector MongoConnectionsCreated, vec_collector MongoConnectionsClosed,
     vec_collector MongoCheckoutsStarted, vec_collector MongoCheckoutsFailed,
     vec_collector MongoCheckoutsSucceeded, vec_collector MongoCheckins]"

definition prom_vecs :: "'h collector list" where
  "prom_vecs = [vec_collector RequestsTotal, vec_collector RequestLatencySeconds, vec_collector PanicsTotal]"

definition mongo_init :: "'h data_env \<Rightarrow> ('h pool_world, unit) io" where
  "mongo_init env = MustRegister env mongo_vecs"

definition prom_init :: "'h data_env \<Rightarrow> ('h pool_world, unit) io" where
  "prom_init env = MustRegister env prom_vecs"

text \<open>The \<open>init\<close> functions of a package run in the order of its file names.\<close>

definition metric_init :: "'h data_env \<Rightarrow> ('h pool_world, unit) io" where
  "metric_init env = io_then (mongo_init env) (prom_init env)"

section \<open>What is relied on of the drivers and the registry\<close>

definition opens :: "'h pool_world \<Rightarrow> 'h \<Rightarrow> 'h pool_world \<Rightarrow> bool" where
  "opens w h w' \<longleftrightarrow> h \<notin> pw_open w \<and> pw_open w' = insert h (pw_open w) \<and> pw_reg w' = pw_reg w"

definition untouched :: "'h pool_world \<Rightarrow> 'h pool_world \<Rightarrow> bool" where
  "untouched w w' \<longleftrightarrow> pw_open w' = pw_open w \<and> pw_reg w' = pw_reg w"

text \<open>
  Opening makes a new handle or fails without one; a ping leaves both views alone; closing removes
  the handle, whatever it reports. The registry refuses a collector that describes a metric some
  registered collector describes already; unregistering removes the collector that describes the
  same set of metrics.
\<close>

definition open_law :: "'h data_env \<Rightarrow> bool" where
  "open_law env \<longleftrightarrow>
     (\<forall>dsn w w' e. sql_Open env dsn w = (Inl e, w') \<longrightarrow> untouched w w') \<and>
     (\<forall>dsn w w' h. sql_Open env dsn w = (Inr h, w') \<longrightarrow> opens w h w') \<and>
     (\<forall>opts w w' h. finite (pw_open w) \<longrightarrow> redis_NewClient env opts w = (h, w') \<longrightarrow> opens w h w') \<and>
     (\<forall>d uri n w w' e. mongo_Connect env d uri n w = (Inl e, w') \<longrightarrow> untouched w w') \<and>
     (\<forall>d uri n w w' h. mongo_Connect env d uri n w = (Inr h, w') \<longrightarrow> opens w h w')"

definition handle_law :: "'h data_env \<Rightarrow> bool" where
  "handle_law env \<longleftrightarrow>
     (\<forall>d h w. untouched w (snd (ping env d h w))) \<and>
     (\<forall>d h w. pw_open (snd (close_handle env d h w)) = pw_open w - {h} \<and>
        pw_reg (snd (close_handle env d h w)) = pw_reg w)"

definition clashes :: "(string set \<Rightarrow> 'h collector option) \<Rightarrow> string list \<Rightarrow> bool" where
  "clashes reg ds \<longleftrightarrow> (\<exists>S \<in> dom reg. S \<inter> set ds \<noteq> {})"

lemma registered_clashes: "reg (set ds) = Some c \<Longrightarrow> ds \<noteq> [] \<Longrightarrow> clashes reg ds"
  unfolding clashes_def by (intro bexI [of _ "set ds"]) auto

definition registry_law :: "'h data_env \<Rightarrow> bool" where
  "registry_law env \<longleftrightarrow>
     (\<forall>c w. pw_open (snd (prom_Register env c w)) = pw_open w \<and>
        (fst (prom_Register env c w) = None \<longleftrightarrow> \<not> clashes (pw_reg w) (Describe c)) \<and>
        pw_reg (snd (prom_Register env c w)) =
          (if clashes (pw_reg w) (Describe c) then pw_reg w else (pw_reg w)(set (Describe c) \<mapsto> c))) \<and>
     (\<forall>c w. pw_open (prom_Unregister env c w) = pw_open w \<and>
        pw_reg (prom_Unregister env c w) = (pw_reg w)(set (Describe c) := None))"

definition env_law :: "'h data_env \<Rightarrow> bool" where
  "env_law env \<longleftrightarrow> open_law env \<and> handle_law env \<and> registry_law env"

lemma sql_Open_law:
  assumes "env_law env" and "sql_Open env dsn w = (r, w')"
  shows "case r of Inl e \<Rightarrow> untouched w w' | Inr h \<Rightarrow> opens w h w'"
proof (cases r)
  case (Inl e)
  then have "sql_Open env dsn w = (Inl e, w')"
    using assms(2) by simp
  then have "untouched w w'"
    using assms(1) unfolding env_law_def open_law_def by metis
  with Inl show ?thesis by simp
next
  case (Inr h)
  then have "sql_Open env dsn w = (Inr h, w')"
    using assms(2) by simp
  then have "opens w h w'"
    using assms(1) unfolding env_law_def open_law_def by metis
  with Inr show ?thesis by simp
qed

lemma redis_NewClient_law:
  assumes "env_law env" and "finite (pw_open w)" and "redis_NewClient env opts w = (h, w')"
  shows "opens w h w'"
  using assms unfolding env_law_def open_law_def by metis

lemma mongo_Connect_law:
  assumes "env_law env" and "mongo_Connect env d uri n w = (r, w')"
  shows "case r of Inl e \<Rightarrow> untouched w w' | Inr h \<Rightarrow> opens w h w'"
proof (cases r)
  case (Inl e)
  then have "mongo_Connect env d uri n w = (Inl e, w')"
    using assms(2) by simp
  then have "untouched w w'"
    using assms(1) unfolding env_law_def open_law_def by metis
  with Inl show ?thesis by simp
next
  case (Inr h)
  then have "mongo_Connect env d uri n w = (Inr h, w')"
    using assms(2) by simp
  then have "opens w h w'"
    using assms(1) unfolding env_law_def open_law_def by metis
  with Inr show ?thesis by simp
qed

lemma ping_law:
  assumes "env_law env" and "ping env d h w = (e, w')"
  shows "untouched w w'"
proof -
  have "untouched w (snd (ping env d h w))"
    using assms(1) unfolding env_law_def handle_law_def by blast
  with assms(2) show ?thesis by simp
qed

lemma close_law:
  assumes "env_law env"
  shows "pw_open (snd (close_handle env d h w)) = pw_open w - {h}"
    and "pw_reg (snd (close_handle env d h w)) = pw_reg w"
  using assms unfolding env_law_def handle_law_def by blast+

lemma register_law:
  assumes "env_law env"
  shows "pw_open (snd (prom_Register env c w)) = pw_open w"
    and "fst (prom_Register env c w) = None \<longleftrightarrow> \<not> clashes (pw_reg w) (Describe c)"
    and "pw_reg (snd (prom_Register env c w)) =
      (if clashes (pw_reg w) (Describe c) then pw_reg w else (pw_reg w)(set (Describe c) \<mapsto> c))"
  using assms unfolding env_law_def registry_law_def by blast+

lemma unregister_law:
  assumes "env_law env"
  shows "pw_open (prom_Unregister env c w) = pw_open w"
    and "pw_reg (prom_Unregister env c w) = (pw_reg w)(set (Describe c) := None)"
  using assms unfolding env_law_def registry_law_def by blast+

lemmas env_laws = close_law register_law unregister_law

lemma logf_views [simp]:
  "pw_open (pool_logf l m w) = pw_open w" "pw_reg (pool_logf l m w) = pw_reg w"
  "pw_open (apply_setting h s w) = pw_open w" "pw_reg (apply_setting h s w) = pw_reg w"
  by (simp_all add: pool_logf_def apply_setting_def)

lemma close_log_views:
  assumes "env_law env"
  shows "pw_open (case close_handle env d h w of (Some e, w') \<Rightarrow> pool_logf l (m e) w' | (None, w') \<Rightarrow> pool_logf l' m' w')
      = pw_open w - {h}"
    and "pw_reg (case close_handle env d h w of (Some e, w') \<Rightarrow> pool_logf l (m e) w' | (None, w') \<Rightarrow> pool_logf l' m' w')
      = pw_reg w"
  using close_law [OF assms, of d h w] by (cases "close_handle env d h w"; cases "fst (close_handle env d h w)"; simp)+

lemma cleanup_views:
  assumes "env_law env"
  shows "pw_open (mysql_cleanup env h c w) = pw_open w - {h}"
    and "pw_open (redis_cleanup env h c w) = pw_open w - {h}"
    and "pw_open (mongo_cleanup env h w) = pw_open w - {h}"
    and "pw_reg (mysql_cleanup env h c w) = (pw_reg w)(set (Describe c) := None)"
  unfolding mysql_cleanup_def redis_cleanup_def mongo_cleanup_def
  by (simp_all add: close_log_views [OF assms] unregister_law [OF assms])

text \<open>
  A factory that never leaks: on an error no handle is left open and nothing is registered; on
  success exactly the returned handle was opened, and running its cleanup closes it.
\<close>

definition leak_free :: "'h pool_world \<Rightarrow> 'h made \<Rightarrow> bool" where
  "leak_free w m \<longleftrightarrow>
     (case m of
        (Inl e, w') \<Rightarrow> untouched w w'
      | (Inr (h, cleanup), w') \<Rightarrow> h \<notin> pw_open w \<and> pw_open w' = insert h (pw_open w) \<and>
          pw_open (cleanup w') = pw_open w)"

text \<open>The client in what a factory made.\<close>

definition map_made :: "('a \<Rightarrow> 'h) \<Rightarrow> ('h, 'a) made_of \<Rightarrow> 'h made" where
  "map_made client m =
     (case m of (Inl e, w) \<Rightarrow> (Inl e, w) | (Inr (x, cleanup), w) \<Rightarrow> (Inr (client x, cleanup), w))"

lemma map_made_simps [simp]:
  "map_made f (Inl e, w) = (Inl e, w)"
  "map_made f (Inr (x, cleanup), w) = (Inr (f x, cleanup), w)"
  by (simp_all add: map_made_def)

lemma ping_failed_closed:
  assumes "env_law env" and "opens w h w1" and "untouched w1 w2"
  shows "untouched w (snd (close_handle env d h w2))"
  using assms(2,3) by (simp add: untouched_def opens_def close_law [OF assms(1)])

lemma register_views:
  assumes "env_law env"
  shows "pw_open (case prom_Register env c w of (Some e, w') \<Rightarrow> pool_logf l (m e) w' | (None, w') \<Rightarrow> w') = pw_open w"
    and "pw_reg (case prom_Register env c w of (Some e, w') \<Rightarrow> pool_logf l (m e) w' | (None, w') \<Rightarrow> w') =
      (if clashes (pw_reg w) (Describe c) then pw_reg w else (pw_reg w)(set (Describe c) \<mapsto> c))"
  using register_law [OF assms, of c w]
  by (cases "prom_Register env c w"; cases "fst (prom_Register env c w)"; simp)+

text \<open>What a successful \<open>NewMySQL\<close> has done, and the two ways it fails.\<close>

lemma NewMySQL_cases:
  assumes law: "env_law env"
  obtains (error) e w' where "NewMySQL env cfg w = (Inl e, w')" and "untouched w w'"
  | (made) db w' where
      "NewMySQL env cfg w = (Inr (db, mysql_cleanup env db (NewSQLCollector db (my_Name cfg))), w')"
      "db \<notin> pw_open w" "pw_open w' = insert db (pw_open w)"
      "pw_reg w' = (if clashes (pw_reg w) descSQL then pw_reg w
         else (pw_reg w)(set descSQL \<mapsto> NewSQLCollector db (my_Name cfg)))"
proof (cases "my_DSN cfg = []")
  case True
  then show thesis
    by (intro error) (simp_all add: NewMySQL_def untouched_def)
next
  case False
  obtain r w1 where o: "sql_Open env (my_DSN cfg) w = (r, w1)"
    by (cases "sql_Open env (my_DSN cfg) w")
  note opened = sql_Open_law [OF law o]
  show thesis
  proof (cases r)
    case (Inl e)
    then show thesis
      using opened False o by (intro error [of "WrapError ''mysql: open'' e" w1]) (simp_all add: NewMySQL_def)
  next
    case (Inr db)
    define w2 where "w2 = apply_setting db (ConnMaxLifetimeSet (defaultDuration (my_ConnMaxLifetime cfg) (1800 * second)))
      (apply_setting db (MaxIdleConnsSet (defaultInt (my_MaxIdleConns cfg) 5))
      (apply_setting db (MaxOpenConnsSet (defaultInt (my_MaxOpenConns cfg) 10)) w1))"
    obtain pe w3 where p: "ping env (defaultDuration (my_PingTimeout cfg) (3 * second)) db w2 = (pe, w3)"
      by (cases "ping env (defaultDuration (my_PingTimeout cfg) (3 * second)) db w2")
    have w3: "untouched w1 w3"
      using ping_law [OF law p] by (simp add: untouched_def w2_def)
    show thesis
    proof (cases pe)
      case (Some e)
      then show thesis
        using False o Inr p opened
        by (intro error [of "WrapError ''mysql: ping'' e" "snd (close_handle env None db w3)"]
              ping_failed_closed [OF law _ w3])
           (simp_all add: NewMySQL_def Let_def w2_def)
    next
      case None
      let ?c = "NewSQLCollector db (my_Name cfg)"
      define w6 where "w6 = (case prom_Register env ?c (pool_logf LevelInfo ''mysql connected'' w3) of
         (Some e, w5) \<Rightarrow> pool_logf LevelWarn (''mysql pool collector register: '' @ de_text env e) w5
       | (None, w5) \<Rightarrow> w5)"
      have "NewMySQL env cfg w = (Inr (db, mysql_cleanup env db ?c), w6)"
        using False o Inr p None by (simp add: NewMySQL_def Let_def w2_def w6_def)
      moreover have "pw_open w6 = pw_open w3" and "pw_reg w6 =
          (if clashes (pw_reg w3) (Describe ?c) then pw_reg w3 else (pw_reg w3)(set (Describe ?c) \<mapsto> ?c))"
        unfolding w6_def by (simp_all add: register_views [OF law])
      ultimately show thesis
        using opened Inr w3
        by (intro made [of db w6]) (simp_all add: opens_def untouched_def NewSQLCollector_def)
    qed
  qed
qed

lemma NewMySQL_leak_free:
  assumes "env_law env"
  shows "leak_free w (NewMySQL env cfg w)"
  using assms by (cases rule: NewMySQL_cases [of env cfg w]) (auto simp: leak_free_def cleanup_views [OF assms])

lemma NewRedis_leak_free:
  assumes law: "env_law env" and fin: "finite (pw_open w)"
  shows "leak_free w (NewRedis env cfg w)"
proof (cases "rc_Addr cfg = []")
  case False
  define opts where "opts = \<lparr>ro_Addr = rc_Addr cfg, ro_Username = rc_Username cfg, ro_Password = rc_Password cfg,
    ro_DB = rc_DB cfg, ro_DialTimeout = defaultDuration (rc_DialTimeout cfg) (3 * second),
    ro_ReadTimeout = defaultDuration (rc_ReadTimeout cfg) second,
    ro_WriteTimeout = defaultDuration (rc_WriteTimeout cfg) second\<rparr>"
  obtain h w1 where o: "redis_NewClient env opts w = (h, w1)"
    by (cases "redis_NewClient env opts w")
  note opened = redis_NewClient_law [OF law fin o]
  obtain pe w2 where p: "ping env (defaultDuration (rc_PingTimeout cfg) (3 * second)) h w1 = (pe, w2)"
    by (cases "ping env (defaultDuration (rc_PingTimeout cfg) (3 * second)) h w1")
  note w2 = ping_law [OF law p]
  show ?thesis
  proof (cases pe)
    case (Some e)
    then show ?thesis
      using False o p ping_failed_closed [OF law opened w2]
      by (simp add: NewRedis_def Let_def leak_free_def opts_def)
  next
    case None
    define w5 where "w5 = (case prom_Register env (NewRedisCollector h (rc_Name cfg))
        (pool_logf LevelInfo ''redis connected'' w2) of
       (Some e, w4) \<Rightarrow> pool_logf LevelWarn (''redis pool collector register: '' @ de_text env e) w4
     | (None, w4) \<Rightarrow> w4)"
    have "pw_open w5 = insert h (pw_open w)" and "h \<notin> pw_open w"
      using opened w2 by (simp_all add: w5_def register_views [OF law] opens_def untouched_def)
    moreover have "NewRedis env cfg w =
        (Inr (h, redis_cleanup env h (NewRedisCollector h (rc_Name cfg))), w5)"
      using False o p None by (simp add: NewRedis_def Let_def opts_def w5_def)
    ultimately show ?thesis
      by (simp add: leak_free_def cleanup_views [OF law])
  qed
qed (simp add: NewRedis_def leak_free_def untouched_def)

lemma NewMongo_leak_free:
  assumes law: "env_law env"
  shows "leak_free w (map_made Client (NewMongo env cfg w))"
proof (cases "mc_URI cfg = []")
  case False
  let ?name = "if mc_Name cfg = [] then ''default'' else mc_Name cfg"
  let ?d = "defaultDuration (mc_ConnectTimeout cfg) (10 * second)"
  obtain r w1 where o: "mongo_Connect env ?d (mc_URI cfg) ?name w = (r, w1)"
    by (cases "mongo_Connect env ?d (mc_URI cfg) ?name w")
  note opened = mongo_Connect_law [OF law o]
  show ?thesis
  proof (cases r)
    case (Inl e)
    then show ?thesis
      using False o opened by (simp add: NewMongo_def Let_def leak_free_def)
  next
    case (Inr h)
    obtain pe w2 where p: "ping env (defaultDuration (mc_PingTimeout cfg) (3 * second)) h w1 = (pe, w2)"
      by (cases "ping env (defaultDuration (mc_PingTimeout cfg) (3 * second)) h w1")
    note w2 = ping_law [OF law p]
    have op: "opens w h w1"
      using opened Inr by simp
    show ?thesis
      using False o Inr p op w2 ping_failed_closed [OF law op w2]
      by (cases pe)
         (auto simp: NewMongo_def Let_def leak_free_def cleanup_views [OF law] opens_def untouched_def)
  qed
qed (simp add: NewMongo_def leak_free_def untouched_def)

section \<open>Properties\<close>

text \<open>
  C23. No connection leaks at startup: for MySQL, Redis and Mongo alike, when the factory returns an
  error no client it opened is left open and no collector registered; when it succeeds, exactly the
  returned client was opened, and its cleanup function closes it again.
\<close>

theorem factories_leak_free:
  assumes "env_law env" and "finite (pw_open w)"
  shows "leak_free w (NewMySQL env my w) \<and> leak_free w (NewRedis env rc w) \<and>
    leak_free w (map_made Client (NewMongo env mc w))"
  using NewMySQL_leak_free [OF assms(1)] NewRedis_leak_free [OF assms] NewMongo_leak_free [OF assms(1)]
  by blast

text \<open>A concrete environment: handles are numbers, and the database answers pings iff \<open>up\<close>.\<close>

definition demo_open :: "nat pool_world \<Rightarrow> nat \<times> nat pool_world" where
  "demo_open w = (let h = Suc (Max (insert 0 (pw_open w))) in (h, w\<lparr>pw_open := insert h (pw_open w)\<rparr>))"

definition demo_env :: "bool \<Rightarrow> nat data_env" where
  "demo_env up = \<lparr>
     sql_Open = (\<lambda>_ w. if finite (pw_open w) then map_prod Inr (\<lambda>w. w) (demo_open w) else (Inl Canceled, w)),
     redis_NewClient = (\<lambda>_ w. demo_open w),
     mongo_Connect = (\<lambda>_ _ _ w. if finite (pw_open w) then map_prod Inr (\<lambda>w. w) (demo_open w) else (Inl Canceled, w)),
     ping = (\<lambda>_ _ w. (if up then None else Some Canceled, w)),
     close_handle = (\<lambda>_ h w. (None, w\<lparr>pw_open := pw_open w - {h}\<rparr>)),
     prom_Register = (\<lambda>c w. if clashes (pw_reg w) (Describe c) then (Some Canceled, w)
        else (None, w\<lparr>pw_reg := (pw_reg w)(set (Describe c) \<mapsto> c)\<rparr>)),
     prom_Unregister = (\<lambda>c w. w\<lparr>pw_reg := (pw_reg w)(set (Describe c) := None)\<rparr>),
     de_text = (\<lambda>_. ''err'')\<rparr>"

lemma demo_open_law:
  assumes "finite (pw_open w)" and "demo_open w = (h, w')"
  shows "opens w h w'"
proof -
  have "h \<notin> pw_open w"
  proof
    assume "h \<in> pw_open w"
    then have "h \<le> Max (insert 0 (pw_open w))"
      using assms(1) by (intro Max_ge) auto
    then show False
      using assms(2) by (auto simp: demo_open_def Let_def)
  qed
  with assms(2) show ?thesis
    by (auto simp: opens_def demo_open_def Let_def)
qed

lemma demo_open_Inr:
  "map_prod Inr (\<lambda>w. w) p = (r, w') \<longleftrightarrow> (\<exists>h. p = (h, w') \<and> r = Inr h)"
  by (cases p) auto

lemma demo_env_law: "env_law (demo_env up)"
  by (auto simp: env_law_def open_law_def handle_law_def registry_law_def demo_env_def untouched_def
      demo_open_Inr dest: demo_open_law split: if_splits)

definition demo_pools :: "nat pool_world" where
  "demo_pools = \<lparr>pw_open = {}, pw_reg = Map.empty, pw_log = [], pw_set = []\<rparr>"

definition demo_mysql :: "string \<Rightarrow> MySQLConfig" where
  "demo_mysql name = \<lparr>my_Name = name, my_DSN = ''dsn'', my_MaxOpenConns = 0, my_MaxIdleConns = 0,
     my_ConnMaxLifetime = 0, my_PingTimeout = 0\<rparr>"

definition demo_redis :: RedisConfig where
  "demo_redis = \<lparr>rc_Name = [], rc_Addr = ''a:1'', rc_Username = [], rc_Password = [], rc_DB = 0,
     rc_DialTimeout = 0, rc_ReadTimeout = 0, rc_WriteTimeout = 0, rc_PingTimeout = 0\<rparr>"

definition demo_mongo :: MongoConfig where
  "demo_mongo = \<lparr>mc_Name = [], mc_URI = ''u'', mc_Database = ''d'', mc_ConnectTimeout = 0, mc_PingTimeout = 0\<rparr>"

theorem factories_leak_free_witness:
  "leak_free demo_pools (NewMySQL (demo_env False) (demo_mysql ''a'') demo_pools) \<and>
   leak_free demo_pools (NewRedis (demo_env False) demo_redis demo_pools) \<and>
   leak_free demo_pools (map_made Client (NewMongo (demo_env False) demo_mongo demo_pools))"
  by (rule factories_leak_free [OF demo_env_law]) (simp add: demo_pools_def)

text \<open>
  C30. Two SQL pools in one process cannot both be observed: the descriptors do not depend on the
  pool's name, so the second pool's collector is refused although the names differ, and its cleanup
  unregisters the first pool's collector, which goes on being used without metrics.
\<close>

theorem second_pool_unregisters_first:
  assumes "env_law env" and "\<not> clashes (pw_reg w) descSQL"
    and "NewMySQL env cfg1 w = (Inr (db1, cleanup1), w1)"
    and "NewMySQL env cfg2 w1 = (Inr (db2, cleanup2), w2)"
  shows "pw_reg w1 (set descSQL) = Some (NewSQLCollector db1 (my_Name cfg1)) \<and> pw_reg w2 = pw_reg w1 \<and>
    pw_reg (cleanup2 w2) (set descSQL) = None \<and> db1 \<in> pw_open (cleanup2 w2)"
proof -
  have 1: "pw_reg w1 (set descSQL) = Some (NewSQLCollector db1 (my_Name cfg1))" "db1 \<in> pw_open w1"
    using assms(2,3) by (cases rule: NewMySQL_cases [OF assms(1), of cfg1 w]; simp)+
  have "clashes (pw_reg w1) descSQL"
    using registered_clashes [of "pw_reg w1" descSQL, OF 1(1)] by (simp add: descSQL_def)
  then have 2: "pw_reg w2 = pw_reg w1" "db2 \<notin> pw_open w1" "pw_open w2 = insert db2 (pw_open w1)"
    "cleanup2 = mysql_cleanup env db2 (NewSQLCollector db2 (my_Name cfg2))"
    using assms(4) by (cases rule: NewMySQL_cases [OF assms(1), of cfg2 w1]; simp)+
  show ?thesis
    using 1 2 by (auto simp: cleanup_views [OF assms(1)] NewSQLCollector_def)
qed

lemma demo_NewMySQL:
  assumes "finite (pw_open w)"
  shows "\<exists>db cleanup w'. NewMySQL (demo_env True) (demo_mysql name) w = (Inr (db, cleanup), w') \<and> finite (pw_open w')"
  using demo_env_law [of True]
proof (cases rule: NewMySQL_cases [of "demo_env True" "demo_mysql name" w])
  case (error e w')
  then show ?thesis
    using assms
    by (auto simp: NewMySQL_def demo_mysql_def demo_env_def demo_open_def Let_def split: prod.splits option.splits)
next
  case (made db w')
  then show ?thesis
    using assms by auto
qed

theorem second_pool_unregisters_first_witness:
  "\<exists>db1 c1 w1 db2 c2 w2. NewMySQL (demo_env True) (demo_mysql ''a'') demo_pools = (Inr (db1, c1), w1) \<and>
     NewMySQL (demo_env True) (demo_mysql ''b'') w1 = (Inr (db2, c2), w2) \<and>
     pw_reg w1 (set descSQL) \<noteq> None \<and> pw_reg (c2 w2) (set descSQL) = None \<and> db1 \<in> pw_open (c2 w2)"
proof -
  have none: "\<not> clashes (pw_reg demo_pools) descSQL"
    by (simp add: demo_pools_def clashes_def)
  obtain db1 c1 w1 where 1: "NewMySQL (demo_env True) (demo_mysql ''a'') demo_pools = (Inr (db1, c1), w1)"
    and fin: "finite (pw_open w1)"
    using demo_NewMySQL [of demo_pools "''a''"] by (auto simp: demo_pools_def)
  obtain db2 c2 w2 where 2: "NewMySQL (demo_env True) (demo_mysql ''b'') w1 = (Inr (db2, c2), w2)"
    using demo_NewMySQL [OF fin, of "''b''"] by blast
  show ?thesis
    using second_pool_unregisters_first [OF demo_env_law none 1 2] 1 2
    by (intro exI [of _ db1] exI [of _ c1] exI [of _ w1] exI [of _ db2] exI [of _ c2] exI [of _ w2]) simp
qed

text \<open>
  Collectors are consistent: for any pool figures, exactly the described metrics are collected,
  in the described order, each once and all under the pool's name.
\<close>

theorem collectors_consistent:
  assumes "length (stats h) = length (Describe c)" and "c = SQLCollector h name \<or> c = RedisCollector h name"
  shows "map fst (Collect samples stats c) = Describe c \<and> distinct (Describe c) \<and>
    (\<forall>m \<in> set (Collect samples stats c). snd (snd (snd m)) = name)"
proof -
  have "distinct descSQL" "distinct descRedis"
    by (simp_all add: descSQL_def descRedis_def)
  then show ?thesis
    using assms
    by (auto simp: descSQL_def descRedis_def length_Suc_conv numeral_eq_Suc)
qed

theorem collectors_consistent_witness:
  "map fst (Collect (\<lambda>_. []) (\<lambda>_. [1, 2, 3, 4, 5]) (SQLCollector () ''a'')) = Describe (SQLCollector () ''a'')"
  using collectors_consistent [of "\<lambda>_. [1, 2, 3, 4, 5]" "()" "SQLCollector () ''a''" "''a''"]
  by (simp add: descSQL_def)

section \<open>Initialisation\<close>

text \<open>Everything described by a registered collector.\<close>

definition described :: "(string set \<Rightarrow> 'h collector option) \<Rightarrow> string set" where
  "described reg = \<Union> (dom reg)"

lemma clashes_described: "clashes reg ds \<longleftrightarrow> described reg \<inter> set ds \<noteq> {}"
  by (auto simp: clashes_def described_def)

lemma described_register: "described (reg(set ds \<mapsto> c)) = described reg \<union> set ds"
  if "\<not> clashes reg ds" and "ds \<noteq> []"
proof -
  have "reg (set ds) = None"
    using registered_clashes [of reg ds] that by fastforce
  then show ?thesis
    by (auto simp: described_def)
qed

lemma MustRegister_ok:
  assumes "env_law env" and "distinct (concat (map Describe cs))" and "\<forall>c \<in> set cs. Describe c \<noteq> []"
    and "described (pw_reg w) \<inter> set (concat (map Describe cs)) = {}"
  shows "\<exists>w'. MustRegister env cs w = (Ok (), w') \<and> pw_open w' = pw_open w \<and>
    described (pw_reg w') = described (pw_reg w) \<union> set (concat (map Describe cs))"
  using assms(2-4)
proof (induction cs arbitrary: w)
  case Nil
  then show ?case by (simp add: io_ret_def)
next
  case (Cons c cs)
  obtain e w1 where reg: "prom_Register env c w = (e, w1)"
    by (cases "prom_Register env c w")
  have free: "\<not> clashes (pw_reg w) (Describe c)"
    using Cons.prems(3) by (auto simp: clashes_described)
  then have "e = None" "pw_open w1 = pw_open w" "pw_reg w1 = (pw_reg w)(set (Describe c) \<mapsto> c)"
    using register_law [OF assms(1), of c w] reg by auto
  moreover have "described (pw_reg w1) = described (pw_reg w) \<union> set (Describe c)"
    using described_register [OF free] Cons.prems(2) calculation(3) by simp
  moreover have "\<exists>w'. MustRegister env cs w1 = (Ok (), w') \<and> pw_open w' = pw_open w1 \<and>
      described (pw_reg w') = described (pw_reg w1) \<union> set (concat (map Describe cs))"
    using Cons.prems calculation(4) by (intro Cons.IH) auto
  ultimately show ?case
    using reg by (auto simp: io_simps)
qed

text \<open>
  Package initialisation is safe: as long as nothing registered before has a metric of the \<open>kris_\<close>
  family, registering the vectors does not panic, and it leaves room for the pool collectors: the first
  MySQL and the first Redis collector that are registered afterwards are accepted.
\<close>

theorem metric_init_ok:
  fixes w :: "'h pool_world"
  assumes "env_law env" and "\<And>d. d \<in> described (pw_reg w) \<Longrightarrow> take 5 d \<noteq> ''kris_''"
  shows "\<exists>w'. metric_init env w = (Ok (), w') \<and> pw_open w' = pw_open w \<and>
    (\<forall>db name. fst (prom_Register env (NewSQLCollector db name) w') = None) \<and>
    (\<forall>cli name. fst (prom_Register env (NewRedisCollector cli name) w') = None)"
proof -
  let ?M = "mongo_vecs :: 'h collector list" and ?P = "prom_vecs :: 'h collector list"
  have kris: "\<forall>d \<in> set (concat (map Describe ?M)) \<union> set (concat (map Describe ?P)) \<union> set descSQL \<union> set descRedis.
      take 5 d = ''kris_''"
    by (simp add: mongo_vecs_def prom_vecs_def vec_collector_def metric_vecs descSQL_def descRedis_def)
  have new: "set (concat (map Describe ?M)) \<inter> set (concat (map Describe ?P)) = {}"
    "(set (concat (map Describe ?M)) \<union> set (concat (map Describe ?P))) \<inter> (set descSQL \<union> set descRedis) = {}"
    by (simp_all add: mongo_vecs_def prom_vecs_def vec_collector_def metric_vecs descSQL_def descRedis_def)
  have "\<exists>w1. mongo_init env w = (Ok (), w1) \<and> pw_open w1 = pw_open w \<and>
      described (pw_reg w1) = described (pw_reg w) \<union> set (concat (map Describe ?M))"
    unfolding mongo_init_def
  proof (rule MustRegister_ok [OF assms(1)])
    show "described (pw_reg w) \<inter> set (concat (map Describe ?M)) = {}"
      using kris assms(2) by blast
  qed (auto simp: mongo_vecs_def vec_collector_def metric_vecs)
  then obtain w1 where 1: "mongo_init env w = (Ok (), w1)" "pw_open w1 = pw_open w"
    "described (pw_reg w1) = described (pw_reg w) \<union> set (concat (map Describe ?M))" by blast
  have "\<exists>w2. prom_init env w1 = (Ok (), w2) \<and> pw_open w2 = pw_open w1 \<and>
      described (pw_reg w2) = described (pw_reg w1) \<union> set (concat (map Describe ?P))"
    unfolding prom_init_def
  proof (rule MustRegister_ok [OF assms(1)])
    show "described (pw_reg w1) \<inter> set (concat (map Describe ?P)) = {}"
      using kris assms(2) new(1) unfolding 1(3) by blast
  qed (auto simp: prom_vecs_def vec_collector_def metric_vecs)
  then obtain w2 where 2: "prom_init env w1 = (Ok (), w2)" "pw_open w2 = pw_open w1"
    "described (pw_reg w2) = described (pw_reg w1) \<union> set (concat (map Describe ?P))" by blast
  have "\<not> clashes (pw_reg w2) descSQL" "\<not> clashes (pw_reg w2) descRedis"
    using kris assms(2) new(2) unfolding clashes_described 1(3) 2(3) by blast+
  with 1 2 show ?thesis
    using register_law(2) [OF assms(1)]
    by (simp add: metric_init_def io_simps NewSQLCollector_def NewRedisCollector_def)
qed

theorem metric_init_ok_witness:
  "\<exists>w'. metric_init (demo_env True) demo_pools = (Ok (), w') \<and>
    fst (prom_Register (demo_env True) (NewSQLCollector 1 ''a'') w') = None"
  using metric_init_ok [OF demo_env_law, of demo_pools True]
  by (auto simp: demo_pools_def described_def)

section \<open>Pool events\<close>

fun is_mongo_inc :: "string \<Rightarrow> string \<Rightarrow> event \<Rightarrow> bool" where
  "is_mongo_inc metric name (CounterInc m (n # _)) = (m = metric \<and> n = name)"
| "is_mongo_inc metric name _ = False"

fun mongo_counter :: "pool_event_type \<Rightarrow> string option" where
  "mongo_counter ConnectionCreated = Some (v_name MongoConnectionsCreated)"
| "mongo_counter ConnectionClosed = Some (v_name MongoConnectionsClosed)"
| "mongo_counter GetStarted = Some (v_name MongoCheckoutsStarted)"
| "mongo_counter GetFailed = Some (v_name MongoCheckoutsFailed)"
| "mongo_counter GetSucceeded = Some (v_name MongoCheckoutsSucceeded)"
| "mongo_counter ConnectionReturned = Some (v_name MongoCheckins)"
| "mongo_counter OtherPoolEvent = None"

text \<open>A pool reports its events one after the other.\<close>

fun report_events :: "(string \<times> pool_event_type \<times> string) list \<Rightarrow> ('l world, unit) io" where
  "report_events [] = io_ret ()"
| "report_events ((name, ty, reason) # es) =
     io_then (mongoEventHandler name ty reason) (report_events es)"

lemma mongo_counter_inj:
  "mongo_counter ty = Some m \<Longrightarrow> mongo_counter ty' = Some m \<longleftrightarrow> ty' = ty"
  by (cases ty; cases ty') (auto simp: mongo_counters)

lemma mongoEventHandler_run:
  obtains evs where "mongoEventHandler name ty reason w = (Ok (), w\<lparr>trace := trace w @ evs\<rparr>)"
    and "\<And>m n. length (filter (is_mongo_inc m n) evs) =
      (if mongo_counter ty = Some m \<and> name = n then 1 else 0)"
proof -
  let ?evs = "case mongo_counter ty of None \<Rightarrow> [] | Some m \<Rightarrow>
    [CounterInc m (name # (if ty \<in> {ConnectionClosed, GetFailed} then [unknown_reason reason] else []))]"
  show thesis
    by (rule that [of ?evs]; cases ty) (auto simp: mongoEventHandler_def emit_def io_simps)
qed

lemma report_events_run:
  "\<exists>evs. report_events es w = (Ok (), w\<lparr>trace := trace w @ evs\<rparr>) \<and>
     (\<forall>m n. length (filter (is_mongo_inc m n) evs) =
        length (filter (\<lambda>(name, ty, _). name = n \<and> mongo_counter ty = Some m) es))"
proof (induction es arbitrary: w)
  case Nil
  show ?case by (rule exI [of _ "[]"]) (simp add: io_ret_def)
next
  case (Cons e es)
  obtain name ty reason where e: "e = (name, ty, reason)" by (cases e)
  obtain evs where 1: "mongoEventHandler name ty reason w = (Ok (), w\<lparr>trace := trace w @ evs\<rparr>)"
    and n1: "\<And>m n. length (filter (is_mongo_inc m n) evs) =
      (if mongo_counter ty = Some m \<and> name = n then 1 else 0)"
    by (rule mongoEventHandler_run [of name ty reason w]) blast
  obtain evs' where 2: "report_events es (w\<lparr>trace := trace w @ evs\<rparr>) =
      (Ok (), w\<lparr>trace := (trace w @ evs) @ evs'\<rparr>)"
    and n2: "\<forall>m n. length (filter (is_mongo_inc m n) evs') =
      length (filter (\<lambda>(name, ty, _). name = n \<and> mongo_counter ty = Some m) es)"
    using Cons.IH [of "w\<lparr>trace := trace w @ evs\<rparr>"] by auto
  show ?case
    by (rule exI [of _ "evs @ evs'"]) (simp add: e 1 2 n1 n2 io_simps)
qed

text \<open>
  Mongo pool events are counted exactly: after any sequence of events from any number of pools,
  the counter of an event kind has grown, under each pool's name, by the number of events of that kind
  that pool reported, and events of unknown kinds are ignored.
\<close>

theorem mongo_events_counted:
  "\<exists>evs. report_events es w = (Ok (), w\<lparr>trace := trace w @ evs\<rparr>) \<and>
     (\<forall>name. length (filter (is_mongo_inc (v_name MongoConnectionsCreated) name) evs) =
          count_list (map (\<lambda>(n, ty, _). (n, ty)) es) (name, ConnectionCreated) \<and>
        length (filter (is_mongo_inc (v_name MongoConnectionsClosed) name) evs) =
          count_list (map (\<lambda>(n, ty, _). (n, ty)) es) (name, ConnectionClosed) \<and>
        length (filter (is_mongo_inc (v_name MongoCheckoutsStarted) name) evs) =
          count_list (map (\<lambda>(n, ty, _). (n, ty)) es) (name, GetStarted) \<and>
        length (filter (is_mongo_inc (v_name MongoCheckoutsFailed) name) evs) =
          count_list (map (\<lambda>(n, ty, _). (n, ty)) es) (name, GetFailed) \<and>
        length (filter (is_mongo_inc (v_name MongoCheckoutsSucceeded) name) evs) =
          count_list (map (\<lambda>(n, ty, _). (n, ty)) es) (name, GetSucceeded) \<and>
        length (filter (is_mongo_inc (v_name MongoCheckins) name) evs) =
          count_list (map (\<lambda>(n, ty, _). (n, ty)) es) (name, ConnectionReturned))"
proof -
  have by_kind: "length (filter (\<lambda>(n, t, _). n = name \<and> mongo_counter t = Some m) es) =
      count_list (map (\<lambda>(n, ty, _). (n, ty)) es) (name, ty)" if "mongo_counter ty = Some m" for name m ty
    using mongo_counter_inj [OF that] by (induction es) auto
  obtain evs where run: "report_events es w = (Ok (), w\<lparr>trace := trace w @ evs\<rparr>)"
    and n: "\<And>m name. length (filter (is_mongo_inc m name) evs) =
      length (filter (\<lambda>(n, t, _). n = name \<and> mongo_counter t = Some m) es)"
    using report_events_run [of es w] by blast
  show ?thesis
    by (rule exI [of _ evs]) (simp only: run n by_kind mongo_counter.simps simp_thms)
qed

end
