(* ===== verification/Client.thy ===== *)
theory Client
  imports Data Retry Logid Recovery Server_Chain
begin

text \<open>
  Package \<open>client\<close> (pkg/client/grpc.go and http.go): the factories of downstream clients and the chain
  of client middlewares they install. kratos's default recovery, \<open>tracing.Client\<close> and the circuit
  breaker are parameters, gathered with the dialling functions in \<open>client_env\<close>. The connections a
  factory opens are tracked like the pools of \<open>Data\<close>.
\<close>

section \<open>Model\<close>

record RetryConfig =
  rt_MaxAttempts :: int
  rt_InitialBackoff :: duration
  rt_MaxBackoff :: duration

record ClientConfig =
  cc_Endpoint :: string
  cc_Timeout :: duration
  cc_DialTimeout :: duration
  cc_NoCircuitBreaker :: bool
  cc_Retry :: RetryConfig

text \<open>The configuration of the HTTP client has the same fields.\<close>

type_synonym HTTPClientConfig = ClientConfig

datatype ('l, 'q, 'r, 'x) client_option =
    WithEndpoint string
  | WithMiddleware "('l, 'q, 'r) middleware list"
  | WithClientTimeout duration
  | WithOptions "'x list"
  | ExtraOption 'x

record ('l, 'q, 'r, 'h, 'x) client_env =
  ce_recovery :: "('l, 'q, 'r) middleware"
  ce_tracing :: "('l, 'q, 'r) middleware"
  ce_breaker :: "('l, 'q, 'r) middleware"
  ce_chain :: "('l, 'q, 'r) middleware list \<Rightarrow> ('l, 'q, 'r) middleware"
  ce_select :: "'l timer_select"
  ce_dial :: "duration \<Rightarrow> ('l, 'q, 'r, 'x) client_option list \<Rightarrow> 'h pool_world \<Rightarrow> (error + 'h) \<times> 'h pool_world"
  ce_close :: "'h \<Rightarrow> 'h pool_world \<Rightarrow> error option \<times> 'h pool_world"
  ce_text :: "error \<Rightarrow> string"

definition retryOpts :: "RetryConfig \<Rightarrow> retry_Option list" where
  "retryOpts r =
     [WithMaxAttempts (rt_MaxAttempts r)] @
     (if 0 < sint (rt_InitialBackoff r) then [WithInitialBackoff (rt_InitialBackoff r)] else []) @
     (if 0 < sint (rt_MaxBackoff r) then [WithMaxBackoff (rt_MaxBackoff r)] else [])"

definition client_mws ::
  "('l, 'q, 'r, 'h, 'x) client_env \<Rightarrow> ClientConfig \<Rightarrow> ('l, 'q, 'r) middleware list" where
  "client_mws env cfg =
     [ce_recovery env, ce_tracing env, logid_Client] @
     (if 1 < rt_MaxAttempts (cc_Retry cfg)
      then [retry_Client (ce_select env) (retryOpts (cc_Retry cfg))] else []) @
     (if \<not> cc_NoCircuitBreaker cfg then [ce_breaker env] else [])"

definition dial_timeout :: "ClientConfig \<Rightarrow> duration" where
  "dial_timeout cfg = (if cc_DialTimeout cfg = 0 then 5 * second else cc_DialTimeout cfg)"

definition client_cleanup ::
  "('l, 'q, 'r, 'h, 'x) client_env \<Rightarrow> string \<Rightarrow> string \<Rightarrow> 'h \<Rightarrow> 'h pool_world \<Rightarrow> 'h pool_world" where
  "client_cleanup env failed closed conn w =
     (case ce_close env conn w of
        (Some e, w1) \<Rightarrow> pool_logf LevelError (failed @ ce_text env e) w1
      | (None, w1) \<Rightarrow> pool_logf LevelInfo closed w1)"

definition client_New ::
  "('l, 'q, 'r, 'h, 'x) client_env \<Rightarrow> ClientConfig \<Rightarrow> 'x list \<Rightarrow> 'h pool_world \<Rightarrow> 'h made" where
  "client_New env cfg extra w =
     (if cc_Endpoint cfg = [] then (Inl (ErrorString ''grpc client: empty Endpoint''), w)
      else
        (let opts = [WithEndpoint (cc_Endpoint cfg), WithMiddleware (client_mws env cfg)] @
               (if 0 < sint (cc_Timeout cfg) then [WithClientTimeout (cc_Timeout cfg)] else []) @
               (if extra \<noteq> [] then [WithOptions extra] else [])
         in case ce_dial env (dial_timeout cfg) opts w of
              (Inl e, w1) \<Rightarrow> (Inl (WrapError (''grpc client dial '' @ cc_Endpoint cfg) e), w1)
            | (Inr conn, w1) \<Rightarrow>
                (Inr (conn, client_cleanup env ''conn close: '' ''downstream closed'' conn),
                 pool_logf LevelInfo ''downstream connected'' w1)))"

definition client_NewHTTP ::
  "('l, 'q, 'r, 'h, 'x) client_env \<Rightarrow> HTTPClientConfig \<Rightarrow> 'x list \<Rightarrow> 'h pool_world \<Rightarrow> 'h made" where
  "client_NewHTTP env cfg extra w =
     (if cc_Endpoint cfg = [] then (Inl (ErrorString ''http client: empty Endpoint''), w)
      else
        (let opts = [WithEndpoint (cc_Endpoint cfg), WithMiddleware (client_mws env cfg)] @
               (if 0 < sint (cc_Timeout cfg) then [WithClientTimeout (cc_Timeout cfg)] else []) @
               map ExtraOption extra
         in case ce_dial env (dial_timeout cfg) opts w of
              (Inl e, w1) \<Rightarrow> (Inl (WrapError (''http client new '' @ cc_Endpoint cfg) e), w1)
            | (Inr cli, w1) \<Rightarrow>
                (Inr (cli, client_cleanup env ''http client close: '' ''http client closed'' cli),
                 pool_logf LevelInfo ''downstream http client ready'' w1)))"

section \<open>What is relied on\<close>

text \<open>
  kratos's recovery without a handler turns a panic into an error of its own; dialling returns a new
  connection or none; closing removes it.
\<close>

definition default_recovers :: "('l, 'q, 'r) middleware \<Rightarrow> bool" where
  "default_recovers mw \<longleftrightarrow>
     (\<forall>h c q w r w'. h c q w = (Ok r, w') \<longrightarrow> mw h c q w = (Ok r, w')) \<and>
     (\<forall>h c q w v w'. h c q w = (Panic v, w') \<longrightarrow> (\<exists>e w''. mw h c q w = (Ok (None, Some e), w''))) \<and>
     (\<forall>h c q w v w'. h c q w = (Crash v, w') \<longrightarrow> mw h c q w = (Crash v, w'))"

definition client_env_ok :: "('l, 'q, 'r, 'h, 'x) client_env \<Rightarrow> bool" where
  "client_env_ok env \<longleftrightarrow>
     default_recovers (ce_recovery env) \<and> spans_only (ce_tracing env) \<and> outer_first (ce_chain env) \<and>
     (\<forall>d opts w w' e. ce_dial env d opts w = (Inl e, w') \<longrightarrow> untouched w w') \<and>
     (\<forall>d opts w w' h. ce_dial env d opts w = (Inr h, w') \<longrightarrow> opens w h w') \<and>
     (\<forall>h w. pw_open (snd (ce_close env h w)) = pw_open w - {h})"

text \<open>What the caller of a recovered handler gets when the handler ends as \<open>inner\<close>.\<close>

definition call_outcome :: "'r gores res \<times> 'l world \<Rightarrow> 'r gores res \<times> 'l world \<Rightarrow> bool" where
  "call_outcome inner whole \<longleftrightarrow>
     (case inner of
        (Ok r, w2) \<Rightarrow> whole = (Ok r, w2)
      | (Panic v, w2) \<Rightarrow> (\<exists>e w3. whole = (Ok (None, Some e), w3))
      | (Crash v, w2) \<Rightarrow> whole = (Crash v, w2))"

lemma default_recovers_outcome:
  assumes "default_recovers mw"
  shows "call_outcome (h c q w) (mw h c q w)"
proof (cases "h c q w")
  case (Pair out w')
  show ?thesis
  proof (cases out)
    case (Ok r)
    then have "mw h c q w = (Ok r, w')"
      using assms Pair unfolding default_recovers_def by blast
    then show ?thesis by (simp add: call_outcome_def Pair Ok)
  next
    case (Panic v)
    then have "\<exists>e w''. mw h c q w = (Ok (None, Some e), w'')"
      using assms Pair unfolding default_recovers_def by blast
    then show ?thesis by (simp add: call_outcome_def Pair Panic)
  next
    case (Crash v)
    then have "mw h c q w = (Crash v, w')"
      using assms Pair unfolding default_recovers_def by blast
    then show ?thesis by (simp add: call_outcome_def Pair Crash)
  qed
qed

text \<open>The part of the chain inside trace-id propagation: retries around the breaker around the call.\<close>

definition attempts ::
  "('l, 'q, 'r, 'h, 'x) client_env \<Rightarrow> ClientConfig \<Rightarrow> ('l, 'q, 'r) middleware" where
  "attempts env cfg h =
     (let call = (if cc_NoCircuitBreaker cfg then h else ce_breaker env h)
      in if 1 < rt_MaxAttempts (cc_Retry cfg)
         then retry_Client (ce_select env) (retryOpts (cc_Retry cfg)) call else call)"

lemma client_chain_unfold:
  assumes "outer_first (ce_chain env)"
  shows "ce_chain env (client_mws env cfg) h =
    ce_recovery env (ce_tracing env (logid_Client (attempts env cfg h)))"
  using assms by (auto simp: outer_first_def client_mws_def attempts_def)

lemma client_cleanup_open:
  assumes "client_env_ok env"
  shows "pw_open (client_cleanup env a b h w) = pw_open w - {h}"
proof -
  have "pw_open (snd (ce_close env h w)) = pw_open w - {h}"
    using assms unfolding client_env_ok_def by blast
  then show ?thesis
    by (cases "ce_close env h w"; cases "fst (ce_close env h w)") (auto simp: client_cleanup_def)
qed

lemma client_New_made:
  "client_New env cfg extra w = (Inr (h, cleanup), w') \<Longrightarrow>
    cleanup = client_cleanup env ''conn close: '' ''downstream closed'' h"
  by (auto simp: client_New_def Let_def split: if_splits sum.splits prod.splits)

lemma client_leak_free:
  assumes "client_env_ok env"
  shows "leak_free w (client_New env cfg extra w)" and "leak_free w (client_NewHTTP env cfg extra w)"
proof -
  have dial: "(case r of Inl e \<Rightarrow> untouched w w1 | Inr h \<Rightarrow> opens w h w1)" if "ce_dial env d opts w = (r, w1)" for d opts r w1
    using assms that unfolding client_env_ok_def by (cases r) (simp, metis, simp)
  note facts = leak_free_def untouched_def opens_def client_cleanup_open [OF assms]
  show "leak_free w (client_New env cfg extra w)"
    unfolding client_New_def Let_def by (auto simp: facts dest!: dial split: prod.splits sum.splits)
  show "leak_free w (client_NewHTTP env cfg extra w)"
    unfolding client_NewHTTP_def Let_def by (auto simp: facts dest!: dial split: prod.splits sum.splits)
qed

section \<open>Properties\<close>

text \<open>
  C24. One outbound call through a client: the trace id is put on the request header once, before the
  first attempt, however many attempts follow; then the attempts run (each through the circuit
  breaker, when it is on) and their result is the caller's. No panic of an attempt reaches the
  caller.
\<close>

theorem client_call_spec:
  assumes "client_env_ok env" and "client_tr c = Some tr"
    and "logid_key c = Some i" and "i \<noteq> []"
  shows "\<exists>t. let c' = c\<lparr>otel_trace_id := t\<rparr>;
      w1 = w\<lparr>trace := trace w @ [RequestHeaderSet (tr_id tr) MetadataKey (logid_FromContext c')]\<rparr>
    in (t = None \<longrightarrow> logid_FromContext c' = i) \<and>
       call_outcome (attempts env cfg h c' q w1) (ce_chain env (client_mws env cfg) h c q w)"
proof -
  have ok: "default_recovers (ce_recovery env)" "spans_only (ce_tracing env)" "outer_first (ce_chain env)"
    using assms(1) by (simp_all add: client_env_ok_def)
  let ?in = "logid_Client (attempts env cfg h)"
  obtain t where t: "ce_tracing env ?in c q w = ?in (c\<lparr>otel_trace_id := t\<rparr>) q w" and "t \<noteq> Some []"
    using ok(2) unfolding spans_only_def by blast
  let ?c = "c\<lparr>otel_trace_id := t\<rparr>"
  let ?w = "w\<lparr>trace := trace w @ [RequestHeaderSet (tr_id tr) MetadataKey (logid_FromContext ?c)]\<rparr>"
  have "ce_tracing env ?in c q w = attempts env cfg h ?c q ?w"
    unfolding t using assms(2-4) \<open>t \<noteq> Some []\<close>
    by (intro logid_Client_reaches) (auto simp: logid_FromContext_def split: option.splits)
  then have "call_outcome (attempts env cfg h ?c q ?w) (ce_chain env (client_mws env cfg) h c q w)"
    using default_recovers_outcome [OF ok(1), of "ce_tracing env ?in" c q w]
    by (simp add: client_chain_unfold [OF ok(3)])
  then show ?thesis
    using assms(3) by (intro exI [of _ t]) (simp add: Let_def logid_FromContext_def)
qed

text \<open>A concrete environment: no spans, no breaker, dialling succeeds with a new number.\<close>

definition demo_recovery :: "('l, 'q, 'r) middleware" where
  "demo_recovery h c q w =
     (case h c q w of (Panic v, w') \<Rightarrow> (Ok (None, Some (KErr 500 ''UNKNOWN'' v None)), w') | r \<Rightarrow> r)"

definition demo_client_env :: "(unit, unit, string, nat, unit) client_env" where
  "demo_client_env = \<lparr>ce_recovery = demo_recovery, ce_tracing = (\<lambda>h c. h (c\<lparr>otel_trace_id := None\<rparr>)),
     ce_breaker = (\<lambda>h. h), ce_chain = (\<lambda>ms h. foldr (\<lambda>m h'. m h') ms h), ce_select = (\<lambda>_ _ w. (True, w)),
     ce_dial = (\<lambda>_ _ w. if finite (pw_open w) then map_prod Inr (\<lambda>w. w) (demo_open w) else (Inl Canceled, w)),
     ce_close = (\<lambda>h w. (None, w\<lparr>pw_open := pw_open w - {h}\<rparr>)), ce_text = (\<lambda>_. ''err'')\<rparr>"

lemma demo_client_env_ok: "client_env_ok demo_client_env"
proof -
  have "default_recovers (demo_recovery :: (unit, unit, string) middleware)"
    by (auto simp: default_recovers_def demo_recovery_def)
  then show ?thesis
    by (auto simp: client_env_ok_def demo_client_env_def spans_only_def outer_first_def untouched_def
        demo_open_Inr dest: demo_open_law split: if_splits)
qed

definition demo_client_cfg :: ClientConfig where
  "demo_client_cfg = \<lparr>cc_Endpoint = ''svc:1'', cc_Timeout = 0, cc_DialTimeout = 0, cc_NoCircuitBreaker = False,
     cc_Retry = \<lparr>rt_MaxAttempts = 0, rt_InitialBackoff = 0, rt_MaxBackoff = 0\<rparr>\<rparr>"

definition demo_out_ctx :: ctx where
  "demo_out_ctx = Background\<lparr>client_tr := Some demo_transport, logid_key := Some ''abc''\<rparr>"

theorem client_call_spec_witness:
  "\<exists>e w'. ce_chain demo_client_env (client_mws demo_client_env demo_client_cfg)
     (\<lambda>c q. io_panic ''boom'') demo_out_ctx () demo_world = (Ok (None, Some e), w')"
proof -
  have "client_tr demo_out_ctx = Some demo_transport" and "logid_key demo_out_ctx = Some ''abc''"
    by (simp_all add: demo_out_ctx_def)
  moreover have "attempts demo_client_env demo_client_cfg (\<lambda>c q. io_panic ''boom'') c () w = (Panic ''boom'', w)"
    for c w
    by (simp add: attempts_def demo_client_env_def demo_client_cfg_def io_panic_def)
  ultimately show ?thesis
    using client_call_spec [OF demo_client_env_ok, of demo_out_ctx demo_transport "''abc''" demo_world
        demo_client_cfg "\<lambda>c q. io_panic ''boom''" "()"]
    by (auto simp: Let_def call_outcome_def)
qed

text \<open>
  The retry settings a client ends up with: retries are installed exactly when more than one
  attempt is configured; then the attempt limit is the configured one, and each backoff bound is the
  configured one when it is positive and the package default otherwise.
\<close>

theorem client_retry_settings:
  "apply_opts retry_default_options (retryOpts r) =
     \<lparr>maxAttempts = rt_MaxAttempts r,
      initialBackoff = (if 0 < sint (rt_InitialBackoff r) then rt_InitialBackoff r else DefaultInitialBackoff),
      maxBackoff = (if 0 < sint (rt_MaxBackoff r) then rt_MaxBackoff r else DefaultMaxBackoff),
      retryOn = DefaultRetryOn\<rparr> \<and>
   length (client_mws env cfg) = 3 + (if 1 < rt_MaxAttempts (cc_Retry cfg) then 1 else 0) +
     (if cc_NoCircuitBreaker cfg then 0 else 1)"
  by (simp add: retryOpts_def WithMaxAttempts_def WithInitialBackoff_def WithMaxBackoff_def
      retry_default_options_def client_mws_def)

text \<open>
  Client factories never leak: without an endpoint nothing is dialled; when dialling fails there is
  no connection; otherwise exactly the returned connection was opened and its cleanup closes it.
\<close>

theorem client_factories_leak_free:
  assumes "client_env_ok env"
  shows "leak_free w (client_New env cfg extra w) \<and> leak_free w (client_NewHTTP env cfg extra w)"
  using client_leak_free [OF assms] by blast

theorem client_factories_leak_free_witness:
  "leak_free demo_pools (client_New demo_client_env demo_client_cfg [] demo_pools) \<and>
   leak_free demo_pools (client_NewHTTP demo_client_env demo_client_cfg [] demo_pools)"
  by (rule client_factories_leak_free [OF demo_client_env_ok])

end
