(* ===== verification/Testutil.thy ===== *)
theory Testutil
  imports Logid "HOL-Library.List_Lexorder" "HOL-Library.Char_ord"
begin

text \<open>
  Package \<open>testutil\<close> (pkg/testutil): the in-memory logger and the fake transport the package's tests
  run middlewares with. \<open>fmt\<close> prints levels and values through the parameters \<open>level_String\<close> and
  \<open>show_value\<close> (the verbs \<open>%s\<close> and \<open>%v\<close>).
\<close>

section \<open>The in-memory logger\<close>

record MemoryLogger =
  Lines :: "string list"
  Levels :: "log_level list"

definition NewMemoryLogger :: MemoryLogger where
  "NewMemoryLogger = \<lparr>Lines = [], Levels = []\<rparr>"

fun print_pairs :: "(gval \<Rightarrow> string) \<Rightarrow> gval list \<Rightarrow> string" where
  "print_pairs show_value (k # v # rest) =
     '' '' @ show_value k @ ''='' @ show_value v @ print_pairs show_value rest"
| "print_pairs show_value _ = []"

definition memory_Log ::
  "(log_level \<Rightarrow> string) \<Rightarrow> (gval \<Rightarrow> string) \<Rightarrow> log_level \<Rightarrow> gval list \<Rightarrow> MemoryLogger \<Rightarrow> MemoryLogger" where
  "memory_Log level_String show_value level kvs m =
     \<lparr>Lines = Lines m @ [''['' @ level_String level @ '']'' @ print_pairs show_value kvs],
      Levels = Levels m @ [level]\<rparr>"

definition LinesText :: "MemoryLogger \<Rightarrow> string" where
  "LinesText m = fold (\<lambda>l out. out @ l @ [CHR 0x0A]) (Lines m) []"

definition memory_Reset :: "MemoryLogger \<Rightarrow> MemoryLogger" where
  "memory_Reset m = m\<lparr>Lines := [], Levels := []\<rparr>"

section \<open>The fake transport\<close>

type_synonym fakeHeader = "string \<Rightarrow> string option"

definition fake_Get :: "fakeHeader \<Rightarrow> string \<Rightarrow> string" where
  "fake_Get h key = (case h key of Some v \<Rightarrow> v | None \<Rightarrow> [])"

definition fake_Set :: "fakeHeader \<Rightarrow> string \<Rightarrow> string \<Rightarrow> fakeHeader" where
  "fake_Set h key val = h(key \<mapsto> val)"

definition fake_Add :: "fakeHeader \<Rightarrow> string \<Rightarrow> string \<Rightarrow> fakeHeader" where
  "fake_Add h key val = h(key \<mapsto> val)"

text \<open>\<open>visit h\<close> lists the keys of \<open>h\<close> in the order in which \<open>range\<close> meets them, which Go leaves open.\<close>

definition fake_Keys :: "(fakeHeader \<Rightarrow> string list) \<Rightarrow> fakeHeader \<Rightarrow> string list" where
  "fake_Keys visit h = fold (\<lambda>k out. out @ [k]) (visit h) []"

definition fake_Values :: "fakeHeader \<Rightarrow> string \<Rightarrow> string list" where
  "fake_Values h key = (case h key of Some v \<Rightarrow> [v] | None \<Rightarrow> [])"

interpretation fake: carrier fake_Get fake_Set "\<lambda>k. k"
  by unfold_locales (simp add: fake_Get_def fake_Set_def)

record FakeTransport =
  ft_kind :: string
  ft_op :: string
  ft_req :: fakeHeader
  ft_rsp :: fakeHeader

type_synonym FakeTransportOption = "FakeTransport \<Rightarrow> FakeTransport"

definition WithKind :: "string \<Rightarrow> FakeTransportOption" where
  "WithKind k t = t\<lparr>ft_kind := k\<rparr>"

definition WithOp :: "string \<Rightarrow> FakeTransportOption" where
  "WithOp op t = t\<lparr>ft_op := op\<rparr>"

definition WithReqHeader :: "string \<Rightarrow> string \<Rightarrow> FakeTransportOption" where
  "WithReqHeader k v t = t\<lparr>ft_req := fake_Set (ft_req t) k v\<rparr>"

definition NewFakeTransport :: "FakeTransportOption list \<Rightarrow> FakeTransport" where
  "NewFakeTransport opts =
     apply_opts \<lparr>ft_kind = ''grpc'', ft_op = ''/test.Test/Test'', ft_req = Map.empty, ft_rsp = Map.empty\<rparr> opts"

definition fake_Kind :: "FakeTransport \<Rightarrow> string" where
  "fake_Kind t = ft_kind t"

definition fake_Endpoint :: "FakeTransport \<Rightarrow> string" where
  "fake_Endpoint t = ''fake://test''"

definition fake_Operation :: "FakeTransport \<Rightarrow> string" where
  "fake_Operation t = ft_op t"

definition fake_RequestHeader :: "FakeTransport \<Rightarrow> fakeHeader" where
  "fake_RequestHeader t = ft_req t"

definition fake_ReplyHeader :: "FakeTransport \<Rightarrow> fakeHeader" where
  "fake_ReplyHeader t = ft_rsp t"

lemmas fake_methods [simp] = fake_Kind_def fake_Operation_def fake_RequestHeader_def fake_ReplyHeader_def

text \<open>What a middleware reads through the interface \<open>Transporter\<close>, as transport number \<open>n\<close>.\<close>

definition fake_transporter :: "nat \<Rightarrow> FakeTransport \<Rightarrow> transporter" where
  "fake_transporter n t =
     \<lparr>tr_id = n, tr_kind = fake_Kind t, tr_operation = fake_Operation t,
      tr_request = fake_Get (fake_RequestHeader t)\<rparr>"

definition InjectServerContext :: "ctx \<Rightarrow> nat \<Rightarrow> FakeTransport \<Rightarrow> ctx" where
  "InjectServerContext c n t = c\<lparr>server_tr := Some (fake_transporter n t)\<rparr>"

definition InjectClientContext :: "ctx \<Rightarrow> nat \<Rightarrow> FakeTransport \<Rightarrow> ctx" where
  "InjectClientContext c n t = c\<lparr>client_tr := Some (fake_transporter n t)\<rparr>"

definition NewContextWithTraceID :: "string \<Rightarrow> ctx" where
  "NewContextWithTraceID i = logid_NewContext Background i"

section \<open>Headers of the fake transport\<close>

text \<open>
  The headers behave like a map: after any sequence of \<open>Set\<close> and \<open>Add\<close> a key has its last value and
  that value alone (\<open>Add\<close> replaces, unlike that of a real header), and \<open>Keys\<close> lists each key once.
\<close>

theorem fake_headers_spec:
  assumes "\<And>h. finite (dom h) \<Longrightarrow> distinct (visit h) \<and> set (visit h) = dom h"
  shows "let h = fold (\<lambda>(add, k, v) h. if add then fake_Add h k v else fake_Set h k v) calls Map.empty
   in fake_Get h key = (case map_of (rev (map snd calls)) key of Some v \<Rightarrow> v | None \<Rightarrow> []) \<and>
      fake_Values h key = (case map_of (rev (map snd calls)) key of Some v \<Rightarrow> [v] | None \<Rightarrow> []) \<and>
      distinct (fake_Keys visit h) \<and> set (fake_Keys visit h) = set (map (fst \<circ> snd) calls)"
proof -
  define h where "h = fold (\<lambda>(add, k, v) h. if add then fake_Add h k v else fake_Set h k v) calls Map.empty"
  have "fold (\<lambda>(add, k, v) h. if add then fake_Add h k v else fake_Set h k v) calls h0 = h0 ++ map_of (rev (map snd calls))"
    for h0 :: fakeHeader
    by (induction calls arbitrary: h0) (auto simp: fake_Add_def fake_Set_def)
  then have h: "h = map_of (rev (map snd calls))"
    by (simp add: h_def)
  have keys: "fake_Keys visit h = visit h"
  proof -
    have "fold (\<lambda>k out. out @ [k]) ks out = out @ ks" for ks out :: "string list"
      by (induction ks arbitrary: out) auto
    then show ?thesis by (simp add: fake_Keys_def)
  qed
  have "dom h = set (map (fst \<circ> snd) calls)"
    unfolding h by (simp add: dom_map_of_conv_image_fst image_comp)
  moreover have "finite (dom h)"
    unfolding h by (rule finite_dom_map_of)
  ultimately show ?thesis
    using assms [of h] unfolding Let_def h_def [symmetric] keys
    by (simp add: fake_Get_def fake_Values_def h split: option.split)
qed

theorem fake_headers_spec_witness:
  "fake_Get (fake_Add (fake_Set Map.empty ''k'' ''a'') ''k'' ''b'') ''k'' = ''b''"
  using fake_headers_spec [of "\<lambda>h. sorted_list_of_set (dom h)" "[(False, ''k'', ''a''), (True, ''k'', ''b'')]" "''k''"]
  by (simp add: Let_def)

section \<open>Sinks\<close>

text \<open>A log sink that turns every call into one line.\<close>

locale line_sink =
  fixes log_call :: "log_level \<Rightarrow> gval list \<Rightarrow> 's \<Rightarrow> 's"
    and line_count :: "'s \<Rightarrow> nat"
  assumes one_line: "line_count (log_call level kvs s) = Suc (line_count s)"
begin

lemma count_calls: "line_count (fold (\<lambda>(l, kvs). log_call l kvs) calls s) = line_count s + length calls"
  by (induction calls arbitrary: s) (auto simp: one_line)

end

interpretation memory: line_sink "memory_Log level_String show_value" "\<lambda>m. length (Lines m)"
  for level_String show_value
  by unfold_locales (simp add: memory_Log_def)

section \<open>Properties\<close>

text \<open>
  The test logger is faithful: after any sequence of log calls it holds exactly one line and one
  level per call, in order, whatever the arguments; a reset empties it.
\<close>

theorem memory_logger_spec:
  "let m = fold (\<lambda>(l, kvs). memory_Log ls sv l kvs) calls m0
   in length (Lines m) = length (Lines m0) + length calls \<and> Levels m = Levels m0 @ map fst calls \<and>
      Lines (memory_Reset m) = [] \<and> LinesText (memory_Reset m) = []"
proof -
  have "Levels (fold (\<lambda>(l, kvs). memory_Log ls sv l kvs) calls m0) = Levels m0 @ map fst calls"
    by (induction calls arbitrary: m0) (auto simp: memory_Log_def)
  then show ?thesis
    using memory.count_calls [of ls sv calls m0]
    by (simp add: Let_def memory_Reset_def LinesText_def)
qed

text \<open>
  A test that injects a trace id exercises the production path: a fake transport with the id in
  its request header makes the server middleware run the handler with that id, and a context built
  with \<open>NewContextWithTraceID\<close> reads back as that id.
\<close>

theorem fake_transport_drives_logid:
  fixes n :: nat and i :: string
  assumes "i \<noteq> []"
  defines "c \<equiv> InjectServerContext Background n (NewFakeTransport [WithReqHeader MetadataKey i])"
  shows "logid_Server uuid h c q w =
      h (logid_NewContext c i) q (w\<lparr>trace := trace w @ [ReplyHeaderSet n MetadataKey i]\<rparr>) \<and>
    logid_FromContext (logid_NewContext c i) = i \<and> logid_FromContext (NewContextWithTraceID i) = i"
proof -
  let ?tr = "fake_transporter n (NewFakeTransport [WithReqHeader MetadataKey i])"
  have "server_tr c = Some ?tr" and "tr_request ?tr MetadataKey = i" and "tr_id ?tr = n"
    by (simp_all add: c_def InjectServerContext_def fake_transporter_def NewFakeTransport_def
        WithReqHeader_def fake.get_set_same)
  then show ?thesis
    using logid_Server_keeps [of c ?tr i uuid h q w] assms(1)
    by (simp add: FromContext_NewContext c_def InjectServerContext_def Background_def NewContextWithTraceID_def)
qed

theorem fake_transport_drives_logid_witness:
  "logid_FromContext (NewContextWithTraceID ''abc'') = ''abc''"
  using fake_transport_drives_logid [of "''abc''" "\<lambda>w. (''u'', w)" "\<lambda>c q. io_ret (None, None)" 0 "()"
      "demo_world :: unit world"] by blast

end
