(* ===== verification/Monitor.thy ===== *)
theory Monitor
  imports Go_Prelude
begin

text \<open>
  Objects whose methods run under one \<open>sync.Mutex\<close>, used by any number of goroutines at once. A method
  is its list of statements: \<open>Lock\<close>, \<open>Unlock\<close> (also a deferred one, which runs when the method returns)
  and \<open>Do f\<close>, which reads and writes the goroutine's local variables and the shared memory. A step is
  one statement of one goroutine. The locale \<open>monitor\<close> is the contract of an object that keeps to the
  discipline: everything shared happens between \<open>Lock\<close> and \<open>Unlock\<close>. Its calls take effect one after
  the other.
\<close>

section \<open>Goroutines with a mutex\<close>

datatype ('l, 's) stmt = Lock | Unlock | Do "'l \<times> 's \<Rightarrow> 'l \<times> 's"

text \<open>
  A goroutine is the call it executes, its local variables and the statements it still has to execute;
  \<open>served\<close> lists the calls that have released the mutex, with their local variables at that time.
\<close>

record ('c, 'l, 's) mon =
  goroutines :: "nat \<Rightarrow> ('c \<times> 'l \<times> ('l, 's) stmt list) option"
  mutex :: "nat option"
  memory :: 's
  served :: "('c \<times> 'l) list"

definition mon_start :: "'s \<Rightarrow> ('c, 'l, 's) mon" where
  "mon_start s = \<lparr>goroutines = Map.empty, mutex = None, memory = s, served = []\<rparr>"

inductive mon_step ::
  "('c \<Rightarrow> ('l, 's) stmt list) \<Rightarrow> ('c \<Rightarrow> 'l) \<Rightarrow> ('c, 'l, 's) mon \<Rightarrow> ('c, 'l, 's) mon \<Rightarrow> bool"
  for prog ini where
  call: "goroutines m i = None \<Longrightarrow>
    mon_step prog ini m (m\<lparr>goroutines := (goroutines m)(i \<mapsto> (c, ini c, prog c))\<rparr>)"
| lock: "goroutines m i = Some (c, l, Lock # ss) \<Longrightarrow> mutex m = None \<Longrightarrow>
    mon_step prog ini m (m\<lparr>mutex := Some i, goroutines := (goroutines m)(i \<mapsto> (c, l, ss))\<rparr>)"
| exec: "goroutines m i = Some (c, l, Do f # ss) \<Longrightarrow> f (l, memory m) = (l', s') \<Longrightarrow>
    mon_step prog ini m (m\<lparr>memory := s', goroutines := (goroutines m)(i \<mapsto> (c, l', ss))\<rparr>)"
| unlock: "goroutines m i = Some (c, l, Unlock # ss) \<Longrightarrow> mutex m = Some i \<Longrightarrow>
    mon_step prog ini m (m\<lparr>mutex := None, served := served m @ [(c, l)],
      goroutines := (goroutines m)(i \<mapsto> (c, l, ss))\<rparr>)"

text \<open>One statement of goroutine \<open>i\<close>, as a function; a goroutine that cannot go on is skipped.\<close>

definition mon_run :: "nat \<Rightarrow> ('c, 'l, 's) mon \<Rightarrow> ('c, 'l, 's) mon" where
  "mon_run i m =
     (case goroutines m i of
        Some (c, l, Lock # ss) \<Rightarrow>
          if mutex m = None then m\<lparr>mutex := Some i, goroutines := (goroutines m)(i \<mapsto> (c, l, ss))\<rparr> else m
      | Some (c, l, Do f # ss) \<Rightarrow>
          (case f (l, memory m) of (l', s') \<Rightarrow> m\<lparr>memory := s', goroutines := (goroutines m)(i \<mapsto> (c, l', ss))\<rparr>)
      | Some (c, l, Unlock # ss) \<Rightarrow>
          if mutex m = Some i
          then m\<lparr>mutex := None, served := served m @ [(c, l)], goroutines := (goroutines m)(i \<mapsto> (c, l, ss))\<rparr>
          else m
      | _ \<Rightarrow> m)"

definition mon_spawn ::
  "('c \<Rightarrow> ('l, 's) stmt list) \<Rightarrow> ('c \<Rightarrow> 'l) \<Rightarrow> nat \<times> 'c \<Rightarrow> ('c, 'l, 's) mon \<Rightarrow> ('c, 'l, 's) mon" where
  "mon_spawn prog ini ic m =
     (if goroutines m (fst ic) = None
      then m\<lparr>goroutines := (goroutines m)(fst ic \<mapsto> (snd ic, ini (snd ic), prog (snd ic)))\<rparr> else m)"

lemma mon_run_reachable: "(mon_step prog ini)\<^sup>*\<^sup>* m (mon_run i m)"
  by (auto simp: mon_run_def intro!: r_into_rtranclp mon_step.intros
      split: option.split prod.split list.split stmt.split)

lemma mon_spawn_reachable: "(mon_step prog ini)\<^sup>*\<^sup>* m (mon_spawn prog ini ic m)"
  by (auto simp: mon_spawn_def intro!: r_into_rtranclp mon_step.call)

lemma mon_schedule_reachable:
  "(mon_step prog ini)\<^sup>*\<^sup>* m (fold mon_run is (fold (mon_spawn prog ini) cs m))"
proof -
  have "(mon_step prog ini)\<^sup>*\<^sup>* m (fold mon_run is m)" for m
    by (induction "is" arbitrary: m) (auto intro: rtranclp_trans mon_run_reachable)
  moreover have "(mon_step prog ini)\<^sup>*\<^sup>* m (fold (mon_spawn prog ini) cs m)"
    by (induction cs arbitrary: m) (auto intro: rtranclp_trans mon_spawn_reachable)
  ultimately show ?thesis
    by (rule rtranclp_trans [rotated])
qed

section \<open>One call after the other\<close>

definition run_body :: "('x \<Rightarrow> 'x) list \<Rightarrow> 'x \<Rightarrow> 'x" where
  "run_body fs x = fold (\<lambda>f y. f y) fs x"

lemma run_body_simps [simp]:
  "run_body [] x = x"
  "run_body (f # fs) x = run_body fs (f x)"
  "run_body (fs @ gs) x = run_body gs (run_body fs x)"
  by (simp_all add: run_body_def)

fun in_order :: "('c \<Rightarrow> 's \<Rightarrow> 'l \<times> 's) \<Rightarrow> 's \<Rightarrow> 'c list \<Rightarrow> 'l list \<times> 's" where
  "in_order oper s [] = ([], s)"
| "in_order oper s (c # cs) =
     (let (l, s1) = oper c s; (ls, s2) = in_order oper s1 cs in (l # ls, s2))"

lemma in_order_snoc:
  "in_order oper s (cs @ [c]) =
     (let (ls, s1) = in_order oper s cs; (l, s2) = oper c s1 in (ls @ [l], s2))"
  by (induction cs arbitrary: s) (auto simp: Let_def split: prod.splits)

lemma in_order_state: "snd (in_order oper s cs) = fold (\<lambda>c s. snd (oper c s)) cs s"
  by (induction cs arbitrary: s) (simp_all add: Let_def case_prod_beta)

section \<open>The discipline\<close>

locale monitor =
  fixes prog :: "'c \<Rightarrow> ('l, 's) stmt list"
    and ini :: "'c \<Rightarrow> 'l"
    and body :: "'c \<Rightarrow> ('l \<times> 's \<Rightarrow> 'l \<times> 's) list"
    and oper :: "'c \<Rightarrow> 's \<Rightarrow> 'l \<times> 's"
  assumes discipline: "prog c = [] \<or> prog c = Lock # map Do (body c) @ [Unlock]"
    and atomic: "prog c \<noteq> [] \<Longrightarrow> oper c s = run_body (body c) (ini c, s)"
begin

text \<open>Where a goroutine can be, when \<open>s\<close> is what the calls served so far have left.\<close>

definition waiting :: "'c \<times> 'l \<times> ('l, 's) stmt list \<Rightarrow> bool" where
  "waiting g \<longleftrightarrow> (case g of (c, l, ss) \<Rightarrow> l = ini c \<and> ss = prog c)"

definition running :: "'s \<Rightarrow> 's \<Rightarrow> 'c \<times> 'l \<times> ('l, 's) stmt list \<Rightarrow> bool" where
  "running s s' g \<longleftrightarrow> (case g of (c, l, ss) \<Rightarrow> prog c \<noteq> [] \<and>
     (\<exists>fs gs. body c = fs @ gs \<and> ss = map Do gs @ [Unlock] \<and> run_body fs (ini c, s) = (l, s')))"

definition returned :: "('c \<times> 'l) list \<Rightarrow> 'c \<times> 'l \<times> ('l, 's) stmt list \<Rightarrow> bool" where
  "returned hist g \<longleftrightarrow> (case g of (c, l, ss) \<Rightarrow> ss = [] \<and> (c, l) \<in> set hist)"

definition mon_inv :: "'s \<Rightarrow> ('c, 'l, 's) mon \<Rightarrow> bool" where
  "mon_inv s0 m \<longleftrightarrow> (\<exists>s. in_order oper s0 (map fst (served m)) = (map snd (served m), s) \<and>
     (case mutex m of
        None \<Rightarrow> memory m = s
      | Some i \<Rightarrow> (\<exists>g. goroutines m i = Some g \<and> running s (memory m) g)) \<and>
     (\<forall>i g. goroutines m i = Some g \<longrightarrow> mutex m \<noteq> Some i \<longrightarrow> waiting g \<or> returned (served m) g))"

lemma waiting_shape:
  "waiting (c, l, ss) \<Longrightarrow> ss = [] \<or> ss = Lock # map Do (body c) @ [Unlock]"
  using discipline by (auto simp: waiting_def)

lemma not_inside:
  assumes "waiting (c, l, ss) \<or> returned hist (c, l, ss)"
  shows "ss \<noteq> Do f # ss'" and "ss \<noteq> Unlock # ss'"
  using assms waiting_shape by (auto simp: returned_def)

lemma mon_inv_start: "mon_inv s0 (mon_start s0)"
  by (simp add: mon_inv_def mon_start_def)

lemma mon_inv_step:
  assumes "mon_step prog ini m m'" and inv: "mon_inv s0 m"
  shows "mon_inv s0 m'"
proof -
  obtain s where seq: "in_order oper s0 (map fst (served m)) = (map snd (served m), s)"
    and holder: "case mutex m of None \<Rightarrow> memory m = s
      | Some i \<Rightarrow> (\<exists>g. goroutines m i = Some g \<and> running s (memory m) g)"
    and others: "\<And>i g. goroutines m i = Some g \<Longrightarrow> mutex m \<noteq> Some i \<Longrightarrow> waiting g \<or> returned (served m) g"
    using inv unfolding mon_inv_def by blast
  have inside: "mutex m = Some i \<and> running s (memory m) (c, l, ss)"
    if "goroutines m i = Some (c, l, ss)" and "(\<exists>f ss'. ss = Do f # ss') \<or> (\<exists>ss'. ss = Unlock # ss')" for i c l ss
  proof -
    have "mutex m = Some i"
      using that(2) others [OF that(1)] not_inside by blast
    with holder that(1) show ?thesis by auto
  qed
  from assms(1) show ?thesis
  proof cases
    case (call i c)
    then show ?thesis
      using seq holder others unfolding mon_inv_def
      by (intro exI [of _ s]) (auto simp: waiting_def split: option.splits)
  next
    case (lock i c l ss)
    then have w: "waiting (c, l, Lock # ss)"
      using others [OF lock(2)] by (auto simp: returned_def)
    then have "prog c \<noteq> []" "body c = [] @ body c" "ss = map Do (body c) @ [Unlock]"
      "run_body [] (ini c, s) = (l, memory m)"
      using waiting_shape [OF w] holder lock(3) by (auto simp: waiting_def)
    then have "running s (memory m) (c, l, ss)"
      unfolding running_def prod.case by blast
    with lock seq others show ?thesis
      unfolding mon_inv_def by (intro exI [of _ s]) auto
  next
    case (exec i c l f ss l' s')
    have "mutex m = Some i" and "running s (memory m) (c, l, Do f # ss)"
      using inside [OF exec(2)] by auto
    moreover from this(2) obtain fs gs where "prog c \<noteq> []" "body c = fs @ gs" "Do f # ss = map Do gs @ [Unlock]"
      "run_body fs (ini c, s) = (l, memory m)"
      by (auto simp: running_def)
    then have "prog c \<noteq> []" "body c = (fs @ [f]) @ tl gs" "ss = map Do (tl gs) @ [Unlock]"
      "run_body (fs @ [f]) (ini c, s) = (l', s')"
      using exec(3) by (cases gs; simp)+
    then have "running s s' (c, l', ss)"
      unfolding running_def prod.case by blast
    ultimately show ?thesis
      using exec seq others unfolding mon_inv_def by (intro exI [of _ s]) auto
  next
    case (unlock i c l ss)
    have "running s (memory m) (c, l, Unlock # ss)"
      using inside [OF unlock(2)] by auto
    then obtain fs gs where "prog c \<noteq> []" "body c = fs @ gs" "Unlock # ss = map Do gs @ [Unlock]"
      "run_body fs (ini c, s) = (l, memory m)"
      by (auto simp: running_def)
    then have "ss = []" and "oper c s = (l, memory m)"
      using atomic by (cases gs; auto)+
    with unlock seq others show ?thesis
      unfolding mon_inv_def
      by (intro exI [of _ "memory m"]) (auto simp: in_order_snoc Let_def returned_def)
  qed
qed

end

sublocale monitor \<subseteq> conc: interleaving "\<lambda>m. m = mon_start s0" "mon_step prog ini" "mon_inv s0" for s0
  by unfold_locales (auto intro: mon_inv_step mon_inv_start)

context monitor
begin

text \<open>
  The calls served so far are a sequential history: their results, and the memory while nobody is
  inside, are those of the operations applied one after the other. While a goroutine is inside, the
  memory is what it has made of that so far.
\<close>

lemma linearizable:
  assumes "(mon_step prog ini)\<^sup>*\<^sup>* (mon_start s0) m"
  obtains s where "in_order oper s0 (map fst (served m)) = (map snd (served m), s)"
    and "mutex m = None \<Longrightarrow> memory m = s"
    and "\<And>i. mutex m = Some i \<Longrightarrow>
      \<exists>c l fs gs. goroutines m i = Some (c, l, map Do gs @ [Unlock]) \<and> prog c \<noteq> [] \<and> body c = fs @ gs \<and>
        run_body fs (ini c, s) = (l, memory m)"
    and "\<And>i c l. goroutines m i = Some (c, l, []) \<Longrightarrow> prog c \<noteq> [] \<Longrightarrow> (c, l) \<in> set (served m)"
proof -
  have inv: "mon_inv s0 m"
    by (rule conc.inv_reachable [OF refl assms])
  then obtain s where *: "in_order oper s0 (map fst (served m)) = (map snd (served m), s)"
    "case mutex m of None \<Rightarrow> memory m = s
      | Some i \<Rightarrow> (\<exists>g. goroutines m i = Some g \<and> running s (memory m) g)"
    "\<And>i g. goroutines m i = Some g \<Longrightarrow> mutex m \<noteq> Some i \<Longrightarrow> waiting g \<or> returned (served m) g"
    unfolding mon_inv_def by blast
  have "\<exists>c l fs gs. goroutines m i = Some (c, l, map Do gs @ [Unlock]) \<and> prog c \<noteq> [] \<and> body c = fs @ gs \<and>
        run_body fs (ini c, s) = (l, memory m)" if "mutex m = Some i" for i
    using *(2) that by (auto simp: running_def)
  moreover have "(c, l) \<in> set (served m)" if "goroutines m i = Some (c, l, [])" and "prog c \<noteq> []" for i c l
    using *(2) *(3) [OF that(1)] that
    by (cases "mutex m = Some i") (auto simp: running_def waiting_def returned_def)
  moreover have "mutex m = None \<Longrightarrow> memory m = s"
    using *(2) by simp
  ultimately show thesis
    by (intro that [OF *(1)])
qed

text \<open>No deadlock: as long as some call has not returned, some goroutine can execute a statement.\<close>

lemma progress:
  assumes "(mon_step prog ini)\<^sup>*\<^sup>* (mon_start s0) m" and "goroutines m i = Some (c, l, st # ss)"
  shows "\<exists>m' j c' l' st' ss' l''. mon_step prog ini m m' \<and> goroutines m j = Some (c', l', st' # ss') \<and>
    goroutines m' = (goroutines m)(j \<mapsto> (c', l'', ss'))"
proof (cases "mutex m")
  case None
  have "mon_inv s0 m"
    by (rule conc.inv_reachable [OF refl assms(1)])
  then have "waiting (c, l, st # ss)"
    using assms(2) None by (fastforce simp: mon_inv_def returned_def)
  then have "st = Lock"
    using waiting_shape by fastforce
  then show ?thesis
    using mon_step.lock [of m i c l ss prog ini] assms(2) None by fastforce
next
  case (Some j)
  obtain s where "\<And>i. mutex m = Some i \<Longrightarrow>
      \<exists>c l fs gs. goroutines m i = Some (c, l, map Do gs @ [Unlock]) \<and> prog c \<noteq> [] \<and> body c = fs @ gs \<and>
        run_body fs (ini c, s) = (l, memory m)"
    using linearizable [OF assms(1)] by metis
  then obtain c' l' gs where j: "goroutines m j = Some (c', l', map Do gs @ [Unlock])"
    using Some by blast
  show ?thesis
  proof (cases gs)
    case Nil
    then show ?thesis
      using mon_step.unlock [of m j c' l' "[]" prog ini] j Some by fastforce
  next
    case (Cons g gs')
    obtain l'' s'' where "g (l', memory m) = (l'', s'')"
      by (cases "g (l', memory m)")
    then show ?thesis
      using mon_step.exec [of m j c' l' g "map Do gs' @ [Unlock]" l'' s'' prog ini] j Cons by fastforce
  qed
qed

end

end
