(* ===== verification/Log_Concurrency.thy ===== *)
theory Log_Concurrency
  imports Log Testutil Monitor
begin

text \<open>
  The two loggers that guard their state by a mutex, as concurrent goroutines use them: the JSON sink
  (pkg/log/json.go) and the in-memory logger of the tests (pkg/testutil/logger.go). Both keep to the
  discipline of \<open>monitor\<close>. The writer of the JSON sink delivers a line byte by byte, and other
  goroutines run in between.
\<close>

section \<open>Model\<close>

text \<open>The shared memory is what has been written so far; the local variable is the returned error.\<close>

definition jsonSink_body ::
  "(nat \<Rightarrow> error + string) \<Rightarrow> (log_level \<Rightarrow> string) \<Rightarrow> log_level \<times> gval list \<Rightarrow>
   (error option \<times> string \<Rightarrow> error option \<times> string) list" where
  "jsonSink_body marshal level_String c =
     (case encode_members marshal (sort_key fst (sink_object level_String (fst c) (snd c))) of
        Inl e \<Rightarrow> [\<lambda>(r, out). (Some e, out)]
      | Inr ts \<Rightarrow> map (\<lambda>ch (r, out). (r, out @ [ch])) (json_line ts))"

text \<open>The sink as goroutines share it: its mutex, and what its writer has received.\<close>

type_synonym jsonSink = "(log_level \<times> gval list, error option, string) mon"

definition jsonSink_prog ::
  "(nat \<Rightarrow> error + string) \<Rightarrow> (log_level \<Rightarrow> string) \<Rightarrow> log_level \<times> gval list \<Rightarrow>
   (error option, string) stmt list" where
  "jsonSink_prog marshal level_String c =
     (if snd c = [] then [] else Lock # map Do (jsonSink_body marshal level_String c) @ [Unlock])"

text \<open>
  A call of the in-memory logger; the local variable is \<open>line\<close> or \<open>out\<close>. The loop of \<open>Log\<close> over the
  pairs and the loop of \<open>LinesText\<close> over the lines read what the mutex protects in one statement each.
\<close>

datatype memory_call = CallLog log_level "gval list" | CallLinesText | CallReset

fun memory_body ::
  "(log_level \<Rightarrow> string) \<Rightarrow> (gval \<Rightarrow> string) \<Rightarrow> memory_call \<Rightarrow>
   (string \<times> MemoryLogger \<Rightarrow> string \<times> MemoryLogger) list" where
  "memory_body level_String show_value (CallLog level kvs) =
     [\<lambda>(line, m). (''['' @ level_String level @ '']'', m),
      \<lambda>(line, m). (line @ print_pairs show_value kvs, m),
      \<lambda>(line, m). (line, m\<lparr>Lines := Lines m @ [line]\<rparr>),
      \<lambda>(line, m). (line, m\<lparr>Levels := Levels m @ [level]\<rparr>)]"
| "memory_body level_String show_value CallLinesText = [\<lambda>(out, m). (LinesText m, m)]"
| "memory_body level_String show_value CallReset =
     [\<lambda>(out, m). (out, m\<lparr>Lines := []\<rparr>), \<lambda>(out, m). (out, m\<lparr>Levels := []\<rparr>)]"

definition memory_prog ::
  "(log_level \<Rightarrow> string) \<Rightarrow> (gval \<Rightarrow> string) \<Rightarrow> memory_call \<Rightarrow> (string, MemoryLogger) stmt list" where
  "memory_prog level_String show_value c = Lock # map Do (memory_body level_String show_value c) @ [Unlock]"

section \<open>The JSON sink\<close>

text \<open>The line a call writes, if any.\<close>

definition sink_line :: "(nat \<Rightarrow> error + string) \<Rightarrow> (log_level \<Rightarrow> string) \<Rightarrow> log_level \<times> gval list \<Rightarrow> string option" where
  "sink_line marshal ls c =
     (if snd c = [] then None
      else case encode_members marshal (sort_key fst (sink_object ls (fst c) (snd c))) of
             Inl e \<Rightarrow> None | Inr ts \<Rightarrow> Some (json_object ts))"

abbreviation with_newline :: "string \<Rightarrow> string" where
  "with_newline l \<equiv> l @ [CHR 0x0A]"

definition sink_output :: "(nat \<Rightarrow> error + string) \<Rightarrow> (log_level \<Rightarrow> string) \<Rightarrow> log_level \<times> gval list \<Rightarrow> string" where
  "sink_output marshal ls c = (case sink_line marshal ls c of None \<Rightarrow> [] | Some l \<Rightarrow> with_newline l)"

lemma run_writes: "run_body (map (\<lambda>ch (r, out). (r, out @ [ch])) bs) (r, out) = (r, out @ bs)"
  by (induction bs arbitrary: out) auto

lemma jsonSink_Log_output:
  "snd (jsonSink_Log buffer_write marshal ls (fst c) (snd c) out) = out @ sink_output marshal ls c"
  by (simp add: jsonSink_Log_def sink_output_def sink_line_def buffer_write_def json_line_def split: sum.splits)

interpretation sink: monitor "jsonSink_prog marshal ls" "\<lambda>_. None" "jsonSink_body marshal ls"
  "\<lambda>c. jsonSink_Log buffer_write marshal ls (fst c) (snd c)"
  for marshal ls
  by unfold_locales
     (auto simp: jsonSink_prog_def jsonSink_body_def jsonSink_Log_def buffer_write_def run_writes
       split: sum.splits if_splits)

lemma sink_history:
  "snd (in_order (\<lambda>c. jsonSink_Log buffer_write marshal ls (fst c) (snd c)) out cs) =
     out @ concat (map (sink_output marshal ls) cs)"
proof -
  have "fold (\<lambda>c s. snd (jsonSink_Log buffer_write marshal ls (fst c) (snd c) s)) cs out =
      out @ concat (map (sink_output marshal ls) cs)"
    by (induction cs arbitrary: out) (simp_all add: jsonSink_Log_output)
  then show ?thesis
    by (simp add: in_order_state)
qed

lemma sink_output_lines:
  "concat (map (sink_output marshal ls) cs) = concat (map with_newline (List.map_filter (sink_line marshal ls) cs))"
  by (induction cs) (auto simp: sink_output_def List.map_filter_def split: option.splits)

text \<open>What a goroutine inside has written is a beginning of its line.\<close>

lemma sink_partial:
  assumes "jsonSink_prog marshal ls c \<noteq> []" and "jsonSink_body marshal ls c = fs @ gs"
    and "run_body fs (None, out) = (r, out')"
  shows "\<exists>part rest. out' = out @ part \<and> sink_output marshal ls c = part @ rest"
proof (cases "encode_members marshal (sort_key fst (sink_object ls (fst c) (snd c)))")
  case (Inl e)
  then have "fs = [] \<or> fs = [\<lambda>(r, out). (Some e, out)]"
    using assms(2) by (auto simp: jsonSink_body_def Cons_eq_append_conv)
  with assms(3) show ?thesis by auto
next
  case (Inr ts)
  then obtain bs bs' where "json_line ts = bs @ bs'" and "fs = map (\<lambda>ch (r, out). (r, out @ [ch])) bs"
    using assms(2) by (auto simp: jsonSink_body_def map_eq_append_conv)
  then show ?thesis
    using assms(1,3) Inr
    by (auto simp: run_writes sink_output_def sink_line_def jsonSink_prog_def json_line_def split: if_splits)
qed

lemma sink_line_newline:
  assumes "\<And>n t. marshal n = Inr t \<Longrightarrow> CHR 0x0A \<notin> set t" and "sink_line marshal ls c = Some l"
  shows "l \<noteq> [] \<and> CHR 0x0A \<notin> set l"
proof -
  have "snd c \<noteq> []"
    using assms(2) by (auto simp: sink_line_def)
  from jsonSink_one_line_or_error [where marshal = marshal and ls = ls and level = "fst c" and buf = "[]", OF this assms(1)] assms(2) show ?thesis
    by (auto simp: jsonSink_Log_def buffer_write_def sink_line_def json_line_def split: sum.splits if_splits)
qed

section \<open>Properties\<close>

text \<open>
  C9. One JSON object per line, also under concurrency: whatever the interleaving of the goroutines'
  statements and of the writer's bytes, the output is a sequence of whole lines, those of the calls
  that have returned, in the order in which they held the mutex, followed by a beginning of at most
  one more, of the call that holds the mutex now. No line contains a line break, whatever the
  logged keys and values contain.
\<close>

theorem jsonSink_lines_whole:
  fixes m :: jsonSink
  assumes "(mon_step (jsonSink_prog marshal ls) (\<lambda>_. None))\<^sup>*\<^sup>* (mon_start []) m"
    and "\<And>n t. marshal n = Inr t \<Longrightarrow> CHR 0x0A \<notin> set t"
  shows "\<exists>lines part. memory m = concat (map with_newline lines) @ part \<and>
    lines = List.map_filter (sink_line marshal ls) (map fst (served m)) \<and>
    (\<forall>l \<in> set lines. l \<noteq> [] \<and> CHR 0x0A \<notin> set l) \<and>
    (case mutex m of None \<Rightarrow> part = []
     | Some i \<Rightarrow> \<exists>c r ss rest. goroutines m i = Some (c, r, ss) \<and> sink_output marshal ls c = part @ rest)"
proof -
  let ?lines = "List.map_filter (sink_line marshal ls) (map fst (served m))"
  obtain s where seq: "in_order (\<lambda>c. jsonSink_Log buffer_write marshal ls (fst c) (snd c)) [] (map fst (served m)) =
      (map snd (served m), s)"
    and free: "mutex m = None \<Longrightarrow> memory m = s"
    and held: "\<And>i. mutex m = Some i \<Longrightarrow>
      \<exists>c l fs gs. goroutines m i = Some (c, l, map Do gs @ [Unlock]) \<and> jsonSink_prog marshal ls c \<noteq> [] \<and>
        jsonSink_body marshal ls c = fs @ gs \<and> run_body fs (None, s) = (l, memory m)"
    by (rule sink.linearizable [OF assms(1)]) (rule that)
  have s: "s = concat (map with_newline ?lines)"
    using sink_history [of marshal ls "[]" "map fst (served m)"] seq sink_output_lines [of marshal ls "map fst (served m)"]
    by simp
  have "l \<noteq> [] \<and> CHR 0x0A \<notin> set l" if "l \<in> set ?lines" for l
    using that sink_line_newline [where marshal = marshal and ls = ls, OF assms(2)] by (auto simp: List.map_filter_def)
  moreover have "\<exists>part. memory m = s @ part \<and> (case mutex m of None \<Rightarrow> part = []
     | Some i \<Rightarrow> \<exists>c r ss rest. goroutines m i = Some (c, r, ss) \<and> sink_output marshal ls c = part @ rest)"
  proof (cases "mutex m")
    case (Some i)
    then obtain c l fs gs where "goroutines m i = Some (c, l, map Do gs @ [Unlock])" "jsonSink_prog marshal ls c \<noteq> []"
      "jsonSink_body marshal ls c = fs @ gs" "run_body fs (None, s) = (l, memory m)"
      using held by blast
    with sink_partial [OF this(2-4)] Some show ?thesis by auto
  qed (use free in simp)
  ultimately show ?thesis
    unfolding s by blast
qed

text \<open>
  Two goroutines log at once; the second tries to take the mutex while the first has written half of
  its line.
\<close>

definition demo_prog :: "log_level \<times> gval list \<Rightarrow> (error option, string) stmt list" where
  "demo_prog = jsonSink_prog (\<lambda>_. Inl Canceled) (\<lambda>_. ''INFO'')"

definition demo_sink :: "nat list \<Rightarrow> (log_level \<times> gval list, error option, string) mon" where
  "demo_sink is = fold mon_run is (fold (mon_spawn demo_prog (\<lambda>_. None))
     [(0, LevelInfo, [VStr ''a'', VInt 1]), (1, LevelInfo, [VStr ''b'', VInt 2])] (mon_start []))"

lemma demo_sink_reachable:
  "(mon_step (jsonSink_prog (\<lambda>_. Inl Canceled) (\<lambda>_. ''INFO'')) (\<lambda>_. None))\<^sup>*\<^sup>* (mon_start []) (demo_sink is)"
  unfolding demo_sink_def demo_prog_def by (rule mon_schedule_reachable)

definition demo_sink_schedule :: "nat list" where
  "demo_sink_schedule = replicate 8 0 @ replicate 5 1 @ replicate 30 0 @ replicate 4 1"

lemma demo_sink_state:
  "served (demo_sink demo_sink_schedule) = [((LevelInfo, [VStr ''a'', VInt 1]), None)]"
  "mutex (demo_sink demo_sink_schedule) = Some 1"
  by code_simp+

theorem jsonSink_lines_whole_witness:
  "\<exists>line part. memory (demo_sink demo_sink_schedule) = with_newline line @ part \<and> CHR 0x0A \<notin> set line"
proof -
  have "sink_line (\<lambda>_. Inl Canceled) (\<lambda>_. ''INFO'') (LevelInfo, [VStr ''a'', VInt 1]) \<noteq> None"
    by code_simp
  then have line: "\<exists>line. sink_line (\<lambda>_. Inl Canceled) (\<lambda>_. ''INFO'') (LevelInfo, [VStr ''a'', VInt 1]) = Some line"
    by simp
  show ?thesis
    using jsonSink_lines_whole [OF demo_sink_reachable, of demo_sink_schedule] line
    by (auto simp: demo_sink_state List.map_filter_def)
qed

text \<open>
  The JSON sink never hangs: as long as some call has not returned, some goroutine can execute its next
  statement.
\<close>

lemma jsonSink_progress:
  assumes "(mon_step (jsonSink_prog marshal ls) (\<lambda>_. None))\<^sup>*\<^sup>* (mon_start out) m"
    and "goroutines m i = Some (c, r, st # ss)"
  shows "\<exists>m' j c' r' st' ss' r''. mon_step (jsonSink_prog marshal ls) (\<lambda>_. None) m m' \<and>
    goroutines m j = Some (c', r', st' # ss') \<and> goroutines m' = (goroutines m)(j \<mapsto> (c', r'', ss'))"
  by (rule sink.progress [OF assms])

section \<open>The in-memory logger\<close>

text \<open>What a call does when nothing else runs.\<close>

fun memory_op ::
  "(log_level \<Rightarrow> string) \<Rightarrow> (gval \<Rightarrow> string) \<Rightarrow> memory_call \<Rightarrow> MemoryLogger \<Rightarrow> string \<times> MemoryLogger" where
  "memory_op ls sv (CallLog level kvs) m = (''['' @ ls level @ '']'' @ print_pairs sv kvs, memory_Log ls sv level kvs m)"
| "memory_op ls sv CallLinesText m = (LinesText m, m)"
| "memory_op ls sv CallReset m = ([], memory_Reset m)"

interpretation memlog: monitor "memory_prog ls sv" "\<lambda>_. []" "memory_body ls sv" "memory_op ls sv"
  for ls sv
proof unfold_locales
  show "memory_op ls sv c m = run_body (memory_body ls sv c) ([], m)" for c m
    by (cases c) (simp_all add: memory_Log_def memory_Reset_def)
qed (simp add: memory_prog_def)

text \<open>
  The test logger is safe for concurrent use: after any interleaving of log calls, reads and resets
  there is an order of the calls that explains what is stored and what every \<open>LinesText\<close> returned; while
  nobody is inside, there is one level per line.
\<close>

theorem memory_logger_linearizable:
  assumes "(mon_step (memory_prog ls sv) (\<lambda>_. []))\<^sup>*\<^sup>* (mon_start NewMemoryLogger) m"
  shows "fst (in_order (memory_op ls sv) NewMemoryLogger (map fst (served m))) = map snd (served m) \<and>
    (mutex m = None \<longrightarrow> memory m = snd (in_order (memory_op ls sv) NewMemoryLogger (map fst (served m))) \<and>
      length (Lines (memory m)) = length (Levels (memory m)))"
proof -
  obtain s where seq: "in_order (memory_op ls sv) NewMemoryLogger (map fst (served m)) = (map snd (served m), s)"
    and free: "mutex m = None \<Longrightarrow> memory m = s"
    by (rule memlog.linearizable [OF assms]) (rule that)
  have step: "length (Lines (snd (memory_op ls sv c n))) = length (Levels (snd (memory_op ls sv c n)))"
    if "length (Lines n) = length (Levels n)" for c n
    using that by (cases c) (simp_all add: memory_Log_def memory_Reset_def)
  have "length (Lines (fold (\<lambda>c s. snd (memory_op ls sv c s)) cs n)) =
      length (Levels (fold (\<lambda>c s. snd (memory_op ls sv c s)) cs n))"
    if "length (Lines n) = length (Levels n)" for cs n
    using that by (induction cs arbitrary: n) (simp_all add: step)
  from this [of NewMemoryLogger "map fst (served m)"] seq free show ?thesis
    by (simp add: in_order_state [symmetric] NewMemoryLogger_def)
qed

definition demo_memory :: "nat list \<Rightarrow> (memory_call, string, MemoryLogger) mon" where
  "demo_memory is = fold mon_run is (fold (mon_spawn (memory_prog (\<lambda>_. ''INFO'') (\<lambda>_. ''x'')) (\<lambda>_. []))
     [(0, CallLog LevelInfo []), (1, CallLinesText)] (mon_start NewMemoryLogger))"

theorem memory_logger_linearizable_witness:
  "let m = demo_memory [0, 0, 0, 0, 1, 0, 0, 1, 1, 1]
   in length (Lines (memory m)) = 1 \<and> length (Lines (memory m)) = length (Levels (memory m))"
proof -
  let ?m = "demo_memory [0, 0, 0, 0, 1, 0, 0, 1, 1, 1]"
  have "mutex ?m = None" and "length (Lines (memory ?m)) = 1"
    by code_simp+
  moreover have "(mon_step (memory_prog (\<lambda>_. ''INFO'') (\<lambda>_. ''x'')) (\<lambda>_. []))\<^sup>*\<^sup>* (mon_start NewMemoryLogger) ?m"
    unfolding demo_memory_def by (rule mon_schedule_reachable)
  ultimately show ?thesis
    using memory_logger_linearizable [of "\<lambda>_. ''INFO''" "\<lambda>_. ''x''" ?m] unfolding Let_def by metis
qed

end
