(* ===== verification/Version.thy ===== *)
theory Version
  imports Kratos Go_Json
begin

text \<open>
  Package \<open>version\<close> (pkg/version/version.go): the build identity served as JSON. \<open>runtime.Version()\<close> is
  the parameter \<open>go_version\<close>.
\<close>

section \<open>Model\<close>

record Info =
  i_Name :: string
  i_Version :: string
  i_Commit :: string
  i_BuildTime :: string
  i_Go :: string

definition WithGo :: "string \<Rightarrow> Info \<Rightarrow> Info" where
  "WithGo go_version i = (if i_Go i = [] then i\<lparr>i_Go := go_version\<rparr> else i)"

text \<open>\<open>json.Marshal\<close> of the struct: fields in declaration order, empty optional ones left out.\<close>

definition marshal_Info :: "Info \<Rightarrow> string" where
  "marshal_Info i =
     ''{'' @ strings_Join (map (\<lambda>(k, v). json_string k @ '':'' @ json_string v)
       ([(''name'', i_Name i), (''version'', i_Version i)] @
        (if i_Commit i \<noteq> [] then [(''commit'', i_Commit i)] else []) @
        (if i_BuildTime i \<noteq> [] then [(''build_time'', i_BuildTime i)] else []) @
        [(''go'', i_Go i)])) '','' @ ''}''"

definition version_Handler :: "string \<Rightarrow> Info \<Rightarrow> 'l http_handler" where
  "version_Handler go_version i =
     (let body = marshal_Info (WithGo go_version i) in
      (\<lambda>wr r. io_then (with_writer wr (rw_set_header ''Content-Type'' ''application/json''))
                (with_writer wr (rw_Write body))))"

section \<open>Properties\<close>

text \<open>
  Every request to the version endpoint gets the same answer: status 200, JSON content type, and
  the body built from the build identity once, with the Go version filled in when it was missing.
\<close>

theorem version_Handler_spec:
  assumes "rw_sent (writers w wr) = None"
  shows "\<exists>w'. version_Handler gv i wr r w = (Ok (), w') \<and>
    rw_sent (writers w' wr) = Some (200, header_Set (rw_header (writers w wr)) ''Content-Type'' ''application/json'') \<and>
    rw_body (writers w' wr) = rw_body (writers w wr) @ marshal_Info (WithGo gv i) \<and>
    (gv \<noteq> [] \<longrightarrow> i_Go (WithGo gv i) \<noteq> []) \<and> WithGo gv (WithGo gv i) = WithGo gv i"
  using assms
  by (auto simp: version_Handler_def Let_def io_simps with_writer_def rw_set_header_def rw_Write_def
      rw_WriteHeader_def WithGo_def)

theorem version_Handler_spec_witness:
  "\<exists>w'. version_Handler ''go1.25'' \<lparr>i_Name = ''a'', i_Version = ''v'', i_Commit = [], i_BuildTime = [], i_Go = []\<rparr>
      0 r (demo_world :: unit world) = (Ok (), w') \<and> rw_sent (writers w' 0) \<noteq> None"
  using version_Handler_spec [of "demo_world :: unit world" 0 "''go1.25''"
      "\<lparr>i_Name = ''a'', i_Version = ''v'', i_Commit = [], i_BuildTime = [], i_Go = []\<rparr>" r]
  by (auto simp: demo_world_def new_response_def)

end
