(* ===== verification/Trace.thy ===== *)
theory Trace
  imports Complex_Main Logid
begin

text \<open>
  Package \<open>trace\<close> (pkg/trace/trace.go): OpenTelemetry initialisation. The SDK's constructors are
  parameters that may fail, and so is the provider's method \<open>Shutdown\<close>; the process-wide provider and
  propagator are the state \<open>otel\<close>. The sample ratio, a \<open>float64\<close> that is not NaN, is a real number.
\<close>

section \<open>Model\<close>

record TraceConfig =
  ServiceName :: string
  ServiceVersion :: string
  Endpoint :: string
  Insecure :: bool
  SampleRatio :: real
  ExportTimeout :: duration

datatype sampler = NeverSample | AlwaysSample | TraceIDRatioBased real

datatype otlp_option = OtlpEndpoint string | OtlpInsecure | OtlpTimeout duration

datatype exporter_spec = StdoutExporter | OtlpExporter "otlp_option list"

record ('res, 'exp) provider =
  pv_exporter :: 'exp
  pv_resource :: 'res
  pv_sampler :: sampler

record ('res, 'exp) otel =
  tracer_provider :: "('res, 'exp) provider option"
  propagators :: "string list"

type_synonym 'w Shutdown = "ctx \<Rightarrow> ('w, error option) io"

definition nopShutdown :: "'w Shutdown" where
  "nopShutdown c = io_ret None"

definition buildExporter ::
  "(exporter_spec \<Rightarrow> error + 'exp) \<Rightarrow> TraceConfig \<Rightarrow> error + 'exp" where
  "buildExporter mk cfg =
     (if Endpoint cfg = [] then mk StdoutExporter
      else
        (let timeout = (if ExportTimeout cfg = 0 then 10 * 1000000000 else ExportTimeout cfg)
         in mk (OtlpExporter ([OtlpEndpoint (Endpoint cfg)] @
              (if Insecure cfg then [OtlpInsecure] else []) @ [OtlpTimeout timeout]))))"

definition choose_sampler :: "real \<Rightarrow> sampler" where
  "choose_sampler ratio =
     (if ratio \<le> 0 then NeverSample else if 1 \<le> ratio then AlwaysSample else TraceIDRatioBased ratio)"

definition trace_Init ::
  "(string \<Rightarrow> string \<Rightarrow> error + 'res) \<Rightarrow> (exporter_spec \<Rightarrow> error + 'exp) \<Rightarrow> (('res, 'exp) provider \<Rightarrow> 'w Shutdown) \<Rightarrow>
   TraceConfig \<Rightarrow> ('res, 'exp) otel \<Rightarrow> ('w Shutdown \<times> error option) \<times> ('res, 'exp) otel" where
  "trace_Init merge mk tp_Shutdown cfg g =
     (if ServiceName cfg = [] then ((nopShutdown, Some (ErrorString ''trace: ServiceName is required'')), g)
      else case merge (ServiceName cfg) (ServiceVersion cfg) of
        Inl e \<Rightarrow> ((nopShutdown, Some (WrapError ''trace: build resource'' e)), g)
      | Inr res \<Rightarrow>
          (case buildExporter mk cfg of
             Inl e \<Rightarrow> ((nopShutdown, Some e), g)
           | Inr exporter \<Rightarrow>
               (let tp = \<lparr>pv_exporter = exporter, pv_resource = res, pv_sampler = choose_sampler (SampleRatio cfg)\<rparr>
                in ((tp_Shutdown tp, None),
                    g\<lparr>tracer_provider := Some tp, propagators := [''tracecontext'', ''baggage'']\<rparr>))))"

text \<open>A valid span context is the field \<open>otel_trace_id\<close> of the context.\<close>

definition TraceIDFromContext :: "ctx \<Rightarrow> string" where
  "TraceIDFromContext c = (case otel_trace_id c of None \<Rightarrow> [] | Some t \<Rightarrow> t)"

section \<open>Properties\<close>

text \<open>
  Initialisation is all or nothing: on an error the process-wide provider and propagator are as
  before and the returned shutdown does nothing and succeeds; on success the returned shutdown is the
  method of exactly the provider that was installed, whose sampler samples never, always, or at the given ratio strictly
  between 0 and 1.
\<close>

theorem trace_Init_spec:
  "case trace_Init merge mk tp_Shutdown cfg g of
     ((sd, Some e), g') \<Rightarrow> g' = g \<and> (\<forall>c w. sd c w = (Ok None, w))
   | ((sd, None), g') \<Rightarrow> (\<exists>tp. tracer_provider g' = Some tp \<and> sd = tp_Shutdown tp \<and>
       (case pv_sampler tp of
          NeverSample \<Rightarrow> SampleRatio cfg \<le> 0
        | AlwaysSample \<Rightarrow> 1 \<le> SampleRatio cfg
        | TraceIDRatioBased r \<Rightarrow> r = SampleRatio cfg \<and> 0 < r \<and> r < 1))"
  by (auto simp: trace_Init_def nopShutdown_def io_simps choose_sampler_def Let_def split: sum.splits)

text \<open>
  The two ways to read the id of a request agree while a span is active, and outside one the OTel
  reader is empty and the logid reader falls back to the id the logid middleware stored.
\<close>

theorem TraceIDFromContext_logid:
  "logid_FromContext (logid_NewContext c i) =
     (if otel_trace_id c = None then i else TraceIDFromContext c) \<and>
   TraceIDFromContext (logid_NewContext c i) = TraceIDFromContext c"
  by (simp add: logid_FromContext_def TraceIDFromContext_def logid_NewContext_def split: option.split)

end
