(* ===== verification/Services.thy ===== *)
theory Services
  imports Probe Cors Client Version Log
begin

text \<open>
  The three services (kris-alpha, kris-beta, kris-gamma, cmd/*/main.go): how they wire the packages
  together, and what that means for a request from end to end. Addresses and build variables are
  arguments here; the functions \<open>main\<close>, with flags, host name and life cycle, are in \<open>Mains\<close>.
\<close>

section \<open>Serving\<close>

text \<open>
  What every service needs from the libraries for its logger and its sidecar, and a request to a kratos
  HTTP server: the filters of its options, outermost first, around the route registered for a path.
\<close>

record 'l sidecar_env =
  sc_err_text :: "error \<Rightarrow> string"
  sc_fresh :: nat
  sc_metrics :: "'l http_handler"
  sc_pprof :: "string \<Rightarrow> 'l http_handler"
  sc_go :: string
  sc_With :: "'l world logger \<Rightarrow> bound_value list \<Rightarrow> 'l world logger"
  sc_std :: "'l world logger"

text \<open>\<open>pkglog.New(Name, Version, id)\<close>\<close>

definition service_logger :: "'l sidecar_env \<Rightarrow> Info \<Rightarrow> string \<Rightarrow> 'l world logger" where
  "service_logger env info appid = log_New (sc_With env) (sc_std env) (i_Name info) (i_Version info) appid"

definition tcp_config :: "string \<Rightarrow> 'l http_filter list \<Rightarrow> 'l HTTPConfig" where
  "tcp_config addr fs = \<lparr>h_Network = ''tcp'', h_Addr = addr, h_Timeout = 0, h_Filters = fs, h_TLSConfig = None\<rparr>"

definition sidecar ::
  "'l sidecar_env \<Rightarrow> Info \<Rightarrow> string \<Rightarrow> 'l pinger list option \<Rightarrow> ('l, 'q, 'r) khttp_server" where
  "sidecar env info addr probes =
     khttp_HandleFunc ''/version'' (version_Handler (sc_go env) info)
       (NewOtherHTTPServer (sc_err_text env) (sc_fresh env) (sc_metrics env) (sc_pprof env)
          (tcp_config addr []) probes)"

fun filters_of :: "('l, 'q, 'r) server_option list \<Rightarrow> 'l http_filter list" where
  "filters_of [] = []"
| "filters_of (OptFilter fs # os) = fs @ filters_of os"
| "filters_of (_ # os) = filters_of os"

definition serve :: "('l, 'q, 'r) khttp_server \<Rightarrow> string \<Rightarrow> 'l http_handler option" where
  "serve s path = map_option (foldr (\<lambda>f h. f h) (filters_of (ks_options s))) (map_of (ks_routes s) path)"

text \<open>
  A \<open>kratos.App\<close> is what its options say: identity, logger, servers, and the hooks to run before they
  are stopped.
\<close>

datatype ('l, 'q, 'r) app_server =
    AppGRPC "('l, 'q, 'r) grpc_server"
  | AppHTTP "('l, http_request, unit) khttp_server"

record ('l, 'q, 'r) kratos_app =
  app_ID :: string
  app_Name :: string
  app_Version :: string
  app_Logger :: "'l world logger"
  app_Server :: "('l, 'q, 'r) app_server list"
  app_BeforeStop :: "(ctx \<Rightarrow> ('l world, error option) io) list"

section \<open>kris-alpha\<close>

definition alpha_root :: "'l http_handler" where
  "alpha_root wr r = with_writer wr (rw_Write ''kris-alpha ok'')"

text \<open>The drainer's flag is allocated at \<open>a\<close>.\<close>

definition alpha_newApp ::
  "'l sidecar_env \<Rightarrow> ('l, 'q, 'r) runtime \<Rightarrow> ('l, http_request, unit) runtime \<Rightarrow>
   'l timer_select \<Rightarrow> Info \<Rightarrow> string \<Rightarrow> string \<Rightarrow> string \<Rightarrow> duration \<Rightarrow> nat \<Rightarrow>
   'l world logger \<Rightarrow> string \<Rightarrow> ('l world, ('l, 'q, 'r) kratos_app \<times> ('l world, unit) io) io" where
  "alpha_newApp env rtg rth sel info grpcAddr httpAddr otherAddr drainGrace a logger appid =
     (let gs = NewGRPCServer rtg \<lparr>g_Network = ''tcp'', g_Addr = grpcAddr, g_Timeout = 0, g_TLSConfig = None\<rparr> None [];
          hs = NewBizHTTPServer rth (tcp_config httpAddr [])
                 (Some (biz_HandleFunc (rt_chain rth) (rt_encode rth) ''/'' alpha_root)) []
      in io_bind (NewDrainer drainGrace a) (\<lambda>drainer.
           let probes = Some [ReadinessPinger drainer];
               oh = sidecar env info otherAddr probes;
               app = \<lparr>app_ID = appid, app_Name = i_Name info, app_Version = i_Version info,
                 app_Logger = logger, app_Server = [AppGRPC gs, AppHTTP (biz_S hs), AppHTTP oh],
                 app_BeforeStop = [BeforeStop sel drainer]\<rparr>
           in io_ret (app, io_ret ())))"

section \<open>kris-beta\<close>

text \<open>\<open>strings.TrimPrefix\<close> and \<open>http.Error\<close> of the standard library.\<close>

definition TrimPrefix :: "string \<Rightarrow> string \<Rightarrow> string" where
  "TrimPrefix s p = (if HasPrefix s p then drop (length p) s else s)"

definition http_Error :: "nat \<Rightarrow> string \<Rightarrow> nat \<Rightarrow> ('l world, unit) io" where
  "http_Error wr msg code =
     io_then (with_writer wr (\<lambda>rw. rw\<lparr>rw_header := (rw_header rw)(''Content-Length'' := None)\<rparr>))
    (io_then (with_writer wr (rw_set_header ''Content-Type'' ''text/plain; charset=utf-8''))
    (io_then (with_writer wr (rw_set_header ''X-Content-Type-Options'' ''nosniff''))
    (io_then (with_writer wr (rw_WriteHeader code))
             (with_writer wr (rw_Write (msg @ [CHR 0x0A]))))))"

definition beta_validator :: "'l validator" where
  "beta_validator c tok =
     (if \<not> HasPrefix tok ''demo-'' then io_ret (None, Some ErrUnauthorized)
      else io_ret (Some \<lparr>Subject = TrimPrefix tok ''demo-'', Scopes = [], Raw = []\<rparr>, None))"

definition beta_skip :: "string \<Rightarrow> bool" where
  "beta_skip op \<longleftrightarrow> op = ''/''"

definition beta_root :: "'l http_handler" where
  "beta_root wr r = with_writer wr (rw_Write ''kris-beta public ok'')"

definition beta_whoami :: "'l http_handler" where
  "beta_whoami wr r =
     (case auth_FromContext (r_ctx r) of
        None \<Rightarrow> http_Error wr ''no claims'' 401
      | Some cl \<Rightarrow> with_writer wr (rw_Write (''hello, '' @ Subject cl)))"

text \<open>The business server; the rate limiter's bucket is allocated at \<open>b\<close>.\<close>

definition beta_server ::
  "(string \<Rightarrow> string \<Rightarrow> bool) \<Rightarrow> (error \<Rightarrow> string) \<Rightarrow> (duration \<Rightarrow> int) \<Rightarrow> 'l rate_ops \<Rightarrow>
   ('l, http_request, unit) runtime \<Rightarrow> string \<Rightarrow> nat \<Rightarrow> ('l world, 'l BizHTTPServer) io" where
  "beta_server fold_rest err_text secs ops rt httpAddr b =
     (case auth_Server fold_rest err_text [WithValidator beta_validator, auth_WithSkip beta_skip] of
        Ok authMW \<Rightarrow>
          io_bind (ratelimit_Server ops [WithRate 50 100] b) (\<lambda>rlMW.
            let corsFilter = cors_New secs [WithAllowedOrigins [''*''],
                  WithAllowedMethods [''GET'', ''POST'', ''OPTIONS'']];
                register = biz_HandleFunc (rt_chain rt) (rt_encode rt) ''/whoami'' beta_whoami \<circ>
                  biz_HandleFunc (rt_chain rt) (rt_encode rt) ''/'' beta_root
            in io_ret (NewBizHTTPServer rt (tcp_config httpAddr [corsFilter]) (Some register) [authMW, rlMW]))
      | Panic v \<Rightarrow> io_panic v
      | Crash v \<Rightarrow> (\<lambda>w. (Crash v, w)))"

definition beta_oh :: "'l sidecar_env \<Rightarrow> Info \<Rightarrow> string \<Rightarrow> ('l, 'q, 'r) khttp_server" where
  "beta_oh env info otherAddr = sidecar env info otherAddr None"

section \<open>kris-gamma\<close>

text \<open>\<open>conn_state\<close> is \<open>conn.GetState()\<close>, read from the world.\<close>

datatype connectivity = Idle | Connecting | Ready | TransientFailure | Shutdown

definition errUpstreamNotReady :: error where
  "errUpstreamNotReady = ErrorString ''upstream conn not ready''"

definition gamma_config :: "string \<Rightarrow> ClientConfig" where
  "gamma_config upstream = \<lparr>cc_Endpoint = upstream, cc_Timeout = 2 * second, cc_DialTimeout = 3 * second,
     cc_NoCircuitBreaker = False, cc_Retry = \<lparr>rt_MaxAttempts = 0, rt_InitialBackoff = 0, rt_MaxBackoff = 0\<rparr>\<rparr>"

text \<open>\<open>quoted\<close> is the verb \<open>%q\<close>.\<close>

definition gamma_dial ::
  "('l, 'q, 'r, 'h, 'x) client_env \<Rightarrow> (string \<Rightarrow> string) \<Rightarrow> string \<Rightarrow> 'h pool_world \<Rightarrow>
   ('h option \<times> ('h pool_world \<Rightarrow> 'h pool_world)) \<times> 'h pool_world" where
  "gamma_dial env quoted upstream w =
     (case client_New env (gamma_config upstream) [] w of
        (Inl e, w1) \<Rightarrow> ((None, \<lambda>w. w), pool_logf LevelWarn
           (''dial upstream '' @ quoted upstream @ '': '' @ ce_text env e @ '' (continuing without it)'') w1)
      | (Inr (conn, cleanup), w1) \<Rightarrow> ((Some conn, cleanup), w1))"

definition gamma_probes :: "('h \<Rightarrow> 'l world \<Rightarrow> connectivity) \<Rightarrow> 'h option \<Rightarrow> 'l pinger list" where
  "gamma_probes conn_state conn =
     (case conn of
        None \<Rightarrow> []
      | Some h \<Rightarrow> [\<lparr>p_Name = ''upstream'',
          p_Ping = (\<lambda>c. io_bind (io_get (conn_state h)) (\<lambda>s.
            if s \<noteq> Ready \<and> s \<noteq> Idle then io_ret (Some errUpstreamNotReady) else io_ret None))\<rparr>])"

definition gamma_gs ::
  "('l, 'q, 'r) runtime \<Rightarrow> (ctx \<Rightarrow> 'l world \<Rightarrow> 'l world option) \<Rightarrow> nat \<Rightarrow> string \<Rightarrow> ('l, 'q, 'r) grpc_server" where
  "gamma_gs rt sched fresh grpcAddr =
     NewGRPCServer rt \<lparr>g_Network = ''tcp'', g_Addr = grpcAddr, g_Timeout = 0, g_TLSConfig = None\<rparr> None
       [timeout_Server sched fresh [timeout_WithTimeout (2 * second)]]"

definition gamma_oh ::
  "'l sidecar_env \<Rightarrow> Info \<Rightarrow> string \<Rightarrow> ('h \<Rightarrow> 'l world \<Rightarrow> connectivity) \<Rightarrow> 'h option \<Rightarrow> ('l, 'q, 'r) khttp_server" where
  "gamma_oh env info otherAddr conn_state conn =
     sidecar env info otherAddr (Some (gamma_probes conn_state conn))"

section \<open>Routes\<close>

lemma filters_of_append [simp]: "filters_of (xs @ ys) = filters_of xs @ filters_of ys"
  by (induction xs rule: filters_of.induct) auto

lemma filters_of_base [simp]: "filters_of (baseHTTPOpts cfg) = h_Filters cfg"
  by (simp add: baseHTTPOpts_def split: option.split)

lemma sidecar_serve:
  "serve (sidecar env info addr probes) ''/healthz'' = Some healthHandler"
  "serve (sidecar env info addr probes) ''/readyz'' = Some (readyHandler (sc_err_text env) (sc_fresh env) probes)"
  "serve (sidecar env info addr probes) ''/version'' = Some (version_Handler (sc_go env) info)"
  by (simp_all add: serve_def sidecar_def NewOtherHTTPServer_def registerPprof_def buildHTTPNoMiddleware_def
      khttp_NewServer_def khttp_HandleFunc_def tcp_config_def)

text \<open>What a client sees of a probe endpoint and of a greeting route, whatever the state of the process.\<close>

definition probe_answers :: "nat \<Rightarrow> 'l http_handler \<Rightarrow> ('l world \<Rightarrow> nat) \<Rightarrow> bool" where
  "probe_answers a h status \<longleftrightarrow> (\<forall>w wr r. rw_sent (writers w wr) = None \<longrightarrow>
     (\<exists>w' body. h wr r w = (Ok (), w') \<and> flags w' a = flags w a \<and>
        answered (status w) body (writers w wr) (writers w' wr)))"

definition greets :: "('l, http_request, unit) runtime \<Rightarrow> 'l http_handler \<Rightarrow> string \<Rightarrow> bool" where
  "greets rt h text \<longleftrightarrow> (\<forall>w wr r tr. server_tr (r_ctx r) = Some tr \<longrightarrow>
     (\<exists>w'. h wr r w = (Ok (), w') \<and>
        rw_body (writers w' wr) = rw_body (writers (snd (request_id rt tr w)) wr) @ text))"

lemma healthz_answers: "probe_answers a healthHandler (\<lambda>_. 200)"
proof -
  have "\<exists>w' body. healthHandler wr r w = (Ok (), w') \<and> flags w' a = flags w a \<and>
      answered 200 body (writers w wr) (writers w' wr)"
    if sent: "rw_sent (writers w wr) = None" for w wr r
    using answer_run [OF sent, of 200 health_body] by (auto simp: healthHandler_def)
  then show ?thesis
    unfolding probe_answers_def by blast
qed

text \<open>A readiness endpoint whose probes only look at the world, and not at the state of contexts.\<close>

definition ctx_blind :: "('l world \<Rightarrow> 'b) \<Rightarrow> bool" where
  "ctx_blind f \<longleftrightarrow> (\<forall>w ce dl. f (w\<lparr>ctx_errs := ce, deadlines := dl\<rparr>) = f w)"

lemma ctx_blindD:
  assumes "ctx_blind f"
  shows "f (ctx_start n d c w) = f w" and "f (ctx_stop c w) = f w"
proof -
  have "ctx_stop c w = w\<lparr>ctx_errs := (ctx_errs w)(cid c := cancel_ctx (ctx_Err c w)), deadlines := deadlines w\<rparr>"
    by (simp add: ctx_stop_def)
  then show "f (ctx_start n d c w) = f w" and "f (ctx_stop c w) = f w"
    using assms unfolding ctx_blind_def ctx_start_def by metis+
qed

definition looks :: "'l pinger \<Rightarrow> ('l world \<Rightarrow> error option) \<Rightarrow> bool" where
  "looks p f \<longleftrightarrow> ctx_blind f \<and> (\<forall>c w. p_Ping p c w = (Ok (f w), w))"

lemma ping_all_looks:
  assumes "list_all2 looks ps fs"
  shows "\<exists>w'. ping_all fresh c ps w = (Ok (zip (map p_Name ps) (map (\<lambda>f. f w) fs)), w') \<and>
    flags w' = flags w \<and> writers w' = writers w"
  using assms
proof (induction ps fs arbitrary: fresh w rule: list_all2_induct)
  case (Cons p ps f fs)
  let ?w = "ctx_stop (c\<lparr>cid := fresh\<rparr>) (ctx_start fresh (2 * 1000000000) c w)"
  have f: "f (ctx_start fresh (2 * 1000000000) c w) = f w" and "p_Ping p c' w0 = (Ok (f w0), w0)" for c' w0
    using Cons.hyps(1) by (simp_all add: looks_def ctx_blindD)
  moreover have "map (\<lambda>f. f ?w) fs = map (\<lambda>f. f w) fs"
    using Cons.hyps(2) by (induction rule: list_all2_induct) (simp_all add: looks_def ctx_blindD)
  moreover obtain w' where "ping_all (Suc fresh) c ps ?w = (Ok (zip (map p_Name ps) (map (\<lambda>f. f w) fs)), w')"
    "flags w' = flags ?w" "writers w' = writers ?w"
    using Cons.IH [of "Suc fresh" ?w] unfolding calculation(3) by blast
  ultimately show ?case
    by (simp add: io_simps)
qed (simp add: io_simps)

lemma readyz_answers:
  assumes "list_all2 looks ps fs"
    and "\<And>w. status w = (if \<forall>f \<in> set fs. f w = None then 200 else 503)"
  shows "probe_answers a (readyHandler et fresh (Some ps)) status"
proof -
  have "\<exists>w' body. readyHandler et fresh (Some ps) wr r w = (Ok (), w') \<and> flags w' a = flags w a \<and>
      answered (status w) body (writers w wr) (writers w' wr)"
    if sent: "rw_sent (writers w wr) = None" for w wr r
  proof -
    let ?rs = "zip (map p_Name ps) (map (\<lambda>f. f w) fs)"
    obtain w1 where ping: "ping_all fresh (r_ctx r) ps w = (Ok ?rs, w1)"
      and same: "flags w1 = flags w" "writers w1 = writers w"
      using ping_all_looks [OF assms(1)] by blast
    have "map snd ?rs = map (\<lambda>f. f w) fs"
      using list_all2_lengthD [OF assms(1)] by simp
    then have "snd ` set ?rs = (\<lambda>f. f w) ` set fs"
      by (metis image_set)
    then have "status w = (if all_ok ?rs then 200 else 503)"
      unfolding assms(2) all_ok_def by (metis (no_types, lifting) image_iff)
    moreover have "rw_sent (writers w1 wr) = None"
      using sent same by simp
    then obtain w' where "readyHandler et fresh (Some ps) wr r w = (Ok (), w')" and "flags w' = flags w1"
      and "answered (if all_ok ?rs then 200 else 503) (ready_body (all_ok ?rs) (checks et ?rs [])) (writers w1 wr) (writers w' wr)"
      using ready_run [OF ping] by blast
    ultimately show ?thesis
      unfolding same by (intro exI conjI) simp_all
  qed
  then show ?thesis
    unfolding probe_answers_def by blast
qed

lemma readyz_unprobed: "probe_answers a (readyHandler et fresh None) (\<lambda>_. 200)"
proof -
  have "\<exists>w' body. readyHandler et fresh None wr r w = (Ok (), w') \<and> flags w' a = flags w a \<and>
      answered 200 body (writers w wr) (writers w' wr)"
    if sent: "rw_sent (writers w wr) = None" for w wr r
    using answer_run [OF sent, of 200 "ready_body True []"] by (auto simp: readyHandler_def io_simps)
  then show ?thesis
    unfolding probe_answers_def by blast
qed

lemma greets_wrapped:
  assumes "runtime_ok rt"
  shows "greets rt (wrapHandler (rt_chain rt) (rt_encode rt) (defaultChain rt) (\<lambda>wr r. with_writer wr (rw_Write text))) text"
proof -
  let ?h = "\<lambda>wr (r :: http_request). with_writer wr (rw_Write text)"
  have "\<exists>w'. wrapHandler (rt_chain rt) (rt_encode rt) (defaultChain rt) ?h wr r w = (Ok (), w') \<and>
      rw_body (writers w' wr) = rw_body (writers (snd (request_id rt tr w)) wr) @ text"
    if tr: "server_tr (r_ctx r) = Some tr" for w wr r tr
  proof -
    obtain i w1 where id: "request_id rt tr w = (i, w1)"
      by (cases "request_id rt tr w")
    define w1' where "w1' = w1\<lparr>trace := trace w1 @ [ReplyHeaderSet (tr_id tr) MetadataKey i]\<rparr>"
    obtain t where "wrap_outcome rt wr r (chain_ctx (r_ctx r) t i) w1'
        (route_handler ?h wr r (chain_ctx (r_ctx r) t i) r w1')
        (wrapHandler (rt_chain rt) (rt_encode rt) (defaultChain rt) ?h wr r w)"
      using wrap_run [OF assms tr id, of wr "[]" ?h] unfolding w1'_def by auto
    moreover have "route_handler ?h wr r (chain_ctx (r_ctx r) t i) r w1' =
        (Ok (None, None), w1'\<lparr>writers := (writers w1')(wr := rw_Write text (writers w1' wr))\<rparr>)"
      by (simp add: route_handler_def io_simps)
    ultimately have "wrapHandler (rt_chain rt) (rt_encode rt) (defaultChain rt) ?h wr r w = (Ok (),
        w1'\<lparr>writers := (writers w1')(wr := rw_Write text (writers w1' wr)),
          trace := trace w1' @ request_events rt (chain_ctx (r_ctx r) t i) (None, None) w1'
            (w1'\<lparr>writers := (writers w1')(wr := rw_Write text (writers w1' wr))\<rparr>)\<rparr>)"
      by (simp add: wrap_outcome_def)
    then show ?thesis
      by (simp add: id w1'_def rw_Write_def rw_WriteHeader_def Let_def split: option.split)
  qed
  then show ?thesis
    unfolding greets_def by blast
qed

section \<open>Properties\<close>

text \<open>
  What kris-alpha serves: after start the pod is ready; from the moment the shutdown hook, which never
  fails, has set the flag, every request to \<open>/readyz\<close> on the sidecar is answered 503, while \<open>/healthz\<close>
  goes on answering 200 and the business listener goes on serving.
\<close>

definition alpha_serves :: "('l, http_request, unit) runtime \<Rightarrow> nat \<Rightarrow> ('l, 'q, 'r) kratos_app \<Rightarrow> bool" where
  "alpha_serves rth a app \<longleftrightarrow> (\<exists>gs hs oh. app_Server app = [AppGRPC gs, AppHTTP hs, AppHTTP oh] \<and>
     (\<exists>h. serve oh ''/readyz'' = Some h \<and> probe_answers a h (\<lambda>w. if flags w a then 503 else 200)) \<and>
     (\<exists>h. serve oh ''/healthz'' = Some h \<and> probe_answers a h (\<lambda>_. 200)) \<and>
     (\<exists>h. serve hs ''/'' = Some h \<and> greets rth h ''kris-alpha ok''))"

lemma alpha_newApp_run:
  fixes w :: "'l world"
  assumes "runtime_ok rth"
  shows "\<exists>app. alpha_newApp env rtg rth sel info ga ha oa drainGrace a logger appid w =
      (Ok (app, io_ret ()), w\<lparr>flags := (flags w)(a := False)\<rparr>) \<and>
    app_ID app = appid \<and> app_Logger app = logger \<and> app_BeforeStop app = [BeforeStop sel \<lparr>d_delay = drainGrace, d_draining = a\<rparr>] \<and>
    alpha_serves rth a app"
proof -
  let ?d = "\<lparr>d_delay = drainGrace, d_draining = a\<rparr>"
  let ?hs = "biz_S (NewBizHTTPServer rth (tcp_config ha []) (Some (biz_HandleFunc (rt_chain rth) (rt_encode rth) ''/'' alpha_root)) [])"
  obtain app gs where run: "alpha_newApp env rtg rth sel info ga ha oa drainGrace a logger appid w =
      (Ok (app, io_ret ()), w\<lparr>flags := (flags w)(a := False)\<rparr>)"
    and stop: "app_BeforeStop app = [BeforeStop sel ?d]" "app_ID app = appid" "app_Logger app = logger"
    and srv: "app_Server app = [AppGRPC gs, AppHTTP ?hs, AppHTTP (sidecar env info oa (Some [ReadinessPinger ?d]))]"
    by (simp add: alpha_newApp_def NewDrainer_def Let_def io_simps)
  have "probe_answers a (readyHandler (sc_err_text env) (sc_fresh env) (Some [ReadinessPinger ?d :: 'l pinger]))
      (\<lambda>w. if flags w a then 503 else 200)"
    by (rule readyz_answers [where fs = "[\<lambda>w. if flags w a then Some ErrDraining else None]"])
       (simp_all add: ReadinessPinger_def io_simps looks_def ctx_blind_def)
  moreover have "serve ?hs ''/'' = Some (wrapHandler (rt_chain rth) (rt_encode rth) (defaultChain rth) alpha_root)"
    by (simp add: serve_def NewBizHTTPServer_def Let_def biz_HandleFunc_def khttp_HandleFunc_def
        khttp_NewServer_def tcp_config_def)
  moreover have "probe_answers a (healthHandler :: 'l http_handler) (\<lambda>_. 200)"
    by (rule healthz_answers)
  ultimately have "alpha_serves rth a app"
    unfolding alpha_serves_def srv using greets_wrapped [OF assms, of "''kris-alpha ok''"]
    by (simp add: sidecar_serve alpha_root_def [abs_def])
  with run stop show ?thesis by blast
qed

definition demo_sidecar :: "'l sidecar_env" where
  "demo_sidecar = \<lparr>sc_err_text = (\<lambda>_. ''err''), sc_fresh = 1, sc_metrics = (\<lambda>_ _. io_ret ()),
     sc_pprof = (\<lambda>_ _ _. io_ret ()), sc_go = ''go1.25'',
     sc_With = (\<lambda>l bvs level kvs. l level (map (resolve VNil VNil) bvs @ kvs)), sc_std = (\<lambda>_ _ w. (None, w))\<rparr>"

definition demo_info :: Info where
  "demo_info = \<lparr>i_Name = ''kris'', i_Version = ''dev'', i_Commit = [], i_BuildTime = [], i_Go = []\<rparr>"

section \<open>kris-beta, request by request\<close>

text \<open>The gates of kris-beta in front of a route that is not exempt.\<close>

definition beta_auth :: "'l auth_options" where
  "beta_auth = \<lparr>validator = Some beta_validator, auth_skipFn = Some beta_skip,
     auth_header = ''authorization'', auth_scheme = ''Bearer ''\<rparr>"

definition beta_rate :: ratelimit_options where
  "beta_rate = \<lparr>rl_rps = 50, rl_burst = 100, keyFn = None, rl_skipFn = None\<rparr>"

lemma beta_auth_Server:
  "auth_Server fr et [WithValidator beta_validator, auth_WithSkip beta_skip] = Ok (auth_handle fr et beta_auth beta_validator)"
  by (simp add: auth_Server_def WithValidator_def auth_WithSkip_def auth_default_options_def beta_auth_def)

lemma defaultKey_peer_ctx [simp]:
  "defaultKey_peer (chain_ctx c t i) = defaultKey_peer c"
  "defaultKey_peer (c\<lparr>auth_key := k\<rparr>) = defaultKey_peer c"
  by (simp_all add: defaultKey_peer_def remotePeer_def chain_ctx_def)

lemma defaultKey_ctx [simp]:
  "defaultKey (chain_ctx c t i) op = defaultKey c op"
  "defaultKey (c\<lparr>auth_key := k\<rparr>) op = defaultKey c op"
  by (simp_all add: defaultKey_def Let_def cong: option.case_cong if_cong)

lemma beta_gates:
  fixes w :: "'l world"
  assumes "server_op c \<noteq> ''/''" and "tok = auth_token fr (beta_auth :: 'l auth_options) c"
    and "bucket_allow ops (buckets w b) (defaultKey c (server_op c)) (clock w) = (ok, bk)"
  shows "auth_handle fr et beta_auth beta_validator (ratelimit_handle ops beta_rate b h) c q w =
    (if \<not> HasPrefix tok ''demo-'' then (Ok (None, Some ErrUnauthorized), w)
     else if \<not> ok then (Ok (None, Some ErrTooManyRequests), w\<lparr>buckets := (buckets w)(b := bk)\<rparr>)
     else h (c\<lparr>auth_key := Some \<lparr>Subject = TrimPrefix tok ''demo-'', Scopes = [], Raw = []\<rparr>\<rparr>) q
       (w\<lparr>buckets := (buckets w)(b := bk)\<rparr>))"
proof -
  have skip: "\<not> auth_skipped (beta_auth :: 'l auth_options) c"
    using assms(1) by (simp add: auth_skipped_def beta_auth_def beta_skip_def)
  show ?thesis
  proof (cases "HasPrefix tok ''demo-''")
    case True
    let ?cl = "\<lparr>Subject = TrimPrefix tok ''demo-'', Scopes = [], Raw = []\<rparr>"
    have "tok \<noteq> []"
      using True by auto
    then have "auth_handle fr et beta_auth beta_validator (ratelimit_handle ops beta_rate b h) c q w =
        ratelimit_handle ops beta_rate b h (c\<lparr>auth_key := Some ?cl\<rparr>) q w"
      using True skip assms(2) by (simp add: auth_handle_def Let_def beta_validator_def io_simps)
    moreover have "server_op (c\<lparr>auth_key := Some ?cl\<rparr>) = server_op c"
      by (simp add: server_op_def)
    then have "ratelimit_handle ops beta_rate b h (c\<lparr>auth_key := Some ?cl\<rparr>) q w =
        (if \<not> ok then (Ok (None, Some ErrTooManyRequests), w\<lparr>buckets := (buckets w)(b := bk)\<rparr>)
         else h (c\<lparr>auth_key := Some ?cl\<rparr>) q (w\<lparr>buckets := (buckets w)(b := bk)\<rparr>))"
      using assms(3) by (simp add: ratelimit_handle_def rl_skipped_def rl_key_def beta_rate_def io_simps)
    ultimately show ?thesis
      using True by simp
  next
    case False
    then have "auth_handle fr et beta_auth beta_validator (ratelimit_handle ops beta_rate b h) c q w =
        (Ok (None, Some ErrUnauthorized), w)"
      using skip assms(2)
      by (simp add: auth_handle_def Let_def beta_validator_def io_simps mapErr_def)
    with False show ?thesis by simp
  qed
qed

lemma TrimPrefix_demo: "HasPrefix tok ''demo-'' \<Longrightarrow> TrimPrefix tok ''demo-'' = drop 5 tok"
  by (simp add: TrimPrefix_def eval_nat_numeral)

lemma beta_server_run:
  "beta_server fr et secs ops rt addr b w =
     (Ok (biz_HandleFunc (rt_chain rt) (rt_encode rt) ''/whoami'' beta_whoami (biz_HandleFunc (rt_chain rt) (rt_encode rt) ''/'' beta_root
        (NewBizHTTPServer rt (tcp_config addr [cors_New secs [WithAllowedOrigins [''*''],
           WithAllowedMethods [''GET'', ''POST'', ''OPTIONS'']]]) None
          [auth_handle fr et beta_auth beta_validator, ratelimit_handle ops beta_rate b]))),
      w\<lparr>buckets := (buckets w)(b := newBucket 50 100)\<rparr>)"
  by (simp add: beta_server_def beta_auth_Server ratelimit_Server_def WithRate_def ratelimit_default_options_def
      Let_def io_simps NewBizHTTPServer_def beta_rate_def)

lemma beta_serve_whoami:
  assumes "beta_server fr et secs ops rt addr b w = (Ok srv, w0)"
  shows "serve (biz_S srv) ''/whoami'' = Some (cors_New secs [WithAllowedOrigins [''*''],
      WithAllowedMethods [''GET'', ''POST'', ''OPTIONS'']] (wrapHandler (rt_chain rt) (rt_encode rt) (defaultChain rt @
        [auth_handle fr et beta_auth beta_validator, ratelimit_handle ops beta_rate b]) beta_whoami))"
  using assms
  by (auto simp: beta_server_run serve_def NewBizHTTPServer_def Let_def biz_HandleFunc_def
      khttp_HandleFunc_def khttp_NewServer_def tcp_config_def)

text \<open>The settings of kris-beta's CORS filter, and what the filter does before the route runs.\<close>

definition beta_cors :: cors_options where
  "beta_cors = apply_opts defaultOptions [WithAllowedOrigins [''*''], WithAllowedMethods [''GET'', ''POST'', ''OPTIONS'']]"

definition after_cors :: "string \<Rightarrow> nat \<Rightarrow> 'l world \<Rightarrow> 'l world" where
  "after_cors origin wr w =
     (if origin = [] then w else w\<lparr>writers := (writers w)(wr := cors_headers beta_cors origin (writers w wr))\<rparr>)"

lemma beta_cors_run:
  "cors_New secs [WithAllowedOrigins [''*''], WithAllowedMethods [''GET'', ''POST'', ''OPTIONS'']] hn wr r w =
     (let origin = header_Get (r_header r) ''Origin'' in
      if origin \<noteq> [] \<and> is_preflight r
      then (Ok (), w\<lparr>writers := (writers w)(wr := rw_WriteHeader 204 (preflight_headers secs beta_cors
        (cors_headers beta_cors origin (writers w wr))))\<rparr>)
      else hn wr r (after_cors origin wr w))"
proof (cases "header_Get (r_header r) ''Origin'' = []")
  case True
  then show ?thesis
    by (simp add: cors_New_def after_cors_def)
next
  case False
  have "allowAnyOrigin beta_cors"
    by (simp add: beta_cors_def WithAllowedOrigins_effect WithAllowedMethods_def)
  then have "originAllowed beta_cors (header_Get (r_header r) ''Origin'')"
    by (simp add: originAllowed_def)
  from cors_New_unfold [OF refl False this [unfolded beta_cors_def], of secs hn wr w, folded beta_cors_def] False
  show ?thesis
    by (simp only: Let_def after_cors_def simp_thms if_True if_False not_False_eq_True)
qed

text \<open>What the gates and the route make of a request that the filter lets pass, given the caller's token.\<close>

definition whoami_answer ::
  "error_encoder \<Rightarrow> nat \<Rightarrow> http_request \<Rightarrow> nat \<Rightarrow> bool \<Rightarrow> 'l bucket \<Rightarrow> string \<Rightarrow> 'l world \<Rightarrow> 'l world \<Rightarrow>
   event list \<Rightarrow> bool" where
  "whoami_answer encode wr r b ok bk tok w2 w3 evs \<longleftrightarrow> trace w3 = trace w2 @ evs \<and>
     (if \<not> HasPrefix tok ''demo-'' then
        writers w3 = (writers w2)(wr := encode r ErrUnauthorized (writers w2 wr)) \<and> buckets w3 = buckets w2 \<and>
        last evs = ErrorEncoded wr ErrUnauthorized
      else if \<not> ok then
        writers w3 = (writers w2)(wr := encode r ErrTooManyRequests (writers w2 wr)) \<and>
        buckets w3 = (buckets w2)(b := bk) \<and> last evs = ErrorEncoded wr ErrTooManyRequests
      else
        writers w3 = (writers w2)(wr := rw_Write (''hello, '' @ drop 5 tok) (writers w2 wr)) \<and>
        buckets w3 = (buckets w2)(b := bk) \<and> (\<forall>e. ErrorEncoded wr e \<notin> set evs))"

lemma whoami_wrapped:
  fixes w1 :: "'l world"
  assumes "runtime_ok rt" and "server_tr (r_ctx r) = Some tr" and "tr_operation tr = ''/whoami''"
    and "request_id rt tr w1 = (i, w2)"
    and "bucket_allow ops (buckets w2 b) (defaultKey (r_ctx r) ''/whoami'') (clock w2) = (ok, bk)"
  shows "\<exists>w3 evs. wrapHandler (rt_chain rt) (rt_encode rt) (defaultChain rt @
      [auth_handle fr et beta_auth beta_validator, ratelimit_handle ops beta_rate b]) beta_whoami wr r w1 = (Ok (), w3) \<and>
    whoami_answer (rt_encode rt) wr r b ok bk (extractToken fr (tr_request tr ''authorization'') ''Bearer '') w2 w3 evs"
proof -
  let ?extra = "[auth_handle fr et beta_auth beta_validator, ratelimit_handle ops beta_rate b]"
  let ?tok = "extractToken fr (tr_request tr ''authorization'') ''Bearer ''"
  define w2' where "w2' = w2\<lparr>trace := trace w2 @ [ReplyHeaderSet (tr_id tr) MetadataKey i]\<rparr>"
  obtain t where out: "wrap_outcome rt wr r (chain_ctx (r_ctx r) t i) w2'
      (auth_handle fr et beta_auth beta_validator (ratelimit_handle ops beta_rate b (route_handler beta_whoami wr r))
        (chain_ctx (r_ctx r) t i) r w2')
      (wrapHandler (rt_chain rt) (rt_encode rt) (defaultChain rt @ ?extra) beta_whoami wr r w1)"
    using wrap_run [OF assms(1,2,4), of wr ?extra beta_whoami] unfolding w2'_def by auto
  have op: "server_op (chain_ctx (r_ctx r) t i) = ''/whoami''"
    using assms(2,3) by (simp add: server_op_def)
  have tok: "auth_token fr (beta_auth :: 'l auth_options) (chain_ctx (r_ctx r) t i) = ?tok"
    using assms(2) by (simp add: auth_token_def beta_auth_def)
  have gates: "auth_handle fr et beta_auth beta_validator (ratelimit_handle ops beta_rate b (route_handler beta_whoami wr r))
      (chain_ctx (r_ctx r) t i) r w2' =
    (if \<not> HasPrefix ?tok ''demo-'' then (Ok (None, Some ErrUnauthorized), w2')
     else if \<not> ok then (Ok (None, Some ErrTooManyRequests), w2'\<lparr>buckets := (buckets w2)(b := bk)\<rparr>)
     else (Ok (None, None), w2'\<lparr>buckets := (buckets w2)(b := bk),
       writers := (writers w2)(wr := rw_Write (''hello, '' @ drop 5 ?tok) (writers w2 wr))\<rparr>))"
    using beta_gates [of "chain_ctx (r_ctx r) t i" ?tok fr ops w2' b ok bk et "route_handler beta_whoami wr r" r]
      op tok assms(5)
    by (simp add: w2'_def route_handler_def beta_whoami_def auth_FromContext_def TrimPrefix_demo io_simps)
  show ?thesis
    using out unfolding gates
    by (auto simp: whoami_answer_def wrap_outcome_def encoded_def w2'_def request_events_def split: if_splits)
qed

text \<open>
  C7. kris-beta's \<open>/whoami\<close>, end to end (CORS filter, default chain, authentication, rate limiting,
  route), for every request. A preflight is answered by the filter: no token is asked for, none is
  taken from a bucket, and nothing is counted. Any other request, with or without an origin: a token
  \<open>demo-x\<close> is greeted as \<open>x\<close>, with nothing encoded over the answer, as long as the caller's bucket has
  a token; else it is answered 429. A request without such a token is answered 401 and costs no token.
  Both errors are what kratos's error encoder writes, as the last thing that happens.
  The handler's own answer to missing claims is never given.
\<close>

theorem beta_whoami_spec:
  fixes w :: "'l world"
  assumes "runtime_ok rt" and "beta_server fr et secs ops rt addr b w = (Ok srv, w0)"
    and "server_tr (r_ctx r) = Some tr" and "tr_operation tr = ''/whoami''"
    and "origin = header_Get (r_header r) ''Origin''" and "request_id rt tr (after_cors origin wr w1) = (i, w2)"
    and "bucket_allow ops (buckets w2 b) (defaultKey (r_ctx r) ''/whoami'') (clock w2) = (ok, bk)"
  shows "\<exists>h w3 evs. serve (biz_S srv) ''/whoami'' = Some h \<and> h wr r w1 = (Ok (), w3) \<and>
    (if origin \<noteq> [] \<and> is_preflight r then
       trace w3 = trace w1 \<and> buckets w3 = buckets w1 \<and>
       (rw_sent (writers w1 wr) = None \<longrightarrow> map_option fst (rw_sent (writers w3 wr)) = Some 204)
     else whoami_answer (rt_encode rt) wr r b ok bk (extractToken fr (tr_request tr ''authorization'') ''Bearer '') w2 w3 evs)"
proof -
  let ?extra = "[auth_handle fr et beta_auth beta_validator, ratelimit_handle ops beta_rate b]"
  let ?h = "cors_New secs [WithAllowedOrigins [''*''], WithAllowedMethods [''GET'', ''POST'', ''OPTIONS'']]
      (wrapHandler (rt_chain rt) (rt_encode rt) (defaultChain rt @ ?extra) beta_whoami)"
  have serve: "serve (biz_S srv) ''/whoami'' = Some ?h"
    by (rule beta_serve_whoami [OF assms(2)])
  show ?thesis
  proof (cases "origin \<noteq> [] \<and> is_preflight r")
    case True
    let ?rw = "rw_WriteHeader 204 (preflight_headers secs beta_cors (cors_headers beta_cors origin (writers w1 wr)))"
    have "?h wr r w1 = (Ok (), w1\<lparr>writers := (writers w1)(wr := ?rw)\<rparr>)"
      using True by (simp add: beta_cors_run assms(5) [symmetric])
    moreover have "rw_sent (writers w1 wr) = None \<longrightarrow> map_option fst (rw_sent ?rw) = Some 204"
      by (simp add: rw_WriteHeader_def)
    ultimately show ?thesis
      using serve True by simp
  next
    case False
    have "?h wr r w1 = wrapHandler (rt_chain rt) (rt_encode rt) (defaultChain rt @ ?extra) beta_whoami wr r (after_cors origin wr w1)"
      using False by (auto simp: beta_cors_run assms(5) [symmetric])
    then show ?thesis
      unfolding if_not_P [OF False] using serve whoami_wrapped [OF assms(1,3,4,6,7), of fr et wr] by auto
  qed
qed

text \<open>A request to \<open>/whoami\<close> with the token \<open>demo-bob\<close>.\<close>

definition demo_beta_transport :: transporter where
  "demo_beta_transport = \<lparr>tr_id = 1, tr_kind = ''http'', tr_operation = ''/whoami'',
     tr_request = (\<lambda>k. if k = ''x-trace-id'' then ''abc''
        else if k = ''authorization'' then ''Bearer demo-bob'' else [])\<rparr>"

definition demo_beta_request :: http_request where
  "demo_beta_request = \<lparr>r_method = ''GET'', r_path = ''/whoami'', r_header = Map.empty,
     r_ctx = Background\<lparr>server_tr := Some demo_beta_transport\<rparr>\<rparr>"

definition demo_beta_rt :: "(simple_limiter, http_request, unit) runtime" where
  "demo_beta_rt = demo_runtime"

lemma demo_beta_token:
  "extractToken (\<lambda>_ _. False) (tr_request demo_beta_transport ''authorization'') ''Bearer '' = ''demo-bob''"
proof -
  have "no_space_edges ''demo-bob''"
    by code_simp
  then show ?thesis
    using extractToken_accepts [of "''Bearer ''" "''Bearer ''" "''demo-bob''" "\<lambda>_ _. False"]
    by (simp add: demo_beta_transport_def is_ascii_def)
qed

theorem beta_whoami_spec_witness:
  "\<exists>srv w0 h w3. beta_server (\<lambda>_ _. False) (\<lambda>_. ''err'') (\<lambda>_. 600) simple_ops demo_beta_rt '':8082'' 0 demo_world =
      (Ok srv, w0) \<and> serve (biz_S srv) ''/whoami'' = Some h \<and>
    h 0 demo_beta_request w0 = (Ok (), w3) \<and> rw_body (writers w3 0) = ''hello, bob''"
proof -
  obtain srv w0 where srv: "beta_server (\<lambda>_ _. False) (\<lambda>_. ''err'') (\<lambda>_. 600) simple_ops demo_beta_rt '':8082'' 0 demo_world =
      (Ok srv, w0)" and w0: "w0 = demo_world\<lparr>buckets := (buckets demo_world)(0 := newBucket 50 100)\<rparr>"
    by (simp add: beta_server_run)
  have ok: "runtime_ok demo_beta_rt"
    by (simp add: demo_beta_rt_def demo_runtime_ok)
  have tr: "server_tr (r_ctx demo_beta_request) = Some demo_beta_transport"
    and op: "tr_operation demo_beta_transport = ''/whoami''"
    and origin: "[] = header_Get (r_header demo_beta_request) ''Origin''"
    by (simp_all add: demo_beta_request_def demo_beta_transport_def header_Get_def)
  have id: "request_id demo_beta_rt demo_beta_transport (after_cors [] 0 w0) = (''abc'', w0)"
    by (simp add: after_cors_def request_id_def demo_beta_transport_def MetadataKey_def)
  obtain bk where "bucket_allow simple_ops (buckets w0 0) (defaultKey (r_ctx demo_beta_request) ''/whoami'') (clock w0) = (True, bk)"
    by (simp add: w0 bucket_allow_def newBucket_def simple_ops_def sl_tokens_def token_def Let_def)
  from beta_whoami_spec [OF ok srv tr op origin id this] srv show ?thesis
    by (auto simp: demo_beta_token whoami_answer_def w0 demo_world_def new_response_def rw_Write_def rw_WriteHeader_def
        HasPrefix_def eval_nat_numeral)
qed

section \<open>kris-gamma\<close>

text \<open>
  kris-gamma's upstream: when dialling fails there is no connection and readiness does not mention the
  upstream at all, so \<open>/readyz\<close> answers 200 from then on; when it succeeds the cleanup closes exactly
  that connection, and \<open>/readyz\<close> answers 200 while the connection is ready or idle and 503 otherwise.
\<close>

lemma gamma_ready:
  fixes conn_state :: "'h \<Rightarrow> 'l world \<Rightarrow> connectivity"
  assumes "\<And>h. ctx_blind (conn_state h)"
  shows "\<exists>h. serve (gamma_oh senv info addr conn_state conn) ''/readyz'' = Some h \<and>
    probe_answers a h (\<lambda>w. case conn of
      None \<Rightarrow> 200 | Some c \<Rightarrow> if conn_state c w \<in> {Ready, Idle} then 200 else 503)"
proof -
  have "probe_answers a (readyHandler (sc_err_text senv) (sc_fresh senv) (Some (gamma_probes conn_state conn)))
      (\<lambda>w. case conn of None \<Rightarrow> 200 | Some c \<Rightarrow> if conn_state c w \<in> {Ready, Idle} then 200 else 503)"
    using assms
    by (intro readyz_answers [where fs = "case conn of None \<Rightarrow> [] | Some c \<Rightarrow>
          [\<lambda>w. if conn_state c w \<in> {Ready, Idle} then None else Some errUpstreamNotReady]"])
       (auto simp: gamma_probes_def io_simps looks_def ctx_blind_def split: option.split)
  then show ?thesis
    by (simp add: gamma_oh_def sidecar_serve)
qed

lemma gamma_dial_leak_free:
  assumes "client_env_ok env" and "gamma_dial env quoted upstream pw = ((conn, cleanup), pw1)"
  shows "case conn of
      None \<Rightarrow> pw_open pw1 = pw_open pw \<and> cleanup = (\<lambda>w. w)
    | Some h \<Rightarrow> h \<notin> pw_open pw \<and> pw_open pw1 = insert h (pw_open pw) \<and>
        (\<forall>w. pw_open (cleanup w) = pw_open w - {h})"
proof -
  obtain made pw0 where new: "client_New env (gamma_config upstream) [] pw = (made, pw0)"
    by (cases "client_New env (gamma_config upstream) [] pw")
  have "leak_free pw (made, pw0)"
    using client_leak_free(1) [OF assms(1), of pw "gamma_config upstream" "[]"] new by simp
  then show ?thesis
  proof (cases made)
    case (Inl e)
    then have "gamma_dial env quoted upstream pw = ((None, \<lambda>w. w), pool_logf LevelWarn
        (''dial upstream '' @ quoted upstream @ '': '' @ ce_text env e @ '' (continuing without it)'') pw0)"
      using new by (simp add: gamma_dial_def)
    with assms(2) have "conn = None" "cleanup = (\<lambda>w. w)" "pw_open pw1 = pw_open pw0"
      by (auto simp: pool_logf_def)
    then show ?thesis
      using \<open>leak_free pw (made, pw0)\<close> Inl by (simp add: leak_free_def untouched_def)
  next
    case (Inr made')
    obtain h cl where made': "made' = (h, cl)"
      by (cases made')
    have "conn = Some h" "cleanup = cl" "pw1 = pw0"
      using assms(2) new Inr made' by (simp_all add: gamma_dial_def)
    moreover have "cl = client_cleanup env ''conn close: '' ''downstream closed'' h"
      using new Inr made' client_New_made by metis
    ultimately show ?thesis
      using \<open>leak_free pw (made, pw0)\<close> Inr made' by (simp add: leak_free_def client_cleanup_open [OF assms(1)])
  qed
qed

end
