(* ===== verification/Go_Flag.thy ===== *)
theory Go_Flag
  imports Go_Time "HOL-Library.AList"
begin

text \<open>
  The part of the standard library's \<open>flag\<close> package the services use: string and duration flags of the
  command line, whose errors end the process (\<open>flag.ExitOnError\<close>), with status 0 when help is asked
  for and 2 otherwise.
\<close>

section \<open>Model\<close>

datatype flag_value = StringValue string | DurationValue duration

text \<open>The defined flags with their current values, the defaults at first.\<close>

type_synonym flag_set = "(string \<times> flag_value) list"

definition flag_StringVar :: "string \<Rightarrow> string \<Rightarrow> flag_set \<Rightarrow> flag_set" where
  "flag_StringVar name dflt fs = AList.update name (StringValue dflt) fs"

definition flag_DurationVar :: "string \<Rightarrow> duration \<Rightarrow> flag_set \<Rightarrow> flag_set" where
  "flag_DurationVar name dflt fs = AList.update name (DurationValue dflt) fs"

datatype flag_error =
    ErrHelp
  | BadSyntax string
  | NotDefined string
  | NeedsArgument string
  | InvalidValue string string

text \<open>
  How \<open>parseOne\<close> reads an argument: not a flag (or the terminator \<open>--\<close>), malformed, or a flag with or
  without a value after \<open>=\<close>.
\<close>

datatype flag_token = NoFlag | Malformed | Flag string "string option"

definition read_flag :: "string \<Rightarrow> flag_token" where
  "read_flag s =
     (if length s < 2 \<or> hd s \<noteq> CHR ''-'' then NoFlag
      else if s = ''--'' then NoFlag
      else
        (let name = drop (if s ! 1 = CHR ''-'' then 2 else 1) s in
         if name = [] \<or> hd name = CHR ''-'' \<or> hd name = CHR ''='' then Malformed
         else case IndexByte name (CHR ''='') of
                None \<Rightarrow> Flag name None
              | Some i \<Rightarrow> Flag (take i name) (Some (drop (i + 1) name))))"

text \<open>\<open>Value.Set\<close>\<close>

definition set_value :: "(nat \<Rightarrow> nat \<Rightarrow> nat \<Rightarrow> nat) \<Rightarrow> flag_value \<Rightarrow> string \<Rightarrow> flag_value option" where
  "set_value float_part old text =
     (case old of
        StringValue _ \<Rightarrow> Some (StringValue text)
      | DurationValue _ \<Rightarrow> map_option DurationValue (ParseDuration float_part text))"

definition set_flag ::
  "(nat \<Rightarrow> nat \<Rightarrow> nat \<Rightarrow> nat) \<Rightarrow> flag_set \<Rightarrow> string \<Rightarrow> string \<Rightarrow> flag_error + flag_set" where
  "set_flag float_part fs name text =
     (case map_of fs name of
        None \<Rightarrow> Inl (NotDefined name)
      | Some old \<Rightarrow>
          (case set_value float_part old text of
             None \<Rightarrow> Inl (InvalidValue text name)
           | Some v \<Rightarrow> Inr (AList.update name v fs)))"

fun parse_args ::
  "(nat \<Rightarrow> nat \<Rightarrow> nat \<Rightarrow> nat) \<Rightarrow> flag_set \<Rightarrow> string list \<Rightarrow> flag_error + flag_set" where
  "parse_args float_part fs [] = Inr fs"
| "parse_args float_part fs (s # args) =
     (case read_flag s of
        NoFlag \<Rightarrow> Inr fs
      | Malformed \<Rightarrow> Inl (BadSyntax s)
      | Flag name val \<Rightarrow>
          if map_of fs name = None then
            Inl (if name = ''help'' \<or> name = ''h'' then ErrHelp else NotDefined name)
          else
            (case val of
               Some text \<Rightarrow>
                 (case set_flag float_part fs name text of Inl e \<Rightarrow> Inl e | Inr fs' \<Rightarrow> parse_args float_part fs' args)
             | None \<Rightarrow>
                 (case args of
                    [] \<Rightarrow> Inl (NeedsArgument name)
                  | text # args' \<Rightarrow>
                      (case set_flag float_part fs name text of
                         Inl e \<Rightarrow> Inl e | Inr fs' \<Rightarrow> parse_args float_part fs' args'))))"

text \<open>\<open>flag.Parse()\<close>: the flags, or the status the process exits with.\<close>

definition flag_Parse :: "(nat \<Rightarrow> nat \<Rightarrow> nat \<Rightarrow> nat) \<Rightarrow> flag_set \<Rightarrow> string list \<Rightarrow> nat + flag_set" where
  "flag_Parse float_part fs args =
     (case parse_args float_part fs args of
        Inl ErrHelp \<Rightarrow> Inl 0
      | Inl _ \<Rightarrow> Inl 2
      | Inr fs' \<Rightarrow> Inr fs')"

definition flag_string :: "flag_set \<Rightarrow> string \<Rightarrow> string" where
  "flag_string fs name = (case map_of fs name of Some (StringValue s) \<Rightarrow> s | _ \<Rightarrow> [])"

definition flag_duration :: "flag_set \<Rightarrow> string \<Rightarrow> duration" where
  "flag_duration fs name = (case map_of fs name of Some (DurationValue d) \<Rightarrow> d | _ \<Rightarrow> 0)"

section \<open>What a command line means\<close>

text \<open>The ways to write a setting: with one or two dashes, the value after \<open>=\<close> or as the next argument.\<close>

datatype flag_style = Joined | Spaced

fun spell_flag :: "bool \<times> flag_style \<times> string \<times> string \<Rightarrow> string list" where
  "spell_flag (two, Joined, name, v) = [(if two then ''--'' else ''-'') @ name @ ''='' @ v]"
| "spell_flag (two, Spaced, name, v) = [(if two then ''--'' else ''-'') @ name, v]"

definition flag_name_ok :: "string \<Rightarrow> bool" where
  "flag_name_ok name \<longleftrightarrow> name \<noteq> [] \<and> hd name \<noteq> CHR ''-'' \<and> CHR ''='' \<notin> set name"

lemma read_flag_spelled:
  assumes "flag_name_ok name"
  shows "read_flag ((if two then ''--'' else ''-'') @ name) = Flag name None"
    and "read_flag ((if two then ''--'' else ''-'') @ name @ ''='' @ v) = Flag name (Some v)"
proof -
  obtain c cs where name: "name = c # cs"
    using assms by (cases name) (auto simp: flag_name_ok_def)
  then have c: "c \<noteq> CHR ''-''" "c \<noteq> CHR ''=''" "CHR ''='' \<notin> set cs"
    using assms by (auto simp: flag_name_ok_def)
  show "read_flag ((if two then ''--'' else ''-'') @ name) = Flag name None"
    using c IndexByte_None [of cs "CHR ''=''"] by (auto simp: read_flag_def name Let_def simp del: IndexByte_None)
  have "IndexByte (name @ ''='' @ v) (CHR ''='') = Some (length name)"
    using c by (simp add: name)
  then show "read_flag ((if two then ''--'' else ''-'') @ name @ ''='' @ v) = Flag name (Some v)"
    using c by (auto simp: read_flag_def name Let_def)
qed

fun apply_flag ::
  "(nat \<Rightarrow> nat \<Rightarrow> nat \<Rightarrow> nat) \<Rightarrow> bool \<times> flag_style \<times> string \<times> string \<Rightarrow> flag_error + flag_set \<Rightarrow> flag_error + flag_set" where
  "apply_flag fp p (Inl e) = Inl e"
| "apply_flag fp (two, style, name, v) (Inr fs) = set_flag fp fs name v"

lemma set_flag_names:
  assumes "set_flag fp fs name v = Inr fs'"
  shows "map_of fs' n = None \<longleftrightarrow> map_of fs n = None"
  using assms by (auto simp: set_flag_def update_conv' split: option.splits if_splits)

lemma parse_args_spelled:
  assumes "\<forall>(two, style, name, v) \<in> set ss. flag_name_ok name \<and> map_of fs name \<noteq> None"
  shows "parse_args fp fs (concat (map spell_flag ss)) = fold (apply_flag fp) ss (Inr fs)"
  using assms
proof (induction ss arbitrary: fs)
  case (Cons p ss)
  obtain two style name v where p: "p = (two, style, name, v)"
    by (cases p)
  have ok: "flag_name_ok name" "map_of fs name \<noteq> None"
    using Cons.prems by (simp_all add: p)
  have stop: "fold (apply_flag fp) ss (Inl e) = Inl e" for e
    by (induction ss) auto
  have "parse_args fp fs (spell_flag p @ concat (map spell_flag ss)) =
      (case set_flag fp fs name v of Inl e \<Rightarrow> Inl e
       | Inr fs' \<Rightarrow> parse_args fp fs' (concat (map spell_flag ss)))"
    using ok read_flag_spelled(1) [OF ok(1), of two] read_flag_spelled(2) [OF ok(1), of two v]
    by (cases style; cases two) (auto simp: p)
  also have "\<dots> = fold (apply_flag fp) ss (set_flag fp fs name v)"
  proof (cases "set_flag fp fs name v")
    case (Inr fs')
    then have "\<forall>(two, style, name, v) \<in> set ss. flag_name_ok name \<and> map_of fs' name \<noteq> None"
      using Cons.prems set_flag_names [OF Inr] by auto
    with Inr Cons.IH show ?thesis by simp
  qed (simp add: stop)
  finally show ?case
    by (simp add: p)
qed simp

end
