(* ===== verification/Mains.thy ===== *)
theory Mains
  imports Services Go_Flag
begin

text \<open>
  The functions \<open>main\<close> of the three services (cmd/*/main.go): build variables and flags, host name, the
  wiring of \<open>Services\<close>, and the run of the application until it ends. \<open>kratos.App.Run\<close> is the parameter
  \<open>run\<close>. A process ends when \<open>main\<close> returns, when \<open>os.Exit\<close> is called (by \<open>flag.Parse\<close> and by
  \<open>Helper.Fatalf\<close>, and then deferred functions do not run), or by a panic.
\<close>

section \<open>Model\<close>

datatype main_end = MainReturned | OsExit nat | MainPanicked string

text \<open>\<open>id, _ := os.Hostname()\<close>\<close>

definition host_id :: "error + string \<Rightarrow> string" where
  "host_id host = (case host of Inl _ \<Rightarrow> [] | Inr h \<Rightarrow> h)"

text \<open>
  \<open>if err := app.Run(); err != nil { helper.Fatalf("app run: %v", err) }\<close>, with \<open>cleanup\<close> deferred;
  \<open>fatalf\<close> writes the line.
\<close>

definition run_app ::
  "(string \<Rightarrow> 'w \<Rightarrow> 'w) \<Rightarrow> (error \<Rightarrow> string) \<Rightarrow> ('w, error option) io \<Rightarrow> ('w \<Rightarrow> 'w) \<Rightarrow> 'w \<Rightarrow> main_end \<times> 'w" where
  "run_app fatalf err_text run cleanup w =
     (case run w of
        (Ok (Some e), w1) \<Rightarrow> (OsExit 1, fatalf (''app run: '' @ err_text e) w1)
      | (Ok None, w1) \<Rightarrow> (MainReturned, cleanup w1)
      | (Panic v, w1) \<Rightarrow> (MainPanicked v, cleanup w1)
      | (Crash v, w1) \<Rightarrow> (MainPanicked v, w1))"

definition world_fatalf :: "string \<Rightarrow> 'l world \<Rightarrow> 'l world" where
  "world_fatalf msg w = w\<lparr>trace := trace w @ [Logw LevelFatal [(''msg'', VStr msg)]]\<rparr>"

subsection \<open>kris-alpha\<close>

text \<open>The build variables, unless the linker sets them.\<close>

definition alpha_build :: Info where
  "alpha_build = \<lparr>i_Name = ''kris-alpha'', i_Version = ''dev'', i_Commit = [], i_BuildTime = [], i_Go = []\<rparr>"

definition alpha_flags :: flag_set where
  "alpha_flags =
     flag_DurationVar ''drain-grace'' (10 * second) (flag_StringVar ''other'' '':8081''
       (flag_StringVar ''http'' '':8080'' (flag_StringVar ''grpc'' '':50051'' [])))"

definition alpha_main ::
  "'l sidecar_env \<Rightarrow> ('l, 'q, 'r) runtime \<Rightarrow> ('l, http_request, unit) runtime \<Rightarrow>
   'l timer_select \<Rightarrow> (nat \<Rightarrow> nat \<Rightarrow> nat \<Rightarrow> nat) \<Rightarrow>
   (('l, 'q, 'r) kratos_app \<Rightarrow> ('l world, error option) io) \<Rightarrow> Info \<Rightarrow> error + string \<Rightarrow> string list \<Rightarrow> nat \<Rightarrow>
   'l world \<Rightarrow> main_end \<times> 'l world" where
  "alpha_main env rtg rth sel float_part run build host args a w =
     (case flag_Parse float_part alpha_flags args of
        Inl code \<Rightarrow> (OsExit code, w)
      | Inr fs \<Rightarrow>
          (case alpha_newApp env rtg rth sel build (flag_string fs ''grpc'') (flag_string fs ''http'')
              (flag_string fs ''other'') (flag_duration fs ''drain-grace'') a
              (service_logger env build (host_id host)) (host_id host) w of
             (Ok (app, cleanup), w1) \<Rightarrow>
               run_app world_fatalf (sc_err_text env) (run app) (\<lambda>w. snd (cleanup w)) w1
           | (Panic v, w1) \<Rightarrow> (MainPanicked v, w1)
           | (Crash v, w1) \<Rightarrow> (MainPanicked v, w1)))"

subsection \<open>kris-beta\<close>

definition beta_build :: Info where
  "beta_build = \<lparr>i_Name = ''kris-beta'', i_Version = ''dev'', i_Commit = [], i_BuildTime = [], i_Go = []\<rparr>"

definition beta_flags :: flag_set where
  "beta_flags = flag_StringVar ''other'' '':8083'' (flag_StringVar ''http'' '':8082'' [])"

definition beta_main ::
  "'l sidecar_env \<Rightarrow> (string \<Rightarrow> string \<Rightarrow> bool) \<Rightarrow> (duration \<Rightarrow> int) \<Rightarrow> 'l rate_ops \<Rightarrow>
   ('l, http_request, unit) runtime \<Rightarrow> (nat \<Rightarrow> nat \<Rightarrow> nat \<Rightarrow> nat) \<Rightarrow>
   (('l, 'q, 'r) kratos_app \<Rightarrow> ('l world, error option) io) \<Rightarrow> Info \<Rightarrow> error + string \<Rightarrow> string list \<Rightarrow> nat \<Rightarrow>
   'l world \<Rightarrow> main_end \<times> 'l world" where
  "beta_main env fold_rest secs ops rt float_part run build host args b w =
     (case flag_Parse float_part beta_flags args of
        Inl code \<Rightarrow> (OsExit code, w)
      | Inr fs \<Rightarrow>
          (case beta_server fold_rest (sc_err_text env) secs ops rt (flag_string fs ''http'') b w of
             (Ok hs, w1) \<Rightarrow>
               (let oh = beta_oh env build (flag_string fs ''other'');
                    app = \<lparr>app_ID = host_id host, app_Name = i_Name build, app_Version = i_Version build,
                      app_Logger = service_logger env build (host_id host), app_Server = [AppHTTP (biz_S hs), AppHTTP oh], app_BeforeStop = []\<rparr>
                in run_app world_fatalf (sc_err_text env) (run app) (\<lambda>w. w) w1)
           | (Panic v, w1) \<Rightarrow> (MainPanicked v, w1)
           | (Crash v, w1) \<Rightarrow> (MainPanicked v, w1)))"

subsection \<open>kris-gamma\<close>

definition gamma_build :: Info where
  "gamma_build = \<lparr>i_Name = ''kris-gamma'', i_Version = ''dev'', i_Commit = [], i_BuildTime = [], i_Go = []\<rparr>"

definition gamma_flags :: flag_set where
  "gamma_flags =
     flag_StringVar ''upstream'' ''kris-alpha:50051'' (flag_StringVar ''other'' '':8085''
       (flag_StringVar ''grpc'' '':50053'' []))"

text \<open>The world of requests and the world of connections, side by side.\<close>

definition gamma_app ::
  "'l sidecar_env \<Rightarrow> ('l, 'q, 'r) runtime \<Rightarrow> (ctx \<Rightarrow> 'l world \<Rightarrow> 'l world option) \<Rightarrow> nat \<Rightarrow>
   ('h \<Rightarrow> 'l world \<Rightarrow> connectivity) \<Rightarrow> Info \<Rightarrow> string \<Rightarrow> flag_set \<Rightarrow> 'h option \<Rightarrow> ('l, 'q, 'r) kratos_app" where
  "gamma_app env rt sched fresh conn_state build appid fs conn =
     \<lparr>app_ID = appid, app_Name = i_Name build, app_Version = i_Version build,
      app_Logger = service_logger env build appid, app_Server = [AppGRPC (gamma_gs rt sched fresh (flag_string fs ''grpc'')),
        AppHTTP (gamma_oh env build (flag_string fs ''other'') conn_state conn)],
      app_BeforeStop = []\<rparr>"

definition gamma_main ::
  "'l sidecar_env \<Rightarrow> ('l, 'q, 'r) runtime \<Rightarrow> (ctx \<Rightarrow> 'l world \<Rightarrow> 'l world option) \<Rightarrow> nat \<Rightarrow>
   ('l, 'u, 'v, 'h, 'x) client_env \<Rightarrow> (string \<Rightarrow> string) \<Rightarrow> ('h \<Rightarrow> 'l world \<Rightarrow> connectivity) \<Rightarrow>
   (nat \<Rightarrow> nat \<Rightarrow> nat \<Rightarrow> nat) \<Rightarrow>
   (('l, 'q, 'r) kratos_app \<Rightarrow> ('l world \<times> 'h pool_world, error option) io) \<Rightarrow>
   Info \<Rightarrow> error + string \<Rightarrow> string list \<Rightarrow> 'l world \<times> 'h pool_world \<Rightarrow>
   main_end \<times> 'l world \<times> 'h pool_world" where
  "gamma_main env rt sched fresh cenv quoted conn_state float_part run build host args wp =
     (case flag_Parse float_part gamma_flags args of
        Inl code \<Rightarrow> (OsExit code, wp)
      | Inr fs \<Rightarrow>
          (let ((conn, cleanup), pw1) = gamma_dial cenv quoted (flag_string fs ''upstream'') (snd wp);
               app = gamma_app env rt sched fresh conn_state build (host_id host) fs conn
           in run_app (\<lambda>msg (w, pw). (w, pool_logf LevelFatal msg pw)) (sc_err_text env) (run app)
                (\<lambda>(w, pw). (w, cleanup pw)) (fst wp, pw1)))"

section \<open>What is relied on of kratos\<close>

text \<open>
  The life of an application. Its servers serve (\<open>serving\<close>) until one of them fails, and then the run
  ends with that error, or until a signal arrives; then the hooks registered with \<open>BeforeStop\<close> run, in
  order, and only then are the servers stopped (\<open>stopping\<close>, which is told the error of the last hook).
\<close>

fun run_hooks ::
  "ctx \<Rightarrow> (ctx \<Rightarrow> ('l world, error option) io) list \<Rightarrow> error option \<Rightarrow> ('l world, error option) io" where
  "run_hooks c [] err = io_ret err"
| "run_hooks c (h # hs) err = io_bind (h c) (run_hooks c hs)"

definition lifecycle ::
  "(('l, 'q, 'r) kratos_app \<Rightarrow> ('l world, error option) io) \<Rightarrow>
   (('l, 'q, 'r) kratos_app \<Rightarrow> 'l world \<Rightarrow> error option \<times> 'l world) \<Rightarrow>
   (('l, 'q, 'r) kratos_app \<Rightarrow> error option \<Rightarrow> 'l world \<Rightarrow> error option \<times> 'l world) \<Rightarrow> ctx \<Rightarrow> bool" where
  "lifecycle run serving stopping c \<longleftrightarrow> (\<forall>app w. run app w =
     (case serving app w of
        (Some e, w1) \<Rightarrow> (Ok (Some e), w1)
      | (None, w1) \<Rightarrow> io_bind (run_hooks c (app_BeforeStop app) None) (\<lambda>err. io_call (stopping app err)) w1))"

text \<open>How a service ends, given what its run returns.\<close>

definition service_end :: "(error \<Rightarrow> string) \<Rightarrow> error option \<times> 'l world \<Rightarrow> main_end \<times> 'l world" where
  "service_end err_text out =
     (case out of
        (Some e, w1) \<Rightarrow> (OsExit 1, world_fatalf (''app run: '' @ err_text e) w1)
      | (None, w1) \<Rightarrow> (MainReturned, w1))"

lemma run_app_end:
  assumes "run w = (Ok (fst out), snd out)"
  shows "run_app world_fatalf err_text run (\<lambda>w. w) w = service_end err_text out"
  using assms by (simp add: run_app_def service_end_def split: prod.split option.split)

section \<open>Command lines\<close>

lemma map_of_alpha_flags:
  "map_of alpha_flags = [''grpc'' \<mapsto> StringValue '':50051'', ''http'' \<mapsto> StringValue '':8080'',
     ''other'' \<mapsto> StringValue '':8081'', ''drain-grace'' \<mapsto> DurationValue (10 * second)]"
  by (simp add: alpha_flags_def flag_StringVar_def flag_DurationVar_def update_conv fun_eq_iff)

text \<open>The last setting of a name, if there is one.\<close>

fun last_setting :: "(bool \<times> flag_style \<times> string \<times> string) list \<Rightarrow> string \<Rightarrow> string option" where
  "last_setting [] n = None"
| "last_setting ((two, style, name, v) # ss) n =
     (case last_setting ss n of Some v' \<Rightarrow> Some v' | None \<Rightarrow> if name = n then Some v else None)"

lemma string_settings:
  assumes "\<forall>(two, style, name, v) \<in> set ss. \<exists>old. map_of fs name = Some (StringValue old)"
  shows "\<exists>fs'. fold (apply_flag fp) ss (Inr fs) = Inr fs' \<and>
    (\<forall>n. map_of fs' n = (case last_setting ss n of Some v \<Rightarrow> Some (StringValue v) | None \<Rightarrow> map_of fs n))"
  using assms
proof (induction ss arbitrary: fs)
  case (Cons p ss)
  obtain two style name v where p: "p = (two, style, name, v)"
    by (cases p)
  let ?fs = "AList.update name (StringValue v) fs"
  have set1: "set_flag fp fs name v = Inr ?fs"
    using Cons.prems by (auto simp: p set_flag_def set_value_def)
  have "\<forall>(two, style, name, v) \<in> set ss. \<exists>old. map_of ?fs name = Some (StringValue old)"
    using Cons.prems by (auto simp: update_conv')
  from Cons.IH [OF this] show ?case
    by (auto simp: p set1 update_conv' split: option.split)
qed simp

lemma flag_Parse_code:
  "flag_Parse fp fs args = Inl code \<Longrightarrow> code = (if parse_args fp fs args = Inl ErrHelp then 0 else 2)"
  by (auto simp: flag_Parse_def split: sum.splits flag_error.splits)

section \<open>Properties\<close>

text \<open>
  The command line of kris-alpha means what it says: with any number of settings of the three
  addresses, written with one or two dashes, joined by \<open>=\<close> or separate, in any order, the last setting
  of each wins and the others keep their defaults; a grace period is read as the duration it spells.
\<close>

theorem alpha_command_line:
  assumes "\<forall>(two, style, name, v) \<in> set ss. name \<in> {''grpc'', ''http'', ''other''}"
    and "units_ok parts" and "parts \<noteq> []" and "spelled parts < 2 ^ 63"
  shows "\<exists>fs. flag_Parse fp alpha_flags (concat (map spell_flag (ss @ [(two, style, ''drain-grace'', spell parts)]))) = Inr fs \<and>
    flag_string fs ''grpc'' = (case last_setting ss ''grpc'' of Some v \<Rightarrow> v | None \<Rightarrow> '':50051'') \<and>
    flag_string fs ''http'' = (case last_setting ss ''http'' of Some v \<Rightarrow> v | None \<Rightarrow> '':8080'') \<and>
    flag_string fs ''other'' = (case last_setting ss ''other'' of Some v \<Rightarrow> v | None \<Rightarrow> '':8081'') \<and>
    sint (flag_duration fs ''drain-grace'') = int (spelled parts)"
proof -
  let ?all = "ss @ [(two, style, ''drain-grace'', spell parts)]"
  let ?d = "word_of_int (int (spelled parts)) :: duration"
  let ?names = "{''grpc'', ''http'', ''other'', ''drain-grace''}"
  have ok: "flag_name_ok name \<and> map_of alpha_flags name \<noteq> None" if "name \<in> ?names" for name
    using that by (auto simp: flag_name_ok_def map_of_alpha_flags)
  have "\<forall>(two, style, name, v) \<in> set ?all. flag_name_ok name \<and> map_of alpha_flags name \<noteq> None"
  proof (clarify, rule ok)
    fix t st name v
    assume "(t, st, name, v) \<in> set ?all"
    then show "name \<in> ?names"
      using bspec [OF assms(1), of "(t, st, name, v)"] by auto
  qed
  then have run: "parse_args fp alpha_flags (concat (map spell_flag ?all)) = fold (apply_flag fp) ?all (Inr alpha_flags)"
    by (rule parse_args_spelled)
  have "\<exists>old. map_of alpha_flags name = Some (StringValue old)" if "name \<in> {''grpc'', ''http'', ''other''}" for name
    using that by (auto simp: map_of_alpha_flags)
  then have defined: "\<forall>(two, style, name, v) \<in> set ss. \<exists>old. map_of alpha_flags name = Some (StringValue old)"
    using assms(1) by fast
  obtain fs' where fs': "fold (apply_flag fp) ss (Inr alpha_flags) = Inr fs'"
    "\<forall>n. map_of fs' n = (case last_setting ss n of Some v \<Rightarrow> Some (StringValue v) | None \<Rightarrow> map_of alpha_flags n)"
    using string_settings [of ss alpha_flags fp, OF defined] by blast
  have "last_setting ss ''drain-grace'' = None"
    using assms(1) by (induction ss) auto
  then have "set_flag fp fs' ''drain-grace'' (spell parts) = Inr (AList.update ''drain-grace'' (DurationValue ?d) fs')"
    using fs'(2) ParseDuration_spelled(1) [OF assms(2-4)] by (simp add: set_flag_def set_value_def map_of_alpha_flags)
  then have "flag_Parse fp alpha_flags (concat (map spell_flag ?all)) =
      Inr (AList.update ''drain-grace'' (DurationValue ?d) fs')"
    unfolding flag_Parse_def run by (simp add: fs'(1))
  moreover have "sint ?d = int (spelled parts)"
    using assms(4) by (intro sint_word_of_int64) (simp add: in_int64_def)
  ultimately show ?thesis
    using fs'(2) by (simp add: flag_string_def flag_duration_def update_conv' map_of_alpha_flags split: option.split)
qed

theorem alpha_command_line_witness:
  "\<exists>fs. flag_Parse (\<lambda>_ _ _. 0) alpha_flags [''-http'', '':1'', ''--http=:2'', ''-drain-grace='' @ spell [(5, ''s'')]] = Inr fs \<and>
    flag_string fs ''http'' = '':2'' \<and> flag_string fs ''grpc'' = '':50051'' \<and>
    sint (flag_duration fs ''drain-grace'') = 5000000000"
  using alpha_command_line [of "[(False, Spaced, ''http'', '':1''), (True, Joined, ''http'', '':2'')]"
      "[(5, ''s'')]" "\<lambda>_ _ _. 0" False Joined]
  by (auto simp: units_ok_def spelled_def unitMap_def)

text \<open>
  C8. kris-alpha from start to end. A request for help ends the process with status 0, any other
  command line that cannot be parsed with status 2, before anything is set up. Otherwise the
  application that is run serves as documented (ready until the drain flag is set, alive, greeting),
  and its logger is the one made from the build variables and the host name. When a signal ends the
  serving, the drain flag, on which \<open>/readyz\<close> fails, is set before the wait begins; when the wait is
  over and the servers are stopped, the flag is still set and the whole configured grace period has
  passed since, unless the context of the hook ended. The process then ends normally, or with status
  1 and a fatal line when stopping reports an error. When a server fails, the process ends with
  status 1 and a fatal line; nothing is promised about draining then.
\<close>

theorem alpha_main_spec:
  fixes w :: "'l world"
  assumes "runtime_ok rth" and "lifecycle run serving stopping c" and "timer_law sel"
    and "\<And>n d w. flags w a \<Longrightarrow> flags (snd (sel n d w)) a"
  shows "case flag_Parse fp alpha_flags args of
      Inl code \<Rightarrow> alpha_main env rtg rth sel fp run build host args a w = (OsExit code, w) \<and>
        code = (if parse_args fp alpha_flags args = Inl ErrHelp then 0 else 2)
    | Inr fs \<Rightarrow> (\<exists>app. alpha_serves rth a app \<and> app_ID app = host_id host \<and>
        app_Logger app = service_logger env build (host_id host) \<and>
        (case serving app (w\<lparr>flags := (flags w)(a := False)\<rparr>) of
           (Some e, w1) \<Rightarrow> alpha_main env rtg rth sel fp run build host args a w =
             (OsExit 1, world_fatalf (''app run: '' @ sc_err_text env e) w1)
         | (None, w1) \<Rightarrow> (\<exists>w2. let w' = w1\<lparr>flags := (flags w1)(a := True)\<rparr>; grace = flag_duration fs ''drain-grace'' in
             w2 = (if sint grace \<le> 0 then w' else snd (sel (cid c) (sint grace) w')) \<and>
             flags w2 a \<and> (clock w1 + sint grace \<le> clock w2 \<or> ctx_Err c w2 \<noteq> None) \<and>
             alpha_main env rtg rth sel fp run build host args a w =
               service_end (sc_err_text env) (stopping app None w2))))"
proof (cases "flag_Parse fp alpha_flags args")
  case (Inl code)
  then show ?thesis
    using flag_Parse_code [OF Inl] by (simp add: alpha_main_def)
next
  case (Inr fs)
  let ?grace = "flag_duration fs ''drain-grace''" and ?w0 = "w\<lparr>flags := (flags w)(a := False)\<rparr>"
  let ?d = "\<lparr>d_delay = ?grace, d_draining = a\<rparr>"
  obtain app where new: "alpha_newApp env rtg rth sel build (flag_string fs ''grpc'') (flag_string fs ''http'')
        (flag_string fs ''other'') ?grace a (service_logger env build (host_id host)) (host_id host) w = (Ok (app, io_ret ()), ?w0)"
    and app: "app_ID app = host_id host" "app_BeforeStop app = [BeforeStop sel ?d]"
      "alpha_serves rth a app" "app_Logger app = service_logger env build (host_id host)"
    using alpha_newApp_run [OF assms(1)] by blast
  have run: "run app ?w0 = (case serving app ?w0 of
        (Some e, w1) \<Rightarrow> (Ok (Some e), w1)
      | (None, w1) \<Rightarrow> io_bind (run_hooks c (app_BeforeStop app) None) (\<lambda>err. io_call (stopping app err)) w1)"
    using assms(2) unfolding lifecycle_def by blast
  have main: "alpha_main env rtg rth sel fp run build host args a w = service_end (sc_err_text env) out"
    if "run app ?w0 = (Ok (fst out), snd out)" for out
    using run_app_end [of "run app", OF that] by (simp add: alpha_main_def Inr new io_simps)
  obtain failed w1 where serving: "serving app ?w0 = (failed, w1)"
    by (cases "serving app ?w0")
  show ?thesis
  proof (cases failed)
    case (Some e)
    then have "run app ?w0 = (Ok (fst (Some e, w1)), snd (Some e, w1))"
      by (simp add: run serving)
    then have "alpha_main env rtg rth sel fp run build host args a w = service_end (sc_err_text env) (Some e, w1)"
      by (rule main)
    with Some show ?thesis
      by (simp add: Inr serving service_end_def) (rule exI [of _ app], simp add: app serving)
  next
    case None
    define w2 where "w2 = (let w' = w1\<lparr>flags := (flags w1)(a := True)\<rparr>
      in if sint ?grace \<le> 0 then w' else snd (sel (cid c) (sint ?grace) w'))"
    have hook: "BeforeStop sel ?d c w1 = (Ok None, w2)"
      by (simp add: BeforeStop_run w2_def Let_def)
    have "run app ?w0 = (Ok (fst (stopping app None w2)), snd (stopping app None w2))"
      by (simp add: run serving None app(2) io_bind_def hook io_ret_def io_call_def split: prod.split)
    then have end_: "alpha_main env rtg rth sel fp run build host args a w =
        service_end (sc_err_text env) (stopping app None w2)"
      by (rule main)
    have "flags w2 a"
      using assms(4) by (simp add: w2_def Let_def)
    have "\<exists>w2. let w' = w1\<lparr>flags := (flags w1)(a := True)\<rparr>; grace = ?grace in
        w2 = (if sint grace \<le> 0 then w' else snd (sel (cid c) (sint grace) w')) \<and>
        flags w2 a \<and> (clock w1 + sint grace \<le> clock w2 \<or> ctx_Err c w2 \<noteq> None) \<and>
        alpha_main env rtg rth sel fp run build host args a w = service_end (sc_err_text env) (stopping app None w2)"
      using \<open>flags w2 a\<close> end_ BeforeStop_waits [OF assms(3) hook] w2_def
      by (intro exI [of _ w2]) (simp only: Let_def simp_thms Drainer.simps)
    then show ?thesis
      unfolding Inr sum.case
      by (intro exI [of _ app]) (simp only: app serving None prod.case option.case simp_thms)
  qed
qed

definition demo_run :: "('l, nat, nat) kratos_app \<Rightarrow> ('l world, error option) io" where
  "demo_run app = io_bind (run_hooks Background (app_BeforeStop app) None) (\<lambda>err. io_call (\<lambda>w. (err, w)))"

lemma demo_lifecycle: "lifecycle demo_run (\<lambda>_ w. (None, w)) (\<lambda>_ err w. (err, w)) Background"
  by (simp add: lifecycle_def demo_run_def)

theorem alpha_main_spec_witness:
  "\<exists>w2. alpha_main demo_sidecar demo_rt demo_http_rt demo_timer (\<lambda>_ _ _. 0) demo_run alpha_build (Inr ''pod'') [] 3
       (demo_world :: unit world) = (MainReturned, w2) \<and> flags w2 3 \<and> sint (10 * second) \<le> clock w2"
proof -
  have ok: "runtime_ok demo_http_rt"
    by (simp add: demo_http_rt_def demo_runtime_ok)
  have keep: "flags (snd (demo_timer n d w)) 3" if "flags w 3" for n d w
    using that by (simp add: demo_timer_def)
  have "flag_Parse (\<lambda>_ _ _. 0) alpha_flags [] = Inr alpha_flags"
    by (simp add: flag_Parse_def)
  moreover have "flag_duration alpha_flags ''drain-grace'' = 10 * second"
    by (simp add: flag_duration_def map_of_alpha_flags)
  moreover have "sint (10 * second :: duration) = 10000000000"
    by (simp add: second_def)
  moreover have "clock (demo_world :: unit world) = 0"
    by (simp add: demo_world_def)
  ultimately show ?thesis
    using alpha_main_spec [where args = "[]" and env = demo_sidecar and rtg = demo_rt and fp = "\<lambda>_ _ _. 0"
        and build = alpha_build and host = "Inr ''pod''" and w = "demo_world :: unit world" and sel = demo_timer,
        OF ok demo_lifecycle demo_timer_law keep]
    by (auto simp: demo_timer_def service_end_def Let_def)
qed

text \<open>
  C40. kris-beta from start to end. A request for help ends the process with status 0, any other
  command line that cannot be parsed with status 2, before anything is set up.
  Otherwise the business server is the one that serves the two routes behind the gates, at the address
  given; there is no readiness probe and no shutdown hook, so \<open>/readyz\<close> answers 200 whatever the state of
  the process, and on a signal the servers are stopped at once, without draining. The process ends
  normally, or with status 1 and a fatal line when a server fails or stopping reports an error.
\<close>

theorem beta_main_spec:
  fixes w :: "'l world"
  assumes "lifecycle run serving stopping c"
  shows "case flag_Parse fp beta_flags args of
      Inl code \<Rightarrow> beta_main env fr secs ops rt fp run build host args b w = (OsExit code, w) \<and>
        code = (if parse_args fp beta_flags args = Inl ErrHelp then 0 else 2)
    | Inr fs \<Rightarrow> (\<exists>hs oh h app w1. beta_server fr (sc_err_text env) secs ops rt (flag_string fs ''http'') b w = (Ok hs, w1) \<and>
        app_Server app = [AppHTTP (biz_S hs), AppHTTP oh] \<and> app_ID app = host_id host \<and>
        app_Logger app = service_logger env build (host_id host) \<and> app_BeforeStop app = [] \<and>
        serve oh ''/readyz'' = Some h \<and> probe_answers a h (\<lambda>_. 200) \<and>
        beta_main env fr secs ops rt fp run build host args b w = service_end (sc_err_text env)
          (case serving app w1 of (Some e, w2) \<Rightarrow> (Some e, w2) | (None, w2) \<Rightarrow> stopping app None w2))"
proof (cases "flag_Parse fp beta_flags args")
  case (Inl code)
  then show ?thesis
    using flag_Parse_code [OF Inl] by (simp add: beta_main_def)
next
  case (Inr fs)
  obtain hs w1 where hs: "beta_server fr (sc_err_text env) secs ops rt (flag_string fs ''http'') b w = (Ok hs, w1)"
    by (simp add: beta_server_run)
  let ?oh = "beta_oh env build (flag_string fs ''other'') :: ('l, http_request, unit) khttp_server"
  let ?h = "readyHandler (sc_err_text env) (sc_fresh env) None :: 'l http_handler"
  let ?app = "\<lparr>app_ID = host_id host, app_Name = i_Name build, app_Version = i_Version build,
    app_Logger = service_logger env build (host_id host), app_Server = [AppHTTP (biz_S hs), AppHTTP ?oh],
    app_BeforeStop = []\<rparr>"
  let ?out = "case serving ?app w1 of (Some e, w2) \<Rightarrow> (Some e, w2) | (None, w2) \<Rightarrow> stopping ?app None w2"
  have "run app w1 = (case serving app w1 of
        (Some e, w1) \<Rightarrow> (Ok (Some e), w1)
      | (None, w1) \<Rightarrow> io_bind (run_hooks c (app_BeforeStop app) None) (\<lambda>err. io_call (stopping app err)) w1)" for app
    using assms unfolding lifecycle_def by blast
  from this [of ?app] have run: "run ?app w1 = (Ok (fst ?out), snd ?out)"
    by (simp add: io_bind_def io_ret_def io_call_def split: prod.split option.split)
  have "serve ?oh ''/readyz'' = Some ?h"
    by (simp add: beta_oh_def sidecar_serve)
  moreover have "probe_answers a ?h (\<lambda>_. 200)"
    by (rule readyz_unprobed)
  moreover have "beta_main env fr secs ops rt fp run build host args b w = service_end (sc_err_text env) ?out"
    using run_app_end [of "run ?app", OF run] by (simp add: beta_main_def Inr hs)
  ultimately show ?thesis
    unfolding Inr sum.case using hs
    by - (rule exI [of _ hs], rule exI [of _ ?oh], rule exI [of _ ?h], rule exI [of _ ?app],
        rule exI [of _ w1], simp)
qed

theorem beta_main_spec_witness:
  "\<exists>w2. beta_main demo_sidecar (\<lambda>_ _. False) (\<lambda>_. 600) simple_ops demo_beta_rt (\<lambda>_ _ _. 0) demo_run
     beta_build (Inr ''pod'') [] 0 demo_world = (MainReturned, w2)"
proof -
  have "flag_Parse (\<lambda>_ _ _. 0) beta_flags [] = Inr beta_flags"
    by (simp add: flag_Parse_def)
  then show ?thesis
    using beta_main_spec [OF demo_lifecycle, where args = "[]" and env = demo_sidecar and fr = "\<lambda>_ _. False" and secs = "\<lambda>_. 600"
        and ops = simple_ops and rt = demo_beta_rt and fp = "\<lambda>_ _ _. 0" and build = beta_build
        and host = "Inr ''pod''" and b = 0 and w = demo_world]
    by (auto simp: service_end_def)
qed

text \<open>
  How kris-gamma ends, given what was open at the start, the connection and what the run returned: the
  connection is closed except when the run reports an error (a crash of another goroutine says nothing).
\<close>

definition gamma_ends ::
  "'h pool_world \<Rightarrow> 'h option \<Rightarrow> error option res \<Rightarrow> main_end \<Rightarrow> 'h pool_world \<Rightarrow> bool" where
  "gamma_ends pw conn res ending pw' \<longleftrightarrow>
     (case res of
        Ok None \<Rightarrow> ending = MainReturned \<and> pw_open pw' = pw_open pw
      | Ok (Some e) \<Rightarrow> ending = OsExit 1 \<and> pw_open pw' =
          (case conn of None \<Rightarrow> pw_open pw | Some h \<Rightarrow> insert h (pw_open pw))
      | Panic v \<Rightarrow> ending = MainPanicked v \<and> pw_open pw' = pw_open pw
      | Crash v \<Rightarrow> ending = MainPanicked v)"

lemma gamma_ends_run:
  assumes "client_env_ok cenv" and kept: "\<And>app wp. pw_open (snd (snd (run app wp))) = pw_open (snd wp)"
    and "gamma_dial cenv quoted upstream pw = ((conn, cleanup), pw1)"
  shows "case run_app (\<lambda>msg (w, pw). (w, pool_logf LevelFatal msg pw)) err_text (run app) (\<lambda>(w, pw). (w, cleanup pw)) (w, pw1) of
    (ending, w', pw') \<Rightarrow> gamma_ends pw conn (fst (run app (w, pw1))) ending pw'"
proof -
  note leak = gamma_dial_leak_free [OF assms(1,3)]
  obtain res w2 pw2 where run: "run app (w, pw1) = (res, w2, pw2)"
    by (metis surj_pair)
  have "pw_open pw2 = pw_open pw1"
    using kept [of app "(w, pw1)"] run by simp
  then have "pw_open (cleanup pw2) = pw_open pw"
    and "pw_open pw2 = (case conn of None \<Rightarrow> pw_open pw | Some h \<Rightarrow> insert h (pw_open pw))"
    using leak by (cases conn; auto)+
  then show ?thesis
    by (simp add: run_app_def run gamma_ends_def pool_logf_def split: res.split option.split)
qed

text \<open>
  C32. kris-gamma from start to end. It boots whether or not its upstream is reachable: without a
  connection \<open>/readyz\<close> answers 200, with one it answers 200 exactly while the connection is ready or
  idle. When the run ends normally or panics, the deferred cleanup has closed the connection and
  nothing is left open; when the run reports an error, the process exits with status 1 and the
  cleanup is skipped, so the connection is still open at the end. A wrong command line ends the
  process before dialling.
\<close>

theorem gamma_main_spec:
  fixes conn_state :: "'h \<Rightarrow> 'l world \<Rightarrow> connectivity" and wp :: "'l world \<times> 'h pool_world"
  assumes "client_env_ok cenv" and "\<And>app wp. pw_open (snd (snd (run app wp))) = pw_open (snd wp)"
    and "\<And>h. ctx_blind (conn_state h)"
  shows "case flag_Parse fp gamma_flags args of
      Inl code \<Rightarrow> gamma_main env rt sched fresh cenv quoted conn_state fp run build host args wp = (OsExit code, wp)
    | Inr fs \<Rightarrow> (\<exists>conn wp1 gs oh h app. app_Server app = [AppGRPC gs, AppHTTP oh] \<and> serve oh ''/readyz'' = Some h \<and>
        probe_answers a h (\<lambda>w. case conn of
          None \<Rightarrow> 200 | Some c \<Rightarrow> if conn_state c w \<in> {Ready, Idle} then 200 else 503) \<and>
        (case gamma_main env rt sched fresh cenv quoted conn_state fp run build host args wp of
           (ending, w', pw') \<Rightarrow> gamma_ends (snd wp) conn (fst (run app wp1)) ending pw'))"
proof (cases "flag_Parse fp gamma_flags args")
  case (Inr fs)
  obtain conn cleanup pw1 where dial: "gamma_dial cenv quoted (flag_string fs ''upstream'') (snd wp) = ((conn, cleanup), pw1)"
    by (metis surj_pair)
  let ?app = "gamma_app env rt sched fresh conn_state build (host_id host) fs conn"
  obtain h where h: "serve (gamma_oh env build (flag_string fs ''other'') conn_state conn :: ('l, http_request, unit) khttp_server) ''/readyz'' = Some h"
    "probe_answers a h (\<lambda>w. case conn of None \<Rightarrow> 200 | Some c \<Rightarrow> if conn_state c w \<in> {Ready, Idle} then 200 else 503)"
    using gamma_ready [where conn_state = conn_state, OF assms(3)] by blast
  show ?thesis
    unfolding Inr sum.case
  proof (intro exI conjI)
    show "app_Server ?app = [AppGRPC (gamma_gs rt sched fresh (flag_string fs ''grpc'')),
        AppHTTP (gamma_oh env build (flag_string fs ''other'') conn_state conn)]"
      by (simp add: gamma_app_def)
    show "case gamma_main env rt sched fresh cenv quoted conn_state fp run build host args wp of
           (ending, w', pw') \<Rightarrow> gamma_ends (snd wp) conn (fst (run ?app (fst wp, pw1))) ending pw'"
      using gamma_ends_run [OF assms(1,2) dial] by (simp add: gamma_main_def Inr dial)
  qed (fact h)+
qed (simp add: gamma_main_def)

definition demo_gamma_run ::
  "(unit, nat, nat) kratos_app \<Rightarrow> (unit world \<times> nat pool_world, error option) io" where
  "demo_gamma_run app = io_ret None"

theorem gamma_main_spec_witness:
  "case gamma_main demo_sidecar demo_rt (\<lambda>_ _. None) 0 demo_client_env (\<lambda>s. s) (\<lambda>_ _. Ready) (\<lambda>_ _ _. 0) demo_gamma_run
      gamma_build (Inr ''pod'') [] (demo_world, demo_pools) of
    (ending, w', pw') \<Rightarrow> ending = MainReturned \<and> pw_open pw' = {}"
proof -
  have keep: "pw_open (snd (snd (demo_gamma_run app wp))) = pw_open (snd wp)" for app wp
    by (simp add: demo_gamma_run_def io_simps)
  have blind: "ctx_blind (\<lambda>_. Ready)"
    by (simp add: ctx_blind_def)
  have none: "fst (demo_gamma_run app wp) = Ok None" for app wp
    by (simp add: demo_gamma_run_def io_simps)
  have "flag_Parse (\<lambda>_ _ _. 0) gamma_flags [] = Inr gamma_flags"
    by (simp add: flag_Parse_def)
  then show ?thesis
    using gamma_main_spec [where run = demo_gamma_run and args = "[]" and fp = "\<lambda>_ _ _. 0" and env = demo_sidecar
        and rt = demo_rt and sched = "\<lambda>_ _. None" and fresh = 0 and quoted = "\<lambda>s. s" and conn_state = "\<lambda>_ _. Ready"
        and build = gamma_build and host = "Inr ''pod''" and wp = "(demo_world, demo_pools)" and a = 0,
        OF demo_client_env_ok keep blind]
    by (auto simp: none demo_pools_def gamma_ends_def)
qed

end
