(* ===== verification/Spec2Isabelle.thy ===== *)
theory Spec2Isabelle
  imports Page Retry Auth Ratelimit Bucket_Concurrency Server_Chain Probe Cors Config Log Data Client
    Testutil Log_Concurrency Version Trace Services Mains
begin

text \<open>
  \<^bold>\<open>A verification of the kris service infrastructure.\<close>

  The repository is a set of Go packages (src/pkg) on top of the kratos framework, and three small
  services (src/kris-alpha, src/kris-beta, src/kris-gamma) that wire them together. A request enters
  through a kratos server, passes a chain of middlewares (recovery, tracing, trace id, access log,
  metrics, and whatever a service adds: authentication, rate limiting, a timeout), reaches a handler,
  and may leave through a client whose own chain propagates the trace id and retries. Beside the
  business listener every service has a sidecar listener with probes. Configuration, logging, database
  pools, tracing and version information are packages of their own.

  \<^bold>\<open>Foundations.\<close>
  \<^item> \<open>Go_Prelude\<close>: int64 as 64-bit words, with division towards zero; the effect type \<open>('w, 'a) io\<close>
    (a call returns, panics, or takes the process down, and changes the world); functional options;
    the locale \<open>interleaving\<close> of goroutines as a step relation with an invariant.
  \<^item> \<open>Monitor\<close>: methods under one mutex, statement by statement, run by any number of goroutines; the
    locale \<open>monitor\<close> is the discipline (shared memory only between Lock and Unlock), from which
    linearizability and progress follow.
  \<^item> \<open>Go_Time\<close>, \<open>Go_Flag\<close>: time.ParseDuration and the flag package, with what they read.
  \<^item> \<open>Go_Strings\<close>, \<open>Go_Errors\<close>, \<open>Go_Http\<close>, \<open>Go_Json\<close>: what the sources use of strings, errors
    (\<open>Is\<close>, \<open>As\<close>, wrapping), net/http (canonical header keys, header maps, response writers) and
    encoding/json (strings with escapes and UTF-8, objects, lines). \<open>Go_Http\<close> has the locale
    \<open>carrier\<close> of anything headers travel in.
  \<^item> \<open>Kratos\<close>: contexts with \<open>WithTimeout\<close> and \<open>cancel\<close>, transports, the world (clock, errors and deadlines of
    contexts, event trace, random numbers, rate buckets, response writers, atomic flags), handlers and
    middlewares; the locales
    \<open>observer_mw\<close> (runs the handler once and reports), \<open>gate_mw\<close> (lets a request through or answers
    it) and their compositions \<open>observer_pair\<close> and \<open>gate_pair\<close>, which the middlewares interpret.

  \<^bold>\<open>Middlewares\<close> (pkg/middleware).
  \<^item> \<open>Metric\<close>: the metric vectors of pkg/metric (prom.go, mongo.go) with their labels; a call with the
    wrong number of label values panics, and no call of the program does.
  \<^item> \<open>Logid\<close>, \<open>Recovery\<close>, \<open>Access\<close>, \<open>Mw_Metric\<close>: logid.go, recovery.go, access.go, metric.go. Shown: what each adds to the trace on every outcome, that a
    trace id survives a hop, that log and metric agree on codes (but for one case).
  \<^item> \<open>Auth\<close>: auth.go. Complete mediation; token extraction.
  \<^item> \<open>Ratelimit\<close>: ratelimit.go and peer.go. The map of limiters refines independent limiters (locale
    \<open>keyed_machine\<close>); a rate bound per key; the key of a request.
  \<^item> \<open>Bucket_Concurrency\<close>: the method \<open>allow\<close>, statement by statement, run by any number of goroutines:
    mutual exclusion, refinement of the sequential bucket, the rate bound under every interleaving,
    no deadlock.
  \<^item> \<open>Timeout\<close>: timeout.go, as a function of who wins the race and as a step relation of the two
    goroutines: results are sound, the caller is responsive, a late handler never blocks, a panic of
    the handler takes the process down, and what the race gives is what the function gives.
  \<^item> \<open>Retry\<close>: retry.go. The loop terminates by a measure; what it returns for every handler; the
    backoff schedule under shifts that overflow, jitter bounds (both with the bounds on the settings they
    need; the loop itself needs only settings of at least 2 ns); the retry predicate on error chains.
  \<^item> \<open>Cors\<close>: cors.go, down to the header map.

  \<^bold>\<open>Servers, clients and resources.\<close>
  \<^item> \<open>Server_Chain\<close>: pkg/runtime/server grpc.go, http.go, types.go. The default chain end to end, for
    any extra middlewares and handler; raw routes, with the error encoder's effect on the response
    writer; how many counters a request moves.
  \<^item> \<open>Probe\<close>: probe.go, drain.go, tls.go and the sidecar server of http.go. The drainer waits for a timer
    or the end of its context (\<open>timer_select\<close>).
  \<^item> \<open>Client\<close>: pkg/client. The chain of an outbound call, the retry settings, no leaked connections.
  \<^item> \<open>Data\<close>: pkg/data, the collectors of pkg/metric/db.go and the registration of all metrics at
    initialisation, which never panics. Factories never leak; pool events are counted exactly.
  \<^item> \<open>Config\<close>: pkg/config. The resolution order of a key, the line format, the walk to the project root
    (which terminates), secrets and typed getters; durations are read as written.
  \<^item> \<open>Log\<close>: pkg/log. The JSON sink writes one line per call from which values can be read back;
    redaction lets no sensitive value through; the slog adapter refines slog's grouping.
  \<^item> \<open>Log_Concurrency\<close>: the JSON sink and the in-memory test logger under their mutexes: lines stay whole
    whatever the interleaving, calls take effect one after the other, nobody hangs.
  \<^item> \<open>Page\<close>, \<open>Version\<close>, \<open>Trace\<close>, \<open>Testutil\<close>: the packages of these names.
  \<^item> \<open>Services\<close>: the wiring in the three main packages; any request to kris-beta's /whoami from the CORS
    filter to the body.
  \<^item> \<open>Mains\<close>: the functions main, from the command line to the exit status: on a signal kris-alpha stops
    its servers only after it has drained for the configured time (when a server fails, nothing is
    promised about draining), kris-beta at once, kris-gamma boots with or without its upstream and closes
    the connection unless the run fails.

  \<^bold>\<open>Parameters and hypotheses.\<close> Code that is not in the repository is an argument: kratos's recovery,
  tracing and \<open>Chain\<close> (\<open>runtime_ok\<close> states their documented behaviour) and its error encoder
  (\<open>encoder_ok\<close>), \<open>rate.Limiter\<close>
  (\<open>token_bucket_law\<close>), database drivers and the Prometheus registry (\<open>env_law\<close>), dialling
  (\<open>client_env_ok\<close>), the state of a connection (\<open>ctx_blind\<close>: it does not depend on the state of unrelated
  contexts), \<open>log.With\<close> (\<open>binds_first\<close>), \<open>kratos.App.Run\<close> (\<open>lifecycle\<close>: the run ends
  with the error of a server that fails, or a signal comes, the hooks run, the servers are stopped),
  timers (\<open>timer_law\<close>: a timer fires after at least its duration), uuid, the validator of tokens, and the \<open>float64\<close> product in a duration with a fraction. Each has a concrete instance
  that satisfies its hypotheses, used by the witnesses.

  \<^bold>\<open>Termination.\<close> No definition uses fuel. The retry loop, the walk to the project root, the trimming
  of white space and the reading of durations are functions with a measure; all other loops are
  structural. In \<open>Timeout\<close> a handler is an arbitrary program that need not end.

  \<^bold>\<open>Not modelled.\<close> What \<open>kratos.App.Run\<close> does inside (signals, listeners); the handlers of Prometheus and
  pprof, which are parameters of the sidecar; the \<open>traceparent\<close> header that kratos's client tracing adds (inside
  the parameter that stands for it); the text of usage messages; dependency injection sets
  and package comments. \<open>rate.Limiter.Allow\<close> is one atomic step that reads the clock.
\<close>

end
